(* ===== verification/Hdcp_Prelude.thy ===== *)
theory Hdcp_Prelude
  imports Main "HOL-Library.Word"
begin

text \<open>
  What every component shares: the machine integer types of the C++ code, the status
  values of \<^verbatim>\<open>hdcpdef.h\<close> and \<^verbatim>\<open>errno.h\<close>, the result type of code that can have undefined
  behaviour or not return, checked buffer reads, and the generic lemmas about them.

  A result of type \<open>'a outcome option\<close> is read as follows: \<open>None\<close> is a run that does not
  return, \<open>Some Undef\<close> a run that reaches undefined behaviour of C++ (a read or write outside
  a buffer, a null pointer dereference) and \<open>Some (Ret r)\<close> a run that returns \<open>r\<close>.
\<close>

unbundle bit_operations_syntax

section \<open>Machine integers and status values\<close>

type_synonym u8 = "8 word"
type_synonym u16 = "16 word"
type_synonym u32 = "32 word"
type_synonym u64 = "64 word"

text \<open>The code's \<^verbatim>\<open>int32_t\<close> results are kept as \<^typ>\<open>int\<close>: none of them is computed with.\<close>

abbreviation (input) SUCCESS :: int where "SUCCESS \<equiv> 0"
abbreviation (input) ENOENT :: int where "ENOENT \<equiv> 2"
abbreviation (input) EINTR :: int where "EINTR \<equiv> 4"
abbreviation (input) EIO :: int where "EIO \<equiv> 5"
abbreviation (input) EAGAIN :: int where "EAGAIN \<equiv> 11"
abbreviation (input) ENOMEM :: int where "ENOMEM \<equiv> 12"
abbreviation (input) EACCES :: int where "EACCES \<equiv> 13"
abbreviation (input) EBUSY :: int where "EBUSY \<equiv> 16"
abbreviation (input) EEXIST :: int where "EEXIST \<equiv> 17"
abbreviation (input) ENODEV :: int where "ENODEV \<equiv> 19"
abbreviation (input) EINVAL :: int where "EINVAL \<equiv> 22"
abbreviation (input) ERANGE :: int where "ERANGE \<equiv> 34"
abbreviation (input) ENAMETOOLONG :: int where "ENAMETOOLONG \<equiv> 36"
abbreviation (input) EPROTO :: int where "EPROTO \<equiv> 71"
abbreviation (input) EBADMSG :: int where "EBADMSG \<equiv> 74"
abbreviation (input) EMSGSIZE :: int where "EMSGSIZE \<equiv> 90"
abbreviation (input) ECONNABORTED :: int where "ECONNABORTED \<equiv> 103"
abbreviation (input) EISCONN :: int where "EISCONN \<equiv> 106"
abbreviation (input) ENOTCONN :: int where "ENOTCONN \<equiv> 107"
abbreviation (input) ECONNREFUSED :: int where "ECONNREFUSED \<equiv> 111"
abbreviation (input) ECANCELED :: int where "ECANCELED \<equiv> 125"

abbreviation (input) UINT32_MAX :: u32 where "UINT32_MAX \<equiv> 4294967295"
abbreviation (input) UINT8_MAX :: u8 where "UINT8_MAX \<equiv> 255"

text \<open>Limits of the protocol, from \<^verbatim>\<open>hdcpapi.h\<close>.\<close>

abbreviation (input) KSV_SIZE :: nat where "KSV_SIZE \<equiv> 5"
abbreviation (input) MAX_KSV_COUNT :: nat where "MAX_KSV_COUNT \<equiv> 127"
abbreviation (input) MAX_TOPOLOGY_DEPTH :: nat where "MAX_TOPOLOGY_DEPTH \<equiv> 7"
abbreviation (input) NUM_PHYSICAL_PORTS_MAX :: nat where "NUM_PHYSICAL_PORTS_MAX \<equiv> 5"
abbreviation (input) PORT_ID_MAX :: u32 where "PORT_ID_MAX \<equiv> 5"

section \<open>Undefined behaviour and runs that do not return\<close>

datatype 'a outcome = Undef | Ret 'a

definition ubind :: "'a outcome \<Rightarrow> ('a \<Rightarrow> 'b outcome) \<Rightarrow> 'b outcome" where
  "ubind m f = (case m of Undef \<Rightarrow> Undef | Ret a \<Rightarrow> f a)"

definition obind :: "'a outcome option \<Rightarrow> ('a \<Rightarrow> 'b outcome option) \<Rightarrow> 'b outcome option" where
  "obind m f = Option.bind m (\<lambda>r. case r of Undef \<Rightarrow> Some Undef | Ret a \<Rightarrow> f a)"

abbreviation ret :: "'a \<Rightarrow> 'a outcome option" where
  "ret a \<equiv> Some (Ret a)"

lemma ubind_simps [simp]:
  "ubind Undef f = Undef"
  "ubind (Ret a) f = f a"
  by (simp_all add: ubind_def)

lemma obind_simps [simp]:
  "obind None f = None"
  "obind (Some Undef) f = Some Undef"
  "obind (Some (Ret a)) f = f a"
  by (simp_all add: obind_def)

lemma ubind_eq_Ret: "ubind m f = Ret b \<longleftrightarrow> (\<exists>a. m = Ret a \<and> f a = Ret b)"
  by (cases m) auto

lemma ubind_eq_Undef: "ubind m f = Undef \<longleftrightarrow> m = Undef \<or> (\<exists>a. m = Ret a \<and> f a = Undef)"
  by (cases m) auto

lemma obind_eq_Ret: "obind m f = ret b \<longleftrightarrow> (\<exists>a. m = ret a \<and> f a = ret b)"
  by (cases m; cases "the m") auto

lemma obind_eq_Undef:
  "obind m f = Some Undef \<longleftrightarrow> m = Some Undef \<or> (\<exists>a. m = ret a \<and> f a = Some Undef)"
  by (cases m; cases "the m") auto

lemma obind_eq_None: "obind m f = None \<longleftrightarrow> m = None \<or> (\<exists>a. m = ret a \<and> f a = None)"
  by (cases m; cases "the m") auto

lemma ubind_RetE:
  assumes "ubind m f = Ret b" obtains a where "m = Ret a" "f a = Ret b"
  using assms by (auto simp: ubind_eq_Ret)

lemma obind_retE:
  assumes "obind m f = ret b" obtains a where "m = ret a" "f a = ret b"
  using assms by (auto simp: obind_eq_Ret)

lemmas hdcp_elims = ubind_RetE obind_retE

lemma ubind_cong [fundef_cong]:
  "m = m' \<Longrightarrow> (\<And>a. m' = Ret a \<Longrightarrow> f a = f' a) \<Longrightarrow> ubind m f = ubind m' f'"
  by (cases m') auto

lemma obind_cong [fundef_cong]:
  "m = m' \<Longrightarrow> (\<And>a. m' = ret a \<Longrightarrow> f a = f' a) \<Longrightarrow> obind m f = obind m' f'"
  by (cases m'; cases "the m'") auto

lemma obind_mono [partial_function_mono]:
  assumes "mono_option B" and "\<And>y. mono_option (\<lambda>f. C y f)"
  shows "mono_option (\<lambda>f. obind (B f) (\<lambda>y. C y f))"
  unfolding obind_def
proof (rule bind_mono [OF assms(1)])
  fix y
  show "mono_option (\<lambda>f. case y of Undef \<Rightarrow> Some Undef | Ret a \<Rightarrow> C a f)"
    by (cases y) (simp_all add: assms(2) option.const_mono)
qed

text \<open>\<open>ends m\<close>: the run does not go on forever, be it defined or not.\<close>

definition ends :: "'a option \<Rightarrow> bool" where
  "ends m \<longleftrightarrow> m \<noteq> None"

lemma ends_Some [simp]: "ends (Some r)" "\<not> ends None"
  by (simp_all add: ends_def)

lemma ends_obind: "ends m \<Longrightarrow> (\<And>a. m = ret a \<Longrightarrow> ends (f a)) \<Longrightarrow> ends (obind m f)"
  by (auto simp: ends_def obind_eq_None)

section \<open>Checked reads of a buffer\<close>

text \<open>\<open>rd buf i\<close> is the C++ expression \<^verbatim>\<open>buf[i]\<close>: outside the buffer it is undefined.\<close>

definition rd :: "'a list \<Rightarrow> nat \<Rightarrow> 'a outcome" where
  "rd buf i = (if i < length buf then Ret (buf ! i) else Undef)"

text \<open>\<open>rd_range buf off n\<close> is a read of \<open>n\<close> elements from \<^verbatim>\<open>&buf[off]\<close>, as \<^verbatim>\<open>memmove\<close> does.\<close>

definition rd_range :: "'a list \<Rightarrow> nat \<Rightarrow> nat \<Rightarrow> 'a list outcome" where
  "rd_range buf off n = (if off + n \<le> length buf then Ret (take n (drop off buf)) else Undef)"

text \<open>\<open>wr_range buf off bs\<close> writes \<open>bs\<close> to the buffer from \<^verbatim>\<open>&buf[off]\<close> on.\<close>

definition wr_range :: "'a list \<Rightarrow> nat \<Rightarrow> 'a list \<Rightarrow> 'a list outcome" where
  "wr_range buf off bs =
     (if off + length bs \<le> length buf
      then Ret (take off buf @ bs @ drop (off + length bs) buf) else Undef)"

lemma wr_range_in [simp]:
  "off + length bs \<le> length buf \<Longrightarrow>
     wr_range buf off bs = Ret (take off buf @ bs @ drop (off + length bs) buf)"
  by (simp add: wr_range_def)

lemma wr_range_out [simp]: "length buf < off + length bs \<Longrightarrow> wr_range buf off bs = Undef"
  by (simp add: wr_range_def)

lemma wr_range_eq_Ret:
  "wr_range buf off bs = Ret buf' \<longleftrightarrow>
     off + length bs \<le> length buf \<and> buf' = take off buf @ bs @ drop (off + length bs) buf"
  by (auto simp: wr_range_def)

lemma rd_in [simp]: "i < length buf \<Longrightarrow> rd buf i = Ret (buf ! i)"
  by (simp add: rd_def)

lemma rd_0 [simp]: "buf \<noteq> [] \<Longrightarrow> rd buf 0 = Ret (buf ! 0)"
  by simp

lemma rd_out [simp]: "length buf \<le> i \<Longrightarrow> rd buf i = Undef"
  by (simp add: rd_def)

lemma rd_range_in [simp]:
  "off + n \<le> length buf \<Longrightarrow> rd_range buf off n = Ret (take n (drop off buf))"
  by (simp add: rd_range_def)

lemma rd_range_out [simp]: "length buf < off + n \<Longrightarrow> rd_range buf off n = Undef"
  by (simp add: rd_range_def)

lemma rd_eq_Ret: "rd buf i = Ret x \<longleftrightarrow> i < length buf \<and> x = buf ! i"
  by (auto simp: rd_def)

lemma rd_range_eq_Ret:
  "rd_range buf off n = Ret xs \<longleftrightarrow> off + n \<le> length buf \<and> xs = take n (drop off buf)"
  by (auto simp: rd_range_def)

section \<open>Big-endian numbers from bytes\<close>

lemma u8_bit_less: "bit (b :: u8) n \<Longrightarrow> n < 8"
  using bit_imp_le_length [of b n] by simp

lemma u8_less: "unat (b :: u8) < 256"
  using unsigned_less [of b] by simp

lemma unat_ucast_widen [simp]:
  "unat (ucast (b :: u8) :: u16) = unat b"
  "unat (ucast (b :: u8) :: u32) = unat b"
  "unat (ucast (h :: u16) :: u32) = unat h"
  by (simp_all add: unsigned_ucast_eq take_bit_nat_eq_self_iff order.strict_trans2 [OF unsigned_less])

lemma unat_ucast_u32_u8: "unat (x :: u32) < 256 \<Longrightarrow> unat (ucast x :: u8) = unat x"
  by (simp add: unsigned_ucast_eq unsigned_take_bit_eq take_bit_nat_eq_self)

lemma unat_ucast_u32_u16: "unat (ucast (x :: u32) :: u16) = unat x mod 65536"
  by (simp add: unsigned_ucast_eq unsigned_take_bit_eq take_bit_eq_mod)

lemma be16_u16: "unat ((ucast (lo::u8) :: u16) OR push_bit 8 (ucast (hi :: u8))) = 256 * unat hi + unat lo"
proof -
  have "(ucast lo OR push_bit 8 (ucast hi) :: u16) = ucast lo + push_bit 8 (ucast hi)"
    by (rule disjunctive_add [symmetric]) (auto simp: bit_simps dest: u8_bit_less)
  then show ?thesis using u8_less [of hi] u8_less [of lo]
    by (simp add: push_bit_eq_mult unat_word_ariths unsigned_ucast_eq take_bit_eq_mod)
qed

lemma be16_u32: "unat (push_bit 8 (ucast (hi :: u8)) OR ucast (lo :: u8) :: u32) = 256 * unat hi + unat lo"
proof -
  have "(push_bit 8 (ucast hi) OR ucast lo :: u32) = push_bit 8 (ucast hi) + ucast lo"
    by (rule disjunctive_add [symmetric]) (auto simp: bit_simps dest: u8_bit_less)
  then show ?thesis using u8_less [of hi] u8_less [of lo]
    by (simp add: push_bit_eq_mult unat_word_ariths unsigned_ucast_eq take_bit_eq_mod)
qed

lemma be24_u32:
  "unat (push_bit 16 (ucast (a :: u8)) OR push_bit 8 (ucast (b :: u8)) OR ucast (c :: u8) :: u32) =
     65536 * unat a + 256 * unat b + unat c"
proof -
  have "(push_bit 8 (ucast b) OR ucast c :: u32) = push_bit 8 (ucast b) + ucast c"
    by (rule disjunctive_add [symmetric]) (auto simp: bit_simps dest: u8_bit_less)
  moreover have "(push_bit 16 (ucast a) OR (push_bit 8 (ucast b) OR ucast c) :: u32) =
      push_bit 16 (ucast a) + (push_bit 8 (ucast b) OR ucast c)"
    by (rule disjunctive_add [symmetric]) (auto simp: bit_simps dest: u8_bit_less)
  ultimately show ?thesis using u8_less [of a] u8_less [of b] u8_less [of c]
    by (simp add: push_bit_eq_mult unat_word_ariths unsigned_ucast_eq take_bit_eq_mod or.assoc)
qed

lemma unat_plus_u32: "unat (a::u32) + unat b < 2 ^ 32 \<Longrightarrow> unat (a + b) = unat a + unat b"
  by (simp add: unat_word_ariths)

lemma unat_minus_u32: "(b::u32) \<le> a \<Longrightarrow> unat (a - b) = unat a - unat b"
  by (rule unat_sub)
section \<open>Runs of a sequence of operations\<close>

text \<open>
  \<open>run_ops step xs s w\<close> performs the operations \<open>xs\<close> one after the other on the state \<open>s\<close> and
  the world \<open>w\<close> and collects the status of each.
\<close>

primrec run_ops ::
  "('op \<Rightarrow> 's \<Rightarrow> 'w \<Rightarrow> ((int \<times> 's) \<times> 'w) outcome option) \<Rightarrow> 'op list \<Rightarrow> 's \<Rightarrow> 'w \<Rightarrow>
     ((int list \<times> 's) \<times> 'w) outcome option" where
  "run_ops step [] s w = ret (([], s), w)"
| "run_ops step (x # xs) s w =
     obind (step x s w) (\<lambda>((r, s), w).
     obind (run_ops step xs s w) (\<lambda>((rs, s), w). ret ((r # rs, s), w)))"

text \<open>
  The contract of a component with an invariant: what its clients may rely on after any sequence of
  admissible operations. A component with a version that only grows promises more.
\<close>

locale inv_system =
  fixes step :: "'op \<Rightarrow> 's \<Rightarrow> 'w \<Rightarrow> ((int \<times> 's) \<times> 'w) outcome option"
    and admissible :: "'op \<Rightarrow> bool"
    and inv :: "'s \<Rightarrow> bool"
  assumes step_inv: "admissible x \<Longrightarrow> inv s \<Longrightarrow> step x s w = ret ((r, s'), w') \<Longrightarrow> inv s'"
begin

lemma run_inv:
  "list_all admissible xs \<Longrightarrow> inv s \<Longrightarrow> run_ops step xs s w = ret ((rs, s'), w') \<Longrightarrow> inv s'"
  by (induction xs arbitrary: s w rs) (auto elim!: hdcp_elims dest: step_inv)

end

locale versioned_store = inv_system step admissible inv
  for step :: "'op \<Rightarrow> 's \<Rightarrow> 'w \<Rightarrow> ((int \<times> 's) \<times> 'w) outcome option"
    and admissible :: "'op \<Rightarrow> bool" and inv :: "'s \<Rightarrow> bool" +
  fixes ver :: "'s \<Rightarrow> nat"
  assumes step_ver: "admissible x \<Longrightarrow> inv s \<Longrightarrow> step x s w = ret ((r, s'), w') \<Longrightarrow> ver s \<le> ver s'"
begin

lemma run_ver:
  "list_all admissible xs \<Longrightarrow> inv s \<Longrightarrow> run_ops step xs s w = ret ((rs, s'), w') \<Longrightarrow> ver s \<le> ver s'"
  by (induction xs arbitrary: s w rs)
    (auto elim!: hdcp_elims, metis step_inv step_ver order_trans)

end

section \<open>Collections of facts\<close>

text \<open>
  \<open>hdcp_bind\<close> takes a run apart into its steps; \<open>hdcp_frame\<close> collects what an operation
  leaves unchanged.
\<close>

named_theorems hdcp_bind
named_theorems hdcp_frame

declare ubind_eq_Ret [hdcp_bind] ubind_eq_Undef [hdcp_bind]
  obind_eq_Ret [hdcp_bind] obind_eq_Undef [hdcp_bind] obind_eq_None [hdcp_bind]
  rd_eq_Ret [hdcp_bind] rd_range_eq_Ret [hdcp_bind] wr_range_eq_Ret [hdcp_bind]

end
