(* ===== verification/Hdcp_Platform.thy ===== *)
theory Hdcp_Platform
  imports Hdcp_Prelude
begin

text \<open>
  The code that is not under \<^verbatim>\<open>src/\<close>: the operating system, libdrm, the IAS compositor and
  OpenSSL. Each is a record of functions over an arbitrary type \<open>'w\<close> of world states; the model
  takes these records as parameters and threads the world through every call, so a result may
  depend on everything that happened before. A call that fails with \<open>-1\<close> and sets \<^verbatim>\<open>errno\<close>
  returns \<open>Inl errno\<close>. Nothing is assumed of these functions here; a theorem that needs a
  documented fact about one of them says so in a named hypothesis.
\<close>

section \<open>The operating system\<close>

datatype open_flag = O_RDONLY | O_WRONLY | O_RDWR | O_CREAT | O_TRUNC

text \<open>The parts of \<^verbatim>\<open>struct pollfd\<close> the code uses; \<open>revents\<close> is what \<^verbatim>\<open>poll\<close> fills in.\<close>

record pollfd =
  pfd_fd :: int
  pfd_events :: u16
  pfd_revents :: u16

abbreviation (input) POLLIN :: u16 where "POLLIN \<equiv> 1"
abbreviation (input) POLLHUP :: u16 where "POLLHUP \<equiv> 16"

record 'w os_api =
  os_new :: "nat \<Rightarrow> 'w \<Rightarrow> bool \<times> 'w"
  os_mutex_init :: "'w \<Rightarrow> int \<times> 'w"
  os_cond_init :: "'w \<Rightarrow> int \<times> 'w"
  os_thread_create :: "string \<Rightarrow> 'w \<Rightarrow> int \<times> 'w"
  os_barrier_init :: "nat \<Rightarrow> 'w \<Rightarrow> int \<times> 'w"
  os_errno :: "'w \<Rightarrow> int"
  os_getenv :: "string \<Rightarrow> 'w \<Rightarrow> string option"
  os_sleep_ms :: "nat \<Rightarrow> 'w \<Rightarrow> 'w"
  os_open :: "string \<Rightarrow> open_flag list \<Rightarrow> 'w \<Rightarrow> (int + int) \<times> 'w"
  os_write :: "int \<Rightarrow> u8 list \<Rightarrow> 'w \<Rightarrow> (int + nat) \<times> 'w"
  os_fstat :: "int \<Rightarrow> 'w \<Rightarrow> (int + bool \<times> nat) \<times> 'w"
  os_mmap :: "int \<Rightarrow> nat \<Rightarrow> 'w \<Rightarrow> (int + u8 list) \<times> 'w"
  os_close :: "int \<Rightarrow> 'w \<Rightarrow> (int + unit) \<times> 'w"
  os_unlink :: "string \<Rightarrow> 'w \<Rightarrow> (int + unit) \<times> 'w"
  os_socket :: "'w \<Rightarrow> int \<times> 'w"
  os_setsockopt :: "int \<Rightarrow> 'w \<Rightarrow> (int + unit) \<times> 'w"
  os_fcntl_getfl :: "int \<Rightarrow> 'w \<Rightarrow> (int + u32) \<times> 'w"
  os_fcntl_setfl :: "int \<Rightarrow> u32 \<Rightarrow> 'w \<Rightarrow> (int + unit) \<times> 'w"
  os_bind :: "int \<Rightarrow> string \<Rightarrow> 'w \<Rightarrow> (int + unit) \<times> 'w"
  os_listen :: "int \<Rightarrow> nat \<Rightarrow> 'w \<Rightarrow> (int + unit) \<times> 'w"
  os_connect :: "int \<Rightarrow> string \<Rightarrow> 'w \<Rightarrow> (int + unit) \<times> 'w"
  os_accept :: "int \<Rightarrow> 'w \<Rightarrow> (int + int) \<times> 'w"
  os_poll :: "pollfd list \<Rightarrow> 'w \<Rightarrow> (int + nat \<times> u16 list) \<times> 'w"
  os_read :: "int \<Rightarrow> nat \<Rightarrow> 'w \<Rightarrow> (int + u8 list) \<times> 'w"
  os_send :: "int \<Rightarrow> u8 list \<Rightarrow> 'w \<Rightarrow> (int + nat) \<times> 'w"

section \<open>libdrm and the IAS compositor\<close>

abbreviation (input) DRM_MODE_CONNECTED :: u32 where "DRM_MODE_CONNECTED \<equiv> 1"
abbreviation (input) DRM_MODE_DISCONNECTED :: u32 where "DRM_MODE_DISCONNECTED \<equiv> 2"

text \<open>
  A null result is \<open>None\<close>. Of a connector the code reads the connection state only, of a
  property its name, of the properties of an object the pairs of property id and value.
\<close>

record 'w drm_api =
  drmOpen :: "string \<Rightarrow> 'w \<Rightarrow> int \<times> 'w"
  drmSetMaster :: "int \<Rightarrow> 'w \<Rightarrow> int \<times> 'w"
  drmDropMaster :: "int \<Rightarrow> 'w \<Rightarrow> int \<times> 'w"
  drmModeGetResources :: "int \<Rightarrow> 'w \<Rightarrow> u32 list option \<times> 'w"
  drmModeObjectGetProperties :: "int \<Rightarrow> u32 \<Rightarrow> 'w \<Rightarrow> (u32 \<times> u64) list option \<times> 'w"
  drmModeGetProperty :: "int \<Rightarrow> u32 \<Rightarrow> 'w \<Rightarrow> string option \<times> 'w"
  drmModeGetConnector :: "int \<Rightarrow> u32 \<Rightarrow> 'w \<Rightarrow> u32 option \<times> 'w"
  drmModeConnectorSetProperty :: "int \<Rightarrow> u32 \<Rightarrow> u32 \<Rightarrow> u64 \<Rightarrow> 'w \<Rightarrow> int \<times> 'w"
  drmModeCreatePropertyBlob :: "int \<Rightarrow> u8 list \<Rightarrow> 'w \<Rightarrow> (int \<times> u32) \<times> 'w"
  drmModeGetPropertyBlob :: "int \<Rightarrow> u32 \<Rightarrow> 'w \<Rightarrow> u8 list option option \<times> 'w"

text \<open>
  The IAS library: loading it, finding a symbol, constructing its class, and the members of that
  class the code calls. A \<open>bool\<close> says whether the result is non-null, or what the member returned.
\<close>

record 'w gwl_api =
  gwl_dlopen :: "'w \<Rightarrow> bool \<times> 'w"
  gwl_dlsym :: "string \<Rightarrow> 'w \<Rightarrow> bool \<times> 'w"
  gwl_dlclose :: "'w \<Rightarrow> 'w"
  gwl_construct :: "'w \<Rightarrow> bool \<times> 'w"
  gwl_init :: "'w \<Rightarrow> bool \<times> 'w"
  gwl_deinit :: "'w \<Rightarrow> 'w"
  gwl_destruct :: "bool \<Rightarrow> 'w \<Rightarrow> 'w"
  gwl_add_reg :: "'w \<Rightarrow> 'w"
  gwl_dispatch_pending :: "'w \<Rightarrow> 'w"
  gwl_set_content_protection :: "u32 \<Rightarrow> u8 \<Rightarrow> 'w \<Rightarrow> bool \<times> 'w"

section \<open>OpenSSL\<close>

text \<open>
  Allocations may fail, so they thread the world; a \<^verbatim>\<open>BIGNUM\<close> is a \<^typ>\<open>nat\<close> and a null one
  \<open>None\<close>. The digest and the verification are functions of their arguments.
\<close>

type_synonym bignum = "nat option"

record 'w ssl_api =
  ssl_DSA_new :: "'w \<Rightarrow> bool \<times> 'w"
  ssl_DSA_SIG_new :: "'w \<Rightarrow> bool \<times> 'w"
  ssl_BN_bin2bn :: "u8 list \<Rightarrow> 'w \<Rightarrow> bignum \<times> 'w"
  ssl_DSA_set0_pqg :: "bignum \<Rightarrow> bignum \<Rightarrow> bignum \<Rightarrow> int"
  ssl_DSA_set0_key :: "bignum \<Rightarrow> int"
  ssl_DSA_SIG_set0 :: "bignum \<Rightarrow> bignum \<Rightarrow> int"
  ssl_SHA1 :: "u8 list \<Rightarrow> u8 list"
  ssl_DSA_do_verify ::
    "u8 list \<Rightarrow> bignum \<times> bignum \<Rightarrow> bignum \<times> bignum \<times> bignum \<times> bignum \<Rightarrow> int"

section \<open>A world in which every call fails\<close>

text \<open>
  Concrete parameters for the witnesses: every call of these fails at once and leaves the world
  as it is. A witness replaces the calls its run makes.
\<close>

definition idle_os :: "'w os_api" where
  "idle_os = \<lparr>
     os_new = (\<lambda>n w. (True, w)), os_mutex_init = Pair 0, os_cond_init = Pair 0,
     os_thread_create = (\<lambda>s. Pair 0), os_barrier_init = (\<lambda>n. Pair 0),
     os_errno = (\<lambda>w. 0), os_getenv = (\<lambda>s w. None), os_sleep_ms = (\<lambda>n w. w),
     os_open = (\<lambda>p fl w. (Inl ENOENT, w)), os_write = (\<lambda>fd bs w. (Inl EIO, w)),
     os_fstat = (\<lambda>fd w. (Inl EIO, w)), os_mmap = (\<lambda>fd n w. (Inl EIO, w)),
     os_close = (\<lambda>fd w. (Inr (), w)), os_unlink = (\<lambda>p w. (Inl ENOENT, w)),
     os_socket = Pair (-1), os_setsockopt = (\<lambda>fd w. (Inl EIO, w)),
     os_fcntl_getfl = (\<lambda>fd w. (Inl EIO, w)), os_fcntl_setfl = (\<lambda>fd fl w. (Inl EIO, w)),
     os_bind = (\<lambda>fd p w. (Inl EIO, w)), os_listen = (\<lambda>fd n w. (Inl EIO, w)),
     os_connect = (\<lambda>fd p w. (Inl EIO, w)), os_accept = (\<lambda>fd w. (Inl EAGAIN, w)),
     os_poll = (\<lambda>fds w. (Inl EIO, w)), os_read = (\<lambda>fd n w. (Inl EIO, w)),
     os_send = (\<lambda>fd bs w. (Inl EIO, w))\<rparr>"

definition idle_drm :: "'w drm_api" where
  "idle_drm = \<lparr>
     drmOpen = (\<lambda>s. Pair (-1)), drmSetMaster = (\<lambda>fd. Pair (-1)), drmDropMaster = (\<lambda>fd. Pair (-1)),
     drmModeGetResources = (\<lambda>fd. Pair None), drmModeObjectGetProperties = (\<lambda>fd i. Pair None),
     drmModeGetProperty = (\<lambda>fd i. Pair None), drmModeGetConnector = (\<lambda>fd i. Pair None),
     drmModeConnectorSetProperty = (\<lambda>fd c p v. Pair (-1)),
     drmModeCreatePropertyBlob = (\<lambda>fd bs. Pair (-1, 0)),
     drmModeGetPropertyBlob = (\<lambda>fd i. Pair None)\<rparr>"

definition idle_gwl :: "'w gwl_api" where
  "idle_gwl = \<lparr>
     gwl_dlopen = Pair False, gwl_dlsym = (\<lambda>s. Pair False), gwl_dlclose = id,
     gwl_construct = Pair False, gwl_init = Pair False, gwl_deinit = id, gwl_destruct = (\<lambda>b. id),
     gwl_add_reg = id, gwl_dispatch_pending = id,
     gwl_set_content_protection = (\<lambda>c v. Pair False)\<rparr>"

definition idle_ssl :: "'w ssl_api" where
  "idle_ssl = \<lparr>
     ssl_DSA_new = Pair True, ssl_DSA_SIG_new = Pair True,
     ssl_BN_bin2bn = (\<lambda>bs. Pair (Some (length bs))),
     ssl_DSA_set0_pqg = (\<lambda>p q g. 1), ssl_DSA_set0_key = (\<lambda>y. 1), ssl_DSA_SIG_set0 = (\<lambda>r s. 1),
     ssl_SHA1 = (\<lambda>bs. []), ssl_DSA_do_verify = (\<lambda>d s k. 0)\<rparr>"

text \<open>The same OpenSSL with a verification that accepts.\<close>

definition accepting_ssl :: "'w ssl_api" where
  "accepting_ssl = idle_ssl\<lparr>ssl_DSA_do_verify := (\<lambda>d s k. 1)\<rparr>"

lemmas idle_simps = idle_os_def idle_drm_def idle_gwl_def idle_ssl_def accepting_ssl_def

end
