(* ===== verification/SocketData.thy ===== *)
theory SocketData
  imports Hdcp_Prelude
begin

text \<open>
  The data that the SDK and the daemon exchange: the enumerations and structures of
  \<^verbatim>\<open>src/sdk/hdcpapi.h\<close> and the message \<^verbatim>\<open>SocketData\<close> of \<^verbatim>\<open>src/common/socketdata.{h,cpp}\<close>. Both
  sides send and receive the bytes of the structure itself, so the model gives its memory layout
  (x86-64: little-endian, natural alignment, 100 bytes) and shows that the bytes determine the
  message and the message its bytes. A field of an enumeration type holds whatever 32 bits arrived,
  so such fields are \<^typ>\<open>u32\<close> and the enumerators are given by their codes.
\<close>

section \<open>Enumerations\<close>

datatype HDCP_API_TYPE =
    HDCP_API_INVALID | HDCP_API_CREATE | HDCP_API_DESTROY | HDCP_API_ENUMERATE_HDCP_DISPLAY
  | HDCP_API_SENDSRMDATA | HDCP_API_GETSRMVERSION | HDCP_API_ENABLE | HDCP_API_DISABLE
  | HDCP_API_GETSTATUS | HDCP_API_GETKSVLIST | HDCP_API_REPORTSTATUS | HDCP_API_TERM_MSG_LOOP
  | HDCP_API_CREATE_CALLBACK | HDCP_API_SET_PROTECTION_LEVEL | HDCP_API_CONFIG | HDCP_API_ILLEGAL

primrec api :: "HDCP_API_TYPE \<Rightarrow> u32" where
  "api HDCP_API_INVALID = 0" | "api HDCP_API_CREATE = 1" | "api HDCP_API_DESTROY = 2"
| "api HDCP_API_ENUMERATE_HDCP_DISPLAY = 3" | "api HDCP_API_SENDSRMDATA = 4"
| "api HDCP_API_GETSRMVERSION = 5" | "api HDCP_API_ENABLE = 6" | "api HDCP_API_DISABLE = 7"
| "api HDCP_API_GETSTATUS = 8" | "api HDCP_API_GETKSVLIST = 9" | "api HDCP_API_REPORTSTATUS = 10"
| "api HDCP_API_TERM_MSG_LOOP = 11" | "api HDCP_API_CREATE_CALLBACK = 12"
| "api HDCP_API_SET_PROTECTION_LEVEL = 13" | "api HDCP_API_CONFIG = 14" | "api HDCP_API_ILLEGAL = 15"

datatype HDCP_STATUS =
    HDCP_STATUS_SUCCESSFUL | HDCP_STATUS_ERROR_ALREADY_CREATED
  | HDCP_STATUS_ERROR_INVALID_PARAMETER | HDCP_STATUS_ERROR_NO_DISPLAY
  | HDCP_STATUS_ERROR_REVOKED_DEVICE | HDCP_STATUS_ERROR_SRM_INVALID
  | HDCP_STATUS_ERROR_INSUFFICIENT_MEMORY | HDCP_STATUS_ERROR_INTERNAL
  | HDCP_STATUS_ERROR_SRM_NOT_RECENT | HDCP_STATUS_ERROR_SRM_FILE_STORAGE
  | HDCP_STATUS_ERROR_MAX_DEVICES_EXCEEDED | HDCP_STATUS_ERROR_MAX_DEPTH_EXCEEDED
  | HDCP_STATUS_ERROR_MSG_TRANSACTION

primrec st :: "HDCP_STATUS \<Rightarrow> u32" where
  "st HDCP_STATUS_SUCCESSFUL = 0" | "st HDCP_STATUS_ERROR_ALREADY_CREATED = 1"
| "st HDCP_STATUS_ERROR_INVALID_PARAMETER = 2" | "st HDCP_STATUS_ERROR_NO_DISPLAY = 3"
| "st HDCP_STATUS_ERROR_REVOKED_DEVICE = 4" | "st HDCP_STATUS_ERROR_SRM_INVALID = 5"
| "st HDCP_STATUS_ERROR_INSUFFICIENT_MEMORY = 6" | "st HDCP_STATUS_ERROR_INTERNAL = 7"
| "st HDCP_STATUS_ERROR_SRM_NOT_RECENT = 8" | "st HDCP_STATUS_ERROR_SRM_FILE_STORAGE = 9"
| "st HDCP_STATUS_ERROR_MAX_DEVICES_EXCEEDED = 10" | "st HDCP_STATUS_ERROR_MAX_DEPTH_EXCEEDED = 11"
| "st HDCP_STATUS_ERROR_MSG_TRANSACTION = 12"

datatype PORT_EVENT =
  PORT_EVENT_NONE | PORT_EVENT_PLUG_IN | PORT_EVENT_PLUG_OUT | PORT_EVENT_LINK_LOST

primrec event_code :: "PORT_EVENT \<Rightarrow> u32" where
  "event_code PORT_EVENT_NONE = 0" | "event_code PORT_EVENT_PLUG_IN = 1"
| "event_code PORT_EVENT_PLUG_OUT = 2" | "event_code PORT_EVENT_LINK_LOST = 3"

abbreviation (input) PORT_STATUS_DISCONNECTED :: u32 where "PORT_STATUS_DISCONNECTED \<equiv> 0"
abbreviation (input) PORT_STATUS_CONNECTED :: u32 where "PORT_STATUS_CONNECTED \<equiv> 1"
abbreviation (input) PORT_STATUS_HDCP_TYPE0_ENABLED :: u32 where "PORT_STATUS_HDCP_TYPE0_ENABLED \<equiv> 2"
abbreviation (input) PORT_STATUS_HDCP_TYPE1_ENABLED :: u32 where "PORT_STATUS_HDCP_TYPE1_ENABLED \<equiv> 4"
abbreviation (input) HDCP_LEVEL0 :: u8 where "HDCP_LEVEL0 \<equiv> 0"
abbreviation (input) HDCP_LEVEL1 :: u8 where "HDCP_LEVEL1 \<equiv> 1"
abbreviation (input) HDCP_LEVEL2 :: u8 where "HDCP_LEVEL2 \<equiv> 2"
abbreviation (input) INVALID_CONFIG :: u32 where "INVALID_CONFIG \<equiv> 0"
abbreviation (input) SRM_STORAGE_CONFIG :: u32 where "SRM_STORAGE_CONFIG \<equiv> 1"
abbreviation (input) ONE_PORT :: u32 where "ONE_PORT \<equiv> 1"

lemma api_inj [simp]: "api a = api b \<longleftrightarrow> a = b"
  by (cases a; cases b) simp_all

lemma st_inj [simp]: "st a = st b \<longleftrightarrow> a = b"
  by (cases a; cases b) simp_all

section \<open>Structures\<close>

record Port =
  Port_Id :: u32
  Port_status :: u32
  Port_Event :: u32

record HDCP_CONFIG =
  cfg_type :: u32
  cfg_disableSrmStorage :: bool

text \<open>
  The message. \<open>sd_Ports\<close> has five elements and \<^verbatim>\<open>SinglePort\<close> is the first of them; the two
  \<^verbatim>\<open>bool\<close> fields are kept as the byte that arrived, and the padding bytes are part of the record
  because they are sent too.
\<close>

record SocketData =
  sd_Size :: u32
  sd_Command :: u32
  sd_Status :: u32
  sd_KsvCount :: u8
  sd_Depth :: u8
  sd_isType1Capable :: u8
  sd_pad1 :: "u8 list"
  sd_Ports :: "Port list"
  sd_PortCount :: u32
  sd_SrmOrKsvListDataSz :: u32
  sd_SrmVersion :: u16
  sd_pad2 :: "u8 list"
  sd_Config_type :: u32
  sd_Config_disableSrmStorage :: u8
  sd_pad3 :: "u8 list"
  sd_Level :: u8
  sd_pad4 :: "u8 list"

abbreviation (input) sizeof_SocketData :: nat where "sizeof_SocketData \<equiv> 100"

definition sd_wf :: "SocketData \<Rightarrow> bool" where
  "sd_wf d \<longleftrightarrow> length (sd_Ports d) = NUM_PHYSICAL_PORTS_MAX \<and> length (sd_pad1 d) = 1 \<and>
     length (sd_pad2 d) = 2 \<and> length (sd_pad3 d) = 3 \<and> length (sd_pad4 d) = 3"

definition SinglePort :: "SocketData \<Rightarrow> Port" where
  "SinglePort d = sd_Ports d ! 0"

definition set_SinglePort :: "(Port \<Rightarrow> Port) \<Rightarrow> SocketData \<Rightarrow> SocketData" where
  "set_SinglePort f d = d\<lparr>sd_Ports := (sd_Ports d)[0 := f (sd_Ports d ! 0)]\<rparr>"

text \<open>
  The constructor. It leaves \<^verbatim>\<open>KsvCount\<close>, \<^verbatim>\<open>Depth\<close>, \<^verbatim>\<open>isType1Capable\<close>, the events of the ports,
  \<^verbatim>\<open>SrmVersion\<close>, \<^verbatim>\<open>Config\<close>, \<^verbatim>\<open>Level\<close> and the padding as they are in memory; \<open>mem\<close> is what was
  there.
\<close>

definition SocketData_new :: "SocketData \<Rightarrow> SocketData" where
  "SocketData_new mem = mem\<lparr>
     sd_Size := of_nat sizeof_SocketData, sd_Command := api HDCP_API_ILLEGAL,
     sd_Status := st HDCP_STATUS_ERROR_INTERNAL, sd_PortCount := 0, sd_SrmOrKsvListDataSz := 0,
     sd_Ports := map (\<lambda>p. p\<lparr>Port_Id := 0, Port_status := 0\<rparr>) (sd_Ports mem)\<rparr>"

lemma SocketData_new_wf: "sd_wf mem \<Longrightarrow> sd_wf (SocketData_new mem)"
  by (simp add: sd_wf_def SocketData_new_def)

lemma sd_wf_updates [simp]:
  "sd_wf (d\<lparr>sd_Size := n\<rparr>) = sd_wf d" "sd_wf (d\<lparr>sd_Command := n\<rparr>) = sd_wf d"
  "sd_wf (d\<lparr>sd_Status := n\<rparr>) = sd_wf d" "sd_wf (d\<lparr>sd_KsvCount := c\<rparr>) = sd_wf d"
  "sd_wf (d\<lparr>sd_Depth := c\<rparr>) = sd_wf d" "sd_wf (d\<lparr>sd_PortCount := n\<rparr>) = sd_wf d"
  "sd_wf (d\<lparr>sd_SrmOrKsvListDataSz := n\<rparr>) = sd_wf d" "sd_wf (d\<lparr>sd_SrmVersion := v\<rparr>) = sd_wf d"
  "sd_wf (d\<lparr>sd_Level := c\<rparr>) = sd_wf d" "sd_wf (d\<lparr>sd_Config_type := n\<rparr>) = sd_wf d"
  "sd_wf (d\<lparr>sd_Config_disableSrmStorage := c\<rparr>) = sd_wf d" "sd_wf (set_SinglePort f d) = sd_wf d"
  by (simp_all add: sd_wf_def set_SinglePort_def)

section \<open>Bytes of a little-endian number\<close>

definition le16 :: "u16 \<Rightarrow> u8 list" where
  "le16 x = [ucast x, ucast (drop_bit 8 x)]"

definition le32 :: "u32 \<Rightarrow> u8 list" where
  "le32 x = [ucast x, ucast (drop_bit 8 x), ucast (drop_bit 16 x), ucast (drop_bit 24 x)]"

definition un16 :: "u8 list \<Rightarrow> u16" where
  "un16 bs = ucast (bs ! 0) OR push_bit 8 (ucast (bs ! 1))"

definition un32 :: "u8 list \<Rightarrow> u32" where
  "un32 bs = ucast (bs ! 0) OR push_bit 8 (ucast (bs ! 1)) OR push_bit 16 (ucast (bs ! 2)) OR
     push_bit 24 (ucast (bs ! 3))"

lemma le_length [simp]: "length (le16 x) = 2" "length (le32 y) = 4"
  by (simp_all add: le16_def le32_def)

lemma un16_le16 [simp]: "un16 (le16 x) = x"
  by (rule bit_word_eqI) (auto simp: un16_def le16_def bit_simps)

lemma un32_le32 [simp]: "un32 (le32 x) = x"
proof (rule bit_word_eqI)
  fix n assume "n < LENGTH(32)"
  then consider "n < 8" | "8 \<le> n" "n < 16" | "16 \<le> n" "n < 24" | "24 \<le> n" "n < 32" by fastforce
  then show "bit (un32 (le32 x)) n = bit x n"
    by cases (auto simp: un32_def le32_def bit_simps)
qed

lemma length2: "length bs = 2 \<Longrightarrow> bs = [bs ! 0, bs ! 1]"
  by (rule nth_equalityI) (auto simp: less_Suc_eq eval_nat_numeral)

lemma length4: "length bs = 4 \<Longrightarrow> bs = [bs ! 0, bs ! 1, bs ! 2, bs ! 3]"
  by (rule nth_equalityI) (auto simp: less_Suc_eq eval_nat_numeral)

lemma u8_high_bits: "\<not> bit (b :: u8) (8 + n)" "\<not> bit b (16 + n)" "\<not> bit b (24 + n)"
  by (auto dest: u8_bit_less)

lemma le16_un16: "length bs = 2 \<Longrightarrow> le16 (un16 bs) = bs"
proof -
  assume "length bs = 2"
  then obtain a b where "bs = [a, b]" using length2 by blast
  then show ?thesis
    by (auto simp: le16_def un16_def bit_simps intro!: bit_word_eqI dest: u8_bit_less)
qed

lemma le32_un32: "length bs = 4 \<Longrightarrow> le32 (un32 bs) = bs"
proof -
  assume "length bs = 4"
  then obtain a b c d where "bs = [a, b, c, d]" using length4 by blast
  then show ?thesis
    by (auto simp: le32_def un32_def bit_simps u8_high_bits intro!: bit_word_eqI dest: u8_bit_less)
qed

section \<open>The layout of the message\<close>

definition encode_port :: "Port \<Rightarrow> u8 list" where
  "encode_port p = le32 (Port_Id p) @ le32 (Port_status p) @ le32 (Port_Event p)"

definition encode :: "SocketData \<Rightarrow> u8 list" where
  "encode d =
     le32 (sd_Size d) @ le32 (sd_Command d) @ le32 (sd_Status d) @
     [sd_KsvCount d, sd_Depth d, sd_isType1Capable d] @ sd_pad1 d @
     concat (map encode_port (sd_Ports d)) @
     le32 (sd_PortCount d) @ le32 (sd_SrmOrKsvListDataSz d) @ le16 (sd_SrmVersion d) @ sd_pad2 d @
     le32 (sd_Config_type d) @ [sd_Config_disableSrmStorage d] @ sd_pad3 d @ [sd_Level d] @ sd_pad4 d"

definition chunk :: "nat \<Rightarrow> nat \<Rightarrow> u8 list \<Rightarrow> u8 list" where
  "chunk off n bs = take n (drop off bs)"

definition decode_port :: "u8 list \<Rightarrow> Port" where
  "decode_port bs = \<lparr>Port_Id = un32 (chunk 0 4 bs), Port_status = un32 (chunk 4 4 bs),
     Port_Event = un32 (chunk 8 4 bs)\<rparr>"

definition decode :: "u8 list \<Rightarrow> SocketData" where
  "decode bs = \<lparr>
     sd_Size = un32 (chunk 0 4 bs), sd_Command = un32 (chunk 4 4 bs),
     sd_Status = un32 (chunk 8 4 bs), sd_KsvCount = bs ! 12, sd_Depth = bs ! 13,
     sd_isType1Capable = bs ! 14, sd_pad1 = chunk 15 1 bs,
     sd_Ports = map decode_port [chunk 16 12 bs, chunk 28 12 bs, chunk 40 12 bs, chunk 52 12 bs,
       chunk 64 12 bs],
     sd_PortCount = un32 (chunk 76 4 bs), sd_SrmOrKsvListDataSz = un32 (chunk 80 4 bs),
     sd_SrmVersion = un16 (chunk 84 2 bs), sd_pad2 = chunk 86 2 bs,
     sd_Config_type = un32 (chunk 88 4 bs), sd_Config_disableSrmStorage = bs ! 92,
     sd_pad3 = chunk 93 3 bs, sd_Level = bs ! 96, sd_pad4 = chunk 97 3 bs\<rparr>"

lemma encode_port_length [simp]: "length (encode_port p) = 12"
  by (simp add: encode_port_def)

lemma chunk_length [simp]: "off + n \<le> length bs \<Longrightarrow> length (chunk off n bs) = n"
  by (simp add: chunk_def)

lemma decode_encode_port [simp]: "decode_port (encode_port p) = p"
  by (simp add: decode_port_def encode_port_def chunk_def)

lemma chunk_append: "b = a + n \<Longrightarrow> chunk a n bs @ chunk b m bs = chunk a (n + m) bs"
  by (simp add: chunk_def take_add add.commute [of n a])

lemma chunk_append_more:
  "b = a + n \<Longrightarrow> chunk a n bs @ chunk b m bs @ xs = chunk a (n + m) bs @ xs"
  by (simp add: chunk_append flip: append_assoc)

lemma chunk_byte: "a < length bs \<Longrightarrow> chunk a (Suc 0) bs = [bs ! a]"
  by (simp add: chunk_def take_Suc_conv_app_nth)

lemma chunk_all: "n = length bs \<Longrightarrow> chunk 0 n bs = bs"
  by (simp add: chunk_def)

lemma encode_decode_port: "length bs = 12 \<Longrightarrow> encode_port (decode_port bs) = bs"
  by (simp add: decode_port_def encode_port_def le32_un32 chunk_append chunk_all)

lemma sd_wf_obtains:
  assumes "sd_wf d"
  obtains p1 p2 p3 p4 p5 x y1 y2 z1 z2 z3 u1 u2 u3 where
    "sd_Ports d = [p1, p2, p3, p4, p5]" "sd_pad1 d = [x]" "sd_pad2 d = [y1, y2]"
    "sd_pad3 d = [z1, z2, z3]" "sd_pad4 d = [u1, u2, u3]"
  using assms unfolding sd_wf_def by (auto simp: eval_nat_numeral length_Suc_conv)

lemma encode_length [simp]: "sd_wf d \<Longrightarrow> length (encode d) = sizeof_SocketData"
  by (erule sd_wf_obtains) (simp add: encode_def)

lemma decode_wf: "length bs = sizeof_SocketData \<Longrightarrow> sd_wf (decode bs)"
  by (simp add: sd_wf_def decode_def)

text \<open>A message is recovered from its bytes, and the bytes from the message.\<close>

lemma decode_encode: "sd_wf d \<Longrightarrow> decode (encode d) = d"
  by (erule sd_wf_obtains) (simp add: encode_def decode_def chunk_def nth_append)

lemma encode_decode: "length bs = sizeof_SocketData \<Longrightarrow> encode (decode bs) = bs"
proof -
  assume len: "length bs = 100"
  have "encode (decode bs) = chunk 0 4 bs @ chunk 4 4 bs @ chunk 8 4 bs @ chunk 12 (Suc 0) bs @
      chunk 13 (Suc 0) bs @ chunk 14 (Suc 0) bs @ chunk 15 1 bs @ chunk 16 12 bs @ chunk 28 12 bs @
      chunk 40 12 bs @ chunk 52 12 bs @ chunk 64 12 bs @ chunk 76 4 bs @ chunk 80 4 bs @
      chunk 84 2 bs @ chunk 86 2 bs @ chunk 88 4 bs @ chunk 92 (Suc 0) bs @ chunk 93 3 bs @
      chunk 96 (Suc 0) bs @ chunk 97 3 bs"
    using len
    by (simp add: encode_def decode_def le32_un32 le16_un16 encode_decode_port
        chunk_byte)
  also have "\<dots> = chunk 0 100 bs"
    by (simp add: chunk_append_more chunk_append)
  finally show ?thesis using len by (simp add: chunk_all)
qed

end
