(* ===== verification/GenSock.thy ===== *)
theory GenSock
  imports Hdcp_Platform SocketData
begin

text \<open>
  The stream socket both sides build on: the class \<^verbatim>\<open>GenericStreamSocket\<close> of
  \<^verbatim>\<open>src/common/gensock.{h,cpp}\<close>. Its loops retry a call that was interrupted for as long as it is
  interrupted, so they are partial functions. The laws \<open>reads_in_order\<close> and \<open>sends_in_order\<close> state
  what POSIX promises of \<^verbatim>\<open>read\<close> and \<^verbatim>\<open>send\<close> on a stream socket; from them the section on
  transfers shows that both routines move exactly the bytes asked for, in order, and never leave the
  caller's buffer.
\<close>

section \<open>The class\<close>

text \<open>Of the members only \<^verbatim>\<open>m_Fd\<close> varies; domain, type and protocol are constants.\<close>

record GenericStreamSocket =
  m_Fd :: int

definition GenericStreamSocket_new :: "'w os_api \<Rightarrow> 'w \<Rightarrow> GenericStreamSocket \<times> 'w" where
  "GenericStreamSocket_new os w =
     (let (fd, w) = os_socket os w in (\<lparr>m_Fd = (if 0 > fd then -1 else fd)\<rparr>, w))"

definition GenericStreamSocket_delete :: "'w os_api \<Rightarrow> GenericStreamSocket \<Rightarrow> 'w \<Rightarrow> 'w" where
  "GenericStreamSocket_delete os s w = (if 0 \<le> m_Fd s then snd (os_close os (m_Fd s) w) else w)"

definition IsValidDesc :: "GenericStreamSocket \<Rightarrow> bool" where
  "IsValidDesc s = (m_Fd s \<ge> 0)"

text \<open>
  \<^verbatim>\<open>InitSockAddr\<close> gives a status and the array \<^verbatim>\<open>sun_path\<close> of 108 characters; \<open>c_string\<close> is how
  the system reads that array.
\<close>

abbreviation (input) pathLimit :: nat where "pathLimit \<equiv> 108"

definition InitSockAddr :: "string \<Rightarrow> int \<times> string" where
  "InitSockAddr path =
     (if length path > pathLimit - 1 then (ENAMETOOLONG, replicate pathLimit (CHR 0x00)) else
      let sun_path = take pathLimit path @ replicate (pathLimit - length path) (CHR 0x00) in
      if sun_path ! (pathLimit - 1) \<noteq> CHR 0x00
      then (EINVAL, sun_path[pathLimit - 1 := CHR 0x00])
      else (SUCCESS, sun_path))"

definition c_string :: "string \<Rightarrow> string" where
  "c_string s = takeWhile (\<lambda>c. c \<noteq> CHR 0x00) s"

abbreviation (input) O_NONBLOCK :: u32 where "O_NONBLOCK \<equiv> 0x800"

definition errno_of :: "int + 'a \<Rightarrow> int" where
  "errno_of r = (case r of Inl e \<Rightarrow> e | Inr _ \<Rightarrow> SUCCESS)"

definition Bind :: "'w os_api \<Rightarrow> GenericStreamSocket \<Rightarrow> string \<Rightarrow> 'w \<Rightarrow> int \<times> 'w" where
  "Bind os s path w =
     (let (sts, sun_path) = InitSockAddr path in
      if sts \<noteq> SUCCESS then (EINVAL, w) else
      let (r, w) = os_unlink os (c_string sun_path) w in
      if errno_of r \<noteq> SUCCESS \<and> errno_of r \<noteq> ENOENT then (errno_of r, w) else
      let (r, w) = os_setsockopt os (m_Fd s) w in
      if errno_of r \<noteq> SUCCESS then (errno_of r, w) else
      let (r, w) = os_fcntl_getfl os (m_Fd s) w in
      case r of Inl e \<Rightarrow> (e, w) | Inr fdFlags \<Rightarrow>
      let (r, w) = os_fcntl_setfl os (m_Fd s) (fdFlags OR O_NONBLOCK) w in
      if errno_of r \<noteq> SUCCESS then (errno_of r, w) else
      let (r, w) = os_bind os (m_Fd s) (c_string sun_path) w in
      if errno_of r \<noteq> SUCCESS then (errno_of r, w) else (SUCCESS, w))"

text \<open>
  The loops of \<^verbatim>\<open>ReadData\<close> and \<^verbatim>\<open>WriteData\<close>; \<open>rem\<close> is \<^verbatim>\<open>bytesRemaining\<close>. The third argument is
  the memory behind \<^verbatim>\<open>data\<close>.
\<close>

partial_function (option) read_loop ::
  "'w os_api \<Rightarrow> int \<Rightarrow> u8 list \<Rightarrow> int \<Rightarrow> u32 \<Rightarrow> 'w \<Rightarrow> ((int \<times> u8 list) \<times> 'w) outcome option" where
  "read_loop os fd data rem offset w =
     (if rem > 0 then
        let (r, w) = os_read os fd (nat rem) w in
        case r of
          Inl e \<Rightarrow> if e = EINTR \<or> e = EAGAIN then read_loop os fd data rem offset w
                   else ret ((e, data), w)
        | Inr bs \<Rightarrow>
            if bs = [] then ret ((ENOTCONN, data), w) else
            obind (Some (wr_range data (unat offset) bs)) (\<lambda>data.
            read_loop os fd data (rem - int (length bs)) (offset + of_nat (length bs)) w)
      else ret ((SUCCESS, data), w))"

definition ReadData ::
  "'w os_api \<Rightarrow> int \<Rightarrow> u8 list option \<Rightarrow> int \<Rightarrow> 'w \<Rightarrow>
     ((int \<times> u8 list option) \<times> 'w) outcome option" where
  "ReadData os fd data dataSz w =
     (case data of None \<Rightarrow> ret ((EINVAL, None), w) | Some data \<Rightarrow>
      if fd = -1 then ret ((EINVAL, Some data), w) else
      obind (read_loop os fd data dataSz 0 w) (\<lambda>((sts, data), w). ret ((sts, Some data), w)))"

partial_function (option) write_loop ::
  "'w os_api \<Rightarrow> int \<Rightarrow> u8 list \<Rightarrow> int \<Rightarrow> u32 \<Rightarrow> 'w \<Rightarrow> (int \<times> 'w) outcome option" where
  "write_loop os fd data rem offset w =
     (if rem > 0 then
        obind (Some (rd_range data (unat offset) (nat rem))) (\<lambda>bs.
        let (r, w) = os_send os fd bs w in
        case r of
          Inl e \<Rightarrow> if e = EINTR \<or> e = EAGAIN then write_loop os fd data rem offset w
                   else ret (e, w)
        | Inr n \<Rightarrow> write_loop os fd data (rem - int n) (offset + of_nat n) w)
      else ret (SUCCESS, w))"

definition WriteData ::
  "'w os_api \<Rightarrow> int \<Rightarrow> u8 list option \<Rightarrow> int \<Rightarrow> 'w \<Rightarrow> (int \<times> 'w) outcome option" where
  "WriteData os fd data dataSz w =
     (case data of None \<Rightarrow> ret (EINVAL, w) | Some data \<Rightarrow>
      if fd = -1 then ret (EINVAL, w) else write_loop os fd data dataSz 0 w)"

declare read_loop.simps [code] write_loop.simps [code]

section \<open>What POSIX promises of a stream\<close>

text \<open>
  \<open>inc w fd\<close> are the bytes still to be read from \<open>fd\<close>, \<open>out w fd\<close> those sent to it so far: a read
  takes at most as many as asked for from the front, a send appends a prefix of what it was given,
  a failing call changes neither and has an error number.
\<close>

definition reads_in_order :: "'w os_api \<Rightarrow> ('w \<Rightarrow> int \<Rightarrow> u8 list) \<Rightarrow> bool" where
  "reads_in_order os inc \<longleftrightarrow> (\<forall>fd n w. case os_read os fd n w of
       (Inl e, w') \<Rightarrow> e > 0 \<and> inc w' fd = inc w fd
     | (Inr bs, w') \<Rightarrow> length bs \<le> n \<and> inc w fd = bs @ inc w' fd)"

definition sends_in_order :: "'w os_api \<Rightarrow> ('w \<Rightarrow> int \<Rightarrow> u8 list) \<Rightarrow> bool" where
  "sends_in_order os out \<longleftrightarrow> (\<forall>fd bs w. case os_send os fd bs w of
       (Inl e, w') \<Rightarrow> e > 0 \<and> out w' fd = out w fd
     | (Inr n, w') \<Rightarrow> n \<le> length bs \<and> out w' fd = out w fd @ take n bs)"

lemma reads_in_orderD:
  assumes "reads_in_order os inc"
  shows "os_read os fd n w = (Inl e, w') \<Longrightarrow> e > 0 \<and> inc w' fd = inc w fd"
    and "os_read os fd n w = (Inr bs, w') \<Longrightarrow> length bs \<le> n \<and> inc w fd = bs @ inc w' fd"
  using assms [unfolded reads_in_order_def, THEN spec, of fd, THEN spec, of n, THEN spec, of w] by simp_all

lemma sends_in_orderD:
  assumes "sends_in_order os out"
  shows "os_send os fd bs w = (Inl e, w') \<Longrightarrow> e > 0 \<and> out w' fd = out w fd"
    and "os_send os fd bs w = (Inr n, w') \<Longrightarrow> n \<le> length bs \<and> out w' fd = out w fd @ take n bs"
  using assms [unfolded sends_in_order_def, THEN spec, of fd, THEN spec, of bs, THEN spec, of w] by simp_all

section \<open>Transfers\<close>

text \<open>Every run of the read loop that ends moved a prefix of the stream into the buffer.\<close>

lemma read_loop_raw:
  fixes os :: "'w os_api" and inc :: "'w \<Rightarrow> int \<Rightarrow> u8 list"
  assumes "read_loop os fd data rem offset w = Some r" "reads_in_order os inc"
    and "unat offset + nat rem \<le> length data" "length data < 2 ^ 32"
  shows "\<exists>sts got w'. r = Ret ((sts, take (unat offset) data @ got @
      drop (unat offset + length got) data), w') \<and> inc w fd = got @ inc w' fd \<and>
      length got \<le> nat rem \<and> (sts = SUCCESS \<longleftrightarrow> length got = nat rem)"
proof (rule read_loop.raw_induct [where P = "\<lambda>os fd data rem offset w r.
      reads_in_order os inc \<longrightarrow> unat offset + nat rem \<le> length data \<longrightarrow> length data < 2 ^ 32 \<longrightarrow>
      (\<exists>sts got w'. r = Ret ((sts, take (unat offset) data @ got @
        drop (unat offset + length got) data), w') \<and> inc w fd = got @ inc w' fd \<and>
        length got \<le> nat rem \<and> (sts = SUCCESS \<longleftrightarrow> length got = nat rem))",
      rule_format, OF _ assms(1) assms(2,3,4)])
  fix f :: "'w os_api \<Rightarrow> int \<Rightarrow> u8 list \<Rightarrow> int \<Rightarrow> u32 \<Rightarrow> 'w \<Rightarrow> ((int \<times> u8 list) \<times> 'w) outcome option"
    and os :: "'w os_api" and fd rem :: int and data :: "u8 list" and offset :: u32 and w :: 'w and r
  let ?Q = "\<lambda>data rem offset w r. \<exists>sts got w'. r = Ret ((sts, take (unat offset) data @ got @
        drop (unat offset + length got) data), w') \<and> inc w fd = got @ inc w' fd \<and>
        length got \<le> nat rem \<and> (sts = SUCCESS \<longleftrightarrow> length got = nat rem)"
  assume IH: "\<And>os fd data rem offset w r. f os fd data rem offset w = Some r \<Longrightarrow>
      reads_in_order os inc \<Longrightarrow> unat offset + nat rem \<le> length data \<Longrightarrow> length data < 2 ^ 32 \<Longrightarrow>
      (\<exists>sts got w'. r = Ret ((sts, take (unat offset) data @ got @
        drop (unat offset + length got) data), w') \<and> inc w fd = got @ inc w' fd \<and>
        length got \<le> nat rem \<and> (sts = SUCCESS \<longleftrightarrow> length got = nat rem))"
    and run: "(if rem > 0 then
        let (r, w) = os_read os fd (nat rem) w in
        case r of
          Inl e \<Rightarrow> if e = EINTR \<or> e = EAGAIN then f os fd data rem offset w
                   else ret ((e, data), w)
        | Inr bs \<Rightarrow>
            if bs = [] then ret ((ENOTCONN, data), w) else
            obind (Some (wr_range data (unat offset) bs)) (\<lambda>data.
            f os fd data (rem - int (length bs)) (offset + of_nat (length bs)) w)
      else ret ((SUCCESS, data), w)) = Some r"
    and law: "reads_in_order os inc" and fits: "unat offset + nat rem \<le> length data"
    and small: "length data < 2 ^ 32"
  show "?Q data rem offset w r"
  proof (cases "rem > 0")
    case False
    with run show ?thesis by (auto intro!: exI [of _ "[]"])
  next
    case pos: True
    obtain q w1 where q: "os_read os fd (nat rem) w = (q, w1)" by fastforce
    show ?thesis
    proof (cases q)
      case (Inl e)
      note law' = reads_in_orderD(1) [OF law q [unfolded Inl]]
      show ?thesis
      proof (cases "e = EINTR \<or> e = EAGAIN")
        case True
        with run pos q Inl have "f os fd data rem offset w1 = Some r" by simp
        from IH [OF this law fits small] law' show ?thesis by metis
      next
        case False
        with run pos q Inl law' show ?thesis by (auto intro!: exI [of _ "[]"])
      qed
    next
      case (Inr bs)
      note law' = reads_in_orderD(2) [OF law q [unfolded Inr]]
      show ?thesis
      proof (cases "bs = []")
        case True
        with run pos q Inr law' show ?thesis by (auto intro!: exI [of _ "[]"])
      next
        case False
        have le: "length bs \<le> nat rem" using law' by simp
        then have in_range: "unat offset + length bs \<le> length data" using fits by simp
        let ?d = "take (unat offset) data @ bs @ drop (unat offset + length bs) data"
        have off: "unat (offset + of_nat (length bs)) = unat offset + length bs"
          using in_range small by (simp add: unat_word_ariths unsigned_of_nat take_bit_eq_mod)
        from run pos q Inr False in_range
        have run1: "f os fd ?d (rem - int (length bs)) (offset + of_nat (length bs)) w1 = Some r" by simp
        have fits1: "unat (offset + of_nat (length bs)) + nat (rem - int (length bs)) \<le> length ?d"
          using off fits le in_range by simp
        have "length ?d < 2 ^ 32" using small in_range by simp
        from IH [OF run1 law fits1 this, unfolded off] obtain sts got w' where
          r: "r = Ret ((sts, take (unat offset + length bs) ?d @ got @
              drop (unat offset + length bs + length got) ?d), w')"
          and i: "inc w1 fd = got @ inc w' fd" "length got \<le> nat (rem - int (length bs))"
            "sts = SUCCESS \<longleftrightarrow> length got = nat (rem - int (length bs))" by blast
        have "take (unat offset + length bs) ?d = take (unat offset) data @ bs"
          using in_range by simp
        moreover have "drop (unat offset + length bs + length got) ?d =
            drop (unat offset + length (bs @ got)) data" using in_range by (simp add: ac_simps)
        ultimately have "r = Ret ((sts, take (unat offset) data @ (bs @ got) @
            drop (unat offset + length (bs @ got)) data), w')" using r by simp
        moreover have "inc w fd = (bs @ got) @ inc w' fd" using law' i(1) by simp
        moreover have "length (bs @ got) \<le> nat rem" using i(2) le by simp
        moreover have "sts = SUCCESS \<longleftrightarrow> length (bs @ got) = nat rem" using i(2,3) le by auto
        ultimately show ?thesis by blast
      qed
    qed
  qed
qed


lemma write_loop_raw:
  fixes os :: "'w os_api" and out :: "'w \<Rightarrow> int \<Rightarrow> u8 list"
  assumes "write_loop os fd data rem offset w = Some r" "sends_in_order os out"
    and "unat offset + nat rem \<le> length data" "length data < 2 ^ 32"
  shows "\<exists>sts k w'. r = Ret (sts, w') \<and> k \<le> nat rem \<and>
      out w' fd = out w fd @ take k (drop (unat offset) data) \<and> (sts = SUCCESS \<longleftrightarrow> k = nat rem)"
proof (rule write_loop.raw_induct [where P = "\<lambda>os fd data rem offset w r.
      sends_in_order os out \<longrightarrow> unat offset + nat rem \<le> length data \<longrightarrow> length data < 2 ^ 32 \<longrightarrow>
      (\<exists>sts k w'. r = Ret (sts, w') \<and> k \<le> nat rem \<and>
        out w' fd = out w fd @ take k (drop (unat offset) data) \<and> (sts = SUCCESS \<longleftrightarrow> k = nat rem))",
      rule_format, OF _ assms(1) assms(2,3,4)])
  fix f :: "'w os_api \<Rightarrow> int \<Rightarrow> u8 list \<Rightarrow> int \<Rightarrow> u32 \<Rightarrow> 'w \<Rightarrow> (int \<times> 'w) outcome option"
    and os :: "'w os_api" and fd rem :: int and data :: "u8 list" and offset :: u32 and w :: 'w and r
  assume IH: "\<And>os fd data rem offset w r. f os fd data rem offset w = Some r \<Longrightarrow>
      sends_in_order os out \<Longrightarrow> unat offset + nat rem \<le> length data \<Longrightarrow> length data < 2 ^ 32 \<Longrightarrow>
      (\<exists>sts k w'. r = Ret (sts, w') \<and> k \<le> nat rem \<and>
        out w' fd = out w fd @ take k (drop (unat offset) data) \<and> (sts = SUCCESS \<longleftrightarrow> k = nat rem))"
    and run: "(if rem > 0 then
        obind (Some (rd_range data (unat offset) (nat rem))) (\<lambda>bs.
        let (r, w) = os_send os fd bs w in
        case r of
          Inl e \<Rightarrow> if e = EINTR \<or> e = EAGAIN then f os fd data rem offset w
                   else ret (e, w)
        | Inr n \<Rightarrow> f os fd data (rem - int n) (offset + of_nat n) w)
      else ret (SUCCESS, w)) = Some r"
    and law: "sends_in_order os out" and fits: "unat offset + nat rem \<le> length data"
    and small: "length data < 2 ^ 32"
  show "\<exists>sts k w'. r = Ret (sts, w') \<and> k \<le> nat rem \<and>
        out w' fd = out w fd @ take k (drop (unat offset) data) \<and> (sts = SUCCESS \<longleftrightarrow> k = nat rem)"
  proof (cases "rem > 0")
    case False
    with run show ?thesis by (auto intro!: exI [of _ "0::nat"])
  next
    case pos: True
    let ?bs = "take (nat rem) (drop (unat offset) data)"
    obtain q w1 where q: "os_send os fd ?bs w = (q, w1)" by fastforce
    show ?thesis
    proof (cases q)
      case (Inl e)
      note law' = sends_in_orderD(1) [OF law q [unfolded Inl]]
      show ?thesis
      proof (cases "e = EINTR \<or> e = EAGAIN")
        case True
        with run pos q Inl fits have "f os fd data rem offset w1 = Some r" by simp
        from IH [OF this law fits small] law' show ?thesis by metis
      next
        case False
        with run pos q Inl law' fits show ?thesis by (auto intro!: exI [of _ "0::nat"])
      qed
    next
      case (Inr n)
      note law' = sends_in_orderD(2) [OF law q [unfolded Inr]]
      have le: "n \<le> nat rem" using law' by simp
      have off: "unat (offset + of_nat n) = unat offset + n"
        using le fits small by (simp add: unat_word_ariths unsigned_of_nat take_bit_eq_mod)
      from run pos q Inr fits
      have run1: "f os fd data (rem - int n) (offset + of_nat n) w1 = Some r" by simp
      have "unat (offset + of_nat n) + nat (rem - int n) \<le> length data" using off fits le by simp
      from IH [OF run1 law this small, unfolded off] obtain sts k w' where
        i: "r = Ret (sts, w')" "k \<le> nat (rem - int n)"
          "out w' fd = out w1 fd @ take k (drop (unat offset + n) data)"
          "sts = SUCCESS \<longleftrightarrow> k = nat (rem - int n)" by blast
      have "out w' fd = out w fd @ take (n + k) (drop (unat offset) data)"
        using law' i(3) le by (simp add: take_add add.commute [of n "unat offset"] min_def)
      moreover have "n + k \<le> nat rem" "sts = SUCCESS \<longleftrightarrow> n + k = nat rem" using i(2,4) le by auto
      ultimately show ?thesis using i(1) by blast
    qed
  qed
qed

text \<open>
  \<open>finitely_stalled\<close>: the system does not interrupt a transfer forever: each interruption lowers
  the bound \<open>stall\<close>, and a send that is not interrupted makes progress.
\<close>

definition finitely_stalled :: "'w os_api \<Rightarrow> ('w \<Rightarrow> nat) \<Rightarrow> bool" where
  "finitely_stalled os stall \<longleftrightarrow>
     (\<forall>fd n w. case os_read os fd n w of
         (Inl e, w') \<Rightarrow> e \<in> {EINTR, EAGAIN} \<longrightarrow> stall w' < stall w
       | (Inr bs, w') \<Rightarrow> stall w' \<le> stall w) \<and>
     (\<forall>fd bs w. case os_send os fd bs w of
         (Inl e, w') \<Rightarrow> e \<in> {EINTR, EAGAIN} \<longrightarrow> stall w' < stall w
       | (Inr n, w') \<Rightarrow> (bs = [] \<or> 0 < n) \<and> stall w' \<le> stall w)"

lemma finitely_stalledD:
  assumes "finitely_stalled os stall"
  shows "os_read os fd n w = (Inl e, w') \<Longrightarrow> e = EINTR \<or> e = EAGAIN \<Longrightarrow> stall w' < stall w"
    and "os_read os fd n w = (Inr bs, w') \<Longrightarrow> stall w' \<le> stall w"
    and "os_send os fd bs w = (Inl e, w') \<Longrightarrow> e = EINTR \<or> e = EAGAIN \<Longrightarrow> stall w' < stall w"
    and "os_send os fd bs w = (Inr k, w') \<Longrightarrow> (bs = [] \<or> 0 < k) \<and> stall w' \<le> stall w"
proof -
  note l = assms [unfolded finitely_stalled_def]
  show "os_read os fd n w = (Inl e, w') \<Longrightarrow> e = EINTR \<or> e = EAGAIN \<Longrightarrow> stall w' < stall w"
    "os_read os fd n w = (Inr bs, w') \<Longrightarrow> stall w' \<le> stall w"
    using conjunct1 [OF l, THEN spec, of fd, THEN spec, of n, THEN spec, of w] by auto
  show "os_send os fd bs w = (Inl e, w') \<Longrightarrow> e = EINTR \<or> e = EAGAIN \<Longrightarrow> stall w' < stall w"
    "os_send os fd bs w = (Inr k, w') \<Longrightarrow> (bs = [] \<or> 0 < k) \<and> stall w' \<le> stall w"
    using conjunct2 [OF l, THEN spec, of fd, THEN spec, of bs, THEN spec, of w] by auto
qed

lemma read_loop_returns:
  assumes "finitely_stalled os stall"
  shows "read_loop os fd data rem offset w \<noteq> None"
proof (induction "nat rem + stall w" arbitrary: data rem offset w rule: less_induct)
  case less
  obtain q w1 where q: "os_read os fd (nat rem) w = (q, w1)" by fastforce
  show ?case
  proof (cases "rem > 0")
    case False
    then show ?thesis by (subst read_loop.simps) simp
  next
    case pos: True
    show ?thesis
    proof (cases q)
      case (Inl e)
      note s = finitely_stalledD(1) [OF assms q [unfolded Inl]]
      then have "e = EINTR \<or> e = EAGAIN \<Longrightarrow> read_loop os fd data rem offset w1 \<noteq> None"
        using less(1) by simp
      with q Inl show ?thesis by (subst read_loop.simps) auto
    next
      case (Inr bs)
      note s = finitely_stalledD(2) [OF assms q [unfolded Inr]]
      have "bs \<noteq> [] \<Longrightarrow> nat (rem - int (length bs)) < nat rem" using pos by (cases bs) auto
      then have "bs \<noteq> [] \<Longrightarrow>
          read_loop os fd d (rem - int (length bs)) (offset + of_nat (length bs)) w1 \<noteq> None" for d
        using less(1) s by (simp add: add_less_le_mono)
      with q Inr show ?thesis
        by (subst read_loop.simps, cases "wr_range data (unat offset) bs") auto
    qed
  qed
qed

lemma write_loop_returns:
  assumes "finitely_stalled os stall"
  shows "write_loop os fd data rem offset w \<noteq> None"
proof (induction "nat rem + stall w" arbitrary: rem offset w rule: less_induct)
  case less
  show ?case
  proof (cases "rem > 0 \<and> unat offset + nat rem \<le> length data")
    case False
    then show ?thesis by (subst write_loop.simps) (auto simp: not_le)
  next
    case pos: True
    let ?bs = "take (nat rem) (drop (unat offset) data)"
    obtain q w1 where q: "os_send os fd ?bs w = (q, w1)" by fastforce
    show ?thesis
    proof (cases q)
      case (Inl e)
      note s = finitely_stalledD(3) [OF assms q [unfolded Inl]]
      then have "e = EINTR \<or> e = EAGAIN \<Longrightarrow> write_loop os fd data rem offset w1 \<noteq> None"
        using less(1) by simp
      with q Inl pos show ?thesis by (subst write_loop.simps) auto
    next
      case (Inr n)
      note s = finitely_stalledD(4) [OF assms q [unfolded Inr]]
      have "?bs \<noteq> []" using pos by auto
      with s have "nat (rem - int n) < nat rem" "stall w1 \<le> stall w" using pos by auto
      then have "write_loop os fd data (rem - int n) (offset + of_nat n) w1 \<noteq> None"
        using less(1) by (simp add: add_less_le_mono)
      with q Inr pos show ?thesis by (subst write_loop.simps) simp
    qed
  qed
qed


text \<open>The two routines on a valid descriptor: what they move, and that they return.\<close>

lemma ReadData_total:
  assumes "reads_in_order os inc" "finitely_stalled os stall" "fd \<noteq> -1"
    and "nat dataSz \<le> length data" "length data < 2 ^ 32"
  shows "\<exists>sts got w'. ReadData os fd (Some data) dataSz w =
      ret ((sts, Some (got @ drop (length got) data)), w') \<and> inc w fd = got @ inc w' fd \<and>
      length got \<le> nat dataSz \<and> (sts = SUCCESS \<longleftrightarrow> length got = nat dataSz)"
proof -
  obtain r where r: "read_loop os fd data dataSz 0 w = Some r"
    using read_loop_returns [OF assms(2)] by blast
  from read_loop_raw [OF r assms(1)] assms(4,5) obtain sts got w' where
    "r = Ret ((sts, got @ drop (length got) data), w')" "inc w fd = got @ inc w' fd"
    "length got \<le> nat dataSz" "sts = SUCCESS \<longleftrightarrow> length got = nat dataSz" by auto
  with r assms(3) show ?thesis by (auto simp: ReadData_def)
qed

lemma WriteData_total:
  assumes "sends_in_order os out" "finitely_stalled os stall" "fd \<noteq> -1"
    and "nat dataSz \<le> length data" "length data < 2 ^ 32"
  shows "\<exists>sts k w'. WriteData os fd (Some data) dataSz w = ret (sts, w') \<and> k \<le> nat dataSz \<and>
      out w' fd = out w fd @ take k data \<and> (sts = SUCCESS \<longleftrightarrow> k = nat dataSz)"
proof -
  obtain r where r: "write_loop os fd data dataSz 0 w = Some r"
    using write_loop_returns [OF assms(2)] by blast
  from write_loop_raw [OF r assms(1)] assms(3-5) r show ?thesis by (auto simp: WriteData_def)
qed

lemma ReadData_partial:
  assumes "ReadData os fd (Some data) dataSz w = Some r" "reads_in_order os inc"
    and "nat dataSz \<le> length data" "length data < 2 ^ 32"
  obtains sts got w' where "r = Ret ((sts, Some (got @ drop (length got) data)), w')"
    "inc w fd = got @ inc w' fd" "length got \<le> nat dataSz"
    "sts = SUCCESS \<Longrightarrow> fd \<noteq> -1 \<and> length got = nat dataSz"
proof (cases "fd = -1")
  case True
  with assms(1) that [of "22" "[]" w] show ?thesis by (auto simp: ReadData_def)
next
  case False
  with assms(1) obtain q where q: "read_loop os fd data dataSz 0 w = Some q"
    by (cases "read_loop os fd data dataSz 0 w") (auto simp: ReadData_def)
  from read_loop_raw [OF q assms(2)] assms(3,4) obtain sts got w' where
    "q = Ret ((sts, got @ drop (length got) data), w')" "inc w fd = got @ inc w' fd"
    "length got \<le> nat dataSz" "sts = SUCCESS \<longleftrightarrow> length got = nat dataSz" by auto
  with that q False assms(1) show ?thesis by (auto simp: ReadData_def)
qed

lemma WriteData_partial:
  assumes "WriteData os fd (Some data) dataSz w = Some r" "sends_in_order os out"
    and "nat dataSz \<le> length data" "length data < 2 ^ 32"
  obtains sts k w' where "r = Ret (sts, w')" "k \<le> nat dataSz"
    "out w' fd = out w fd @ take k data" "sts = SUCCESS \<Longrightarrow> fd \<noteq> -1 \<and> k = nat dataSz"
proof (cases "fd = -1")
  case True
  with assms(1) that [of "22" w 0] show ?thesis by (auto simp: WriteData_def)
next
  case False
  with assms(1) have q: "write_loop os fd data dataSz 0 w = Some r" by (simp add: WriteData_def)
  from write_loop_raw [OF q assms(2)] assms(3,4) that False show ?thesis by auto
qed

section \<open>Properties\<close>

text \<open>A world with one stream in each direction, for the witnesses: what is still to be read, and
  what was sent. Each call moves at most two bytes.\<close>

definition pipe_os :: "(u8 list \<times> u8 list) os_api" where
  "pipe_os = idle_os\<lparr>
     os_read := (\<lambda>fd n (i, out). if n = 0 then (Inr [], (i, out))
       else (Inr (take (min n 2) i), (drop (min n 2) i, out))),
     os_send := (\<lambda>fd bs (i, out). (Inr (min 2 (length bs)), (i, out @ take 2 bs)))\<rparr>"

lemma pipe_laws:
  "reads_in_order pipe_os (\<lambda>w fd. fst w)" "sends_in_order pipe_os (\<lambda>w fd. snd w)"
  "finitely_stalled pipe_os (\<lambda>w. 0)"
  by (auto simp: reads_in_order_def sends_in_order_def finitely_stalled_def pipe_os_def idle_simps
      min_def split: if_splits)

text \<open>Reading terminates, stays in the caller's buffer and is exact: on a valid descriptor that
  is not interrupted for ever, ReadData fills the front of the buffer with the next bytes of the
  stream, in order and without loss, and reports success exactly if it got as many as asked for.\<close>

theorem read_is_exact:
  assumes "reads_in_order os inc" "finitely_stalled os stall" "fd \<noteq> -1"
    and "nat dataSz \<le> length data" "length data < 2 ^ 32"
  shows "\<exists>sts got w'. ReadData os fd (Some data) dataSz w =
      ret ((sts, Some (got @ drop (length got) data)), w') \<and> inc w fd = got @ inc w' fd \<and>
      length got \<le> nat dataSz \<and> (sts = SUCCESS \<longleftrightarrow> length got = nat dataSz)"
  by (rule ReadData_total [OF assms])

theorem read_is_exact_witness:
  "\<exists>sts got w'. ReadData pipe_os 5 (Some [0, 0, 0]) 3 ([1, 2, 3, 4], []) =
      ret ((sts, Some (got @ drop (length got) [0, 0, 0])), w') \<and>
      [1, 2, 3, 4] = got @ fst w' \<and> length got \<le> 3 \<and> (sts = SUCCESS \<longleftrightarrow> length got = 3)"
  using read_is_exact [OF pipe_laws(1,3), of 5 3 "[0, 0, 0]" "([1, 2, 3, 4], [])"] by simp

text \<open>Writing terminates, stays in the caller's buffer and is exact: WriteData sends a prefix of
  the data, in order and each byte once, and reports success exactly if it sent all of it.\<close>

theorem write_is_exact:
  assumes "sends_in_order os out" "finitely_stalled os stall" "fd \<noteq> -1"
    and "nat dataSz \<le> length data" "length data < 2 ^ 32"
  shows "\<exists>sts k w'. WriteData os fd (Some data) dataSz w = ret (sts, w') \<and> k \<le> nat dataSz \<and>
      out w' fd = out w fd @ take k data \<and> (sts = SUCCESS \<longleftrightarrow> k = nat dataSz)"
  by (rule WriteData_total [OF assms])

theorem write_is_exact_witness:
  "\<exists>sts k w'. WriteData pipe_os 5 (Some [1, 2, 3]) 3 ([], [9]) = ret (sts, w') \<and> k \<le> 3 \<and>
      snd w' = [9] @ take k [1, 2, 3] \<and> (sts = SUCCESS \<longleftrightarrow> k = 3)"
  using write_is_exact [OF pipe_laws(2,3), of 5 3 "[1, 2, 3]" "([], [9])"] by simp

end
