(* ===== verification/ClientSock.thy ===== *)
theory ClientSock
  imports GenSock
begin

text \<open>
  The SDK's end of the connection: the class \<^verbatim>\<open>LocalClientSocket\<close> of
  \<^verbatim>\<open>src/common/clientsock.{h,cpp}\<close>. A message is sent and received as the bytes of the
  structure; \<open>mem\<close> gives what the memory of a new \<^verbatim>\<open>SocketData\<close> holds before its constructor.
\<close>

section \<open>The class\<close>

definition SendMessage ::
  "'w os_api \<Rightarrow> GenericStreamSocket \<Rightarrow> SocketData \<Rightarrow> 'w \<Rightarrow> (int \<times> 'w) outcome option" where
  "SendMessage os s req w =
     WriteData os (m_Fd s) (Some (encode req)) (int sizeof_SocketData) w"

text \<open>\<open>read_message\<close> is \<^verbatim>\<open>ReadData(fd, &msg.Bytes, sizeof(msg))\<close>.\<close>

definition read_message ::
  "'w os_api \<Rightarrow> int \<Rightarrow> SocketData \<Rightarrow> 'w \<Rightarrow> ((int \<times> SocketData) \<times> 'w) outcome option" where
  "read_message os fd msg w =
     obind (ReadData os fd (Some (encode msg)) (int sizeof_SocketData) w) (\<lambda>((sts, data), w).
     ret ((sts, decode (the data)), w))"

definition GetMessage ::
  "'w os_api \<Rightarrow> GenericStreamSocket \<Rightarrow> SocketData \<Rightarrow> 'w \<Rightarrow>
     ((int \<times> SocketData) \<times> 'w) outcome option" where
  "GetMessage os s rsp w = read_message os (m_Fd s) rsp w"

partial_function (option) connect_loop ::
  "'w os_api \<Rightarrow> int \<Rightarrow> string \<Rightarrow> 'w \<Rightarrow> (int \<times> 'w) outcome option" where
  "connect_loop os fd path w =
     (let (r, w) = os_connect os fd path w in
      case r of
        Inl e \<Rightarrow> if e = EINTR then connect_loop os fd path w
                 else if e = EISCONN then ret (SUCCESS, w)
                 else ret (e, w)
      | Inr _ \<Rightarrow> ret (SUCCESS, w))"

definition Connect ::
  "'w os_api \<Rightarrow> ('w \<Rightarrow> SocketData) \<Rightarrow> GenericStreamSocket \<Rightarrow> string \<Rightarrow> 'w \<Rightarrow>
     (int \<times> 'w) outcome option" where
  "Connect os mem s path w =
     (let (sts, sun_path) = InitSockAddr path in
      if sts \<noteq> SUCCESS then ret (sts, w) else
      obind (connect_loop os (m_Fd s) (c_string sun_path) w) (\<lambda>(sts, w).
      if sts \<noteq> SUCCESS then ret (sts, w) else
      obind (GetMessage os s (SocketData_new (mem w)) w) (\<lambda>((sts, response), w).
      if sts = ENOTCONN then ret (ECONNREFUSED, w)
      else if sts \<noteq> SUCCESS then ret (sts, w)
      else if sd_Status response \<noteq> st HDCP_STATUS_SUCCESSFUL then ret (EBADMSG, w)
      else ret (SUCCESS, w))))"

abbreviation (input) MAX_SRM_DATA_SZ :: int where "MAX_SRM_DATA_SZ \<equiv> 6 * 1024"

definition SendSrmData_sock ::
  "'w os_api \<Rightarrow> GenericStreamSocket \<Rightarrow> u8 list option \<Rightarrow> int \<Rightarrow> 'w \<Rightarrow> (int \<times> 'w) outcome option" where
  "SendSrmData_sock os s data dataSz w =
     (if data = None then ret (EINVAL, w)
      else if dataSz > MAX_SRM_DATA_SZ then ret (EMSGSIZE, w)
      else WriteData os (m_Fd s) data dataSz w)"

definition ReceiveKsvList ::
  "'w os_api \<Rightarrow> GenericStreamSocket \<Rightarrow> u8 list option \<Rightarrow> u8 \<Rightarrow> 'w \<Rightarrow>
     ((int \<times> u8 list option) \<times> 'w) outcome option" where
  "ReceiveKsvList os s ksvList ksvCount w =
     (if ksvList = None then ret ((EINVAL, None), w)
      else if unat ksvCount > MAX_KSV_COUNT \<or> ksvCount = 0 then ret ((EMSGSIZE, ksvList), w)
      else ReadData os (m_Fd s) ksvList (int (unat ksvCount * KSV_SIZE)) w)"

declare connect_loop.simps [code]

section \<open>Messages\<close>

text \<open>What a message transfer moves: all of it on success.\<close>

lemma read_message_partial:
  assumes "read_message os fd msg w = Some r" "reads_in_order os inc" "sd_wf msg"
  obtains sts msg' w' where "r = Ret ((sts, msg'), w')" "sd_wf msg'"
    "sts = SUCCESS \<Longrightarrow> fd \<noteq> -1 \<and> inc w fd = encode msg' @ inc w' fd"
proof -
  from assms(1) obtain q where q: "ReadData os fd (Some (encode msg)) 100 w = Some q"
    by (cases "ReadData os fd (Some (encode msg)) 100 w") (auto simp: read_message_def)
  have len: "length (encode msg) = 100" using assms(3) by simp
  obtain sts got w' where g: "q = Ret ((sts, Some (got @ drop (length got) (encode msg))), w')"
      "inc w fd = got @ inc w' fd" "length got \<le> nat 100"
      "sts = SUCCESS \<Longrightarrow> fd \<noteq> -1 \<and> length got = nat 100"
    by (rule ReadData_partial [OF q assms(2)]) (use len in auto)
  let ?bs = "got @ drop (length got) (encode msg)"
  have bs: "length ?bs = 100" using g(3) len by simp
  have "r = Ret ((sts, decode ?bs), w')" using assms(1) q g(1) by (simp add: read_message_def)
  moreover have "fd \<noteq> -1 \<and> inc w fd = encode (decode ?bs) @ inc w' fd" if "sts = SUCCESS"
    using g(2,4) that len encode_decode [OF bs] by simp
  ultimately show ?thesis using that decode_wf [OF bs] by blast
qed

lemma read_message_total:
  assumes "reads_in_order os inc" "finitely_stalled os stall" "fd \<noteq> -1" "sd_wf msg"
    and "inc w fd = encode d @ rest" "sd_wf d"
  shows "\<exists>sts msg' w'. read_message os fd msg w = ret ((sts, msg'), w') \<and> sd_wf msg' \<and>
    (sts = SUCCESS \<longrightarrow> msg' = d \<and> inc w' fd = rest)"
proof -
  have "nat 100 \<le> length (encode msg)" "length (encode msg) < 2 ^ 32" using assms(4) by simp_all
  from ReadData_total [OF assms(1,2,3) this] obtain sts data w' where
    "ReadData os fd (Some (encode msg)) 100 w = ret ((sts, data), w')" by blast
  then have run: "read_message os fd msg w = ret ((sts, decode (the data)), w')"
    by (simp add: read_message_def)
  show ?thesis
  proof (rule read_message_partial [OF run assms(1,4)])
    fix sts' msg' w''
    assume r: "Ret ((sts, decode (the data)), w') = Ret ((sts', msg'), w'')" "sd_wf msg'"
      and s: "sts' = SUCCESS \<Longrightarrow> fd \<noteq> -1 \<and> inc w fd = encode msg' @ inc w'' fd"
    have "msg' = d \<and> inc w'' fd = rest" if "sts' = SUCCESS"
    proof -
      have "encode d @ rest = encode msg' @ inc w'' fd" using s [OF that] assms(5) by simp
      moreover have "length (encode d) = length (encode msg')" using r(2) assms(6) by simp
      ultimately have "encode d = encode msg'" "rest = inc w'' fd" by simp_all
      then show ?thesis using decode_encode [OF r(2)] decode_encode [OF assms(6)] by metis
    qed
    with run r show ?thesis by auto
  qed
qed

end
