(* ===== verification/Session.thy ===== *)
theory Session
  imports ClientSock
begin

text \<open>
  A client's session: \<^verbatim>\<open>src/sdk/session.{h,cpp}\<close>. Every request is one exchange with the daemon
  over the session's socket, under the mutex of that socket. A status is the 32-bit value that
  \<^verbatim>\<open>HDCP_STATUS\<close> has on the wire, since the daemon's answer is returned as it came. A pointer
  argument is the memory behind it, \<open>None\<close> when null, and is returned with what was written.
\<close>

section \<open>The session object\<close>

text \<open>A function pointer and the context of the application are numbers; a null function is \<open>None\<close>.\<close>

record HdcpSession =
  ss_SdkSocket :: GenericStreamSocket
  ss_CallBack :: "nat option"
  ss_Handle :: u32
  ss_Context :: nat
  ss_IsValid :: bool
  ss_ActiveReferences :: u32

definition HdcpSession_new ::
  "'w os_api \<Rightarrow> u32 \<Rightarrow> nat option \<Rightarrow> nat \<Rightarrow> 'w \<Rightarrow> HdcpSession \<times> 'w" where
  "HdcpSession_new os handle func ctx w =
     (let (s, w) = GenericStreamSocket_new os w;
          session = \<lparr>ss_SdkSocket = s, ss_CallBack = func, ss_Handle = handle, ss_Context = ctx,
            ss_IsValid = True, ss_ActiveReferences = 0\<rparr>;
          (r, w) = os_mutex_init os w in
      if r \<noteq> SUCCESS then (session\<lparr>ss_IsValid := False\<rparr>, w) else
      let (r, w) = os_cond_init os w in
      if r \<noteq> SUCCESS then (session\<lparr>ss_IsValid := False\<rparr>, w) else
      let (r, w) = os_mutex_init os w in
      if r \<noteq> SUCCESS then (session\<lparr>ss_IsValid := False\<rparr>, w) else (session, w))"

text \<open>
  The destructor waits until no reference is left. In a run of one thread nobody else gives a
  reference back, so it does not return; \<^verbatim>\<open>ClientThreads\<close> has the step that waits.
\<close>

definition HdcpSession_delete :: "'w os_api \<Rightarrow> HdcpSession \<Rightarrow> 'w \<Rightarrow> 'w outcome option" where
  "HdcpSession_delete os s w =
     (if ss_ActiveReferences s > 0 then None else ret (GenericStreamSocket_delete os (ss_SdkSocket s) w))"

definition IncreaseReference :: "HdcpSession \<Rightarrow> HdcpSession" where
  "IncreaseReference s = s\<lparr>ss_ActiveReferences := ss_ActiveReferences s + 1\<rparr>"

definition DecreaseReference :: "HdcpSession \<Rightarrow> HdcpSession" where
  "DecreaseReference s = s\<lparr>ss_ActiveReferences := ss_ActiveReferences s - 1\<rparr>"

section \<open>Requests\<close>

abbreviation (input) SDK_SOCKET_PATH :: string where
  "SDK_SOCKET_PATH \<equiv> ''/var/run/hdcp/.sdk_socket''"

definition Session_Create ::
  "'w os_api \<Rightarrow> ('w \<Rightarrow> SocketData) \<Rightarrow> GenericStreamSocket \<Rightarrow> 'w \<Rightarrow> (u32 \<times> 'w) outcome option" where
  "Session_Create os mem s w =
     obind (Connect os mem s SDK_SOCKET_PATH w) (\<lambda>(sts, w).
     if sts \<noteq> SUCCESS then ret (st HDCP_STATUS_ERROR_MSG_TRANSACTION, w)
     else ret (st HDCP_STATUS_SUCCESSFUL, w))"

definition PerformMessageTransaction ::
  "'w os_api \<Rightarrow> GenericStreamSocket \<Rightarrow> SocketData \<Rightarrow> 'w \<Rightarrow> ((u32 \<times> SocketData) \<times> 'w) outcome option" where
  "PerformMessageTransaction os s data w =
     obind (SendMessage os s data w) (\<lambda>(sts, w).
     if sts \<noteq> SUCCESS then ret ((st HDCP_STATUS_ERROR_MSG_TRANSACTION, data), w) else
     obind (GetMessage os s data w) (\<lambda>((sts, data), w).
     if sts \<noteq> SUCCESS then ret ((st HDCP_STATUS_ERROR_MSG_TRANSACTION, data), w)
     else ret ((sd_Status data, data), w)))"

text \<open>A fresh request, with its command and size.\<close>

definition request :: "SocketData \<Rightarrow> HDCP_API_TYPE \<Rightarrow> SocketData" where
  "request mem c = (SocketData_new mem)\<lparr>sd_Size := of_nat sizeof_SocketData, sd_Command := api c\<rparr>"

text \<open>A fresh request about one port.\<close>

definition port_request :: "SocketData \<Rightarrow> HDCP_API_TYPE \<Rightarrow> u32 \<Rightarrow> SocketData" where
  "port_request mem c portId =
     set_SinglePort (\<lambda>p. p\<lparr>Port_Id := portId\<rparr>) ((request mem c)\<lparr>sd_PortCount := 1\<rparr>)"

record PortList =
  pl_Ports :: "Port list"
  pl_PortCount :: u32

function fill_ports :: "nat \<Rightarrow> nat \<Rightarrow> Port list \<Rightarrow> Port list \<Rightarrow> Port list outcome" where
  "fill_ports i n src dst =
     (if i < n then
        ubind (rd src i) (\<lambda>p. ubind (rd dst i) (\<lambda>q.
        fill_ports (i + 1) n src (dst[i := q\<lparr>Port_Id := Port_Id p, Port_status := Port_status p\<rparr>])))
      else Ret dst)"
  by pat_completeness auto

termination
  by (relation "measure (\<lambda>(i, n, src, dst). n - i)") auto

declare fill_ports.simps [simp del]

definition Session_EnumerateDisplay ::
  "'w os_api \<Rightarrow> ('w \<Rightarrow> SocketData) \<Rightarrow> GenericStreamSocket \<Rightarrow> PortList option \<Rightarrow> 'w \<Rightarrow>
     ((u32 \<times> PortList option) \<times> 'w) outcome option" where
  "Session_EnumerateDisplay os mem s portList w =
     (case portList of None \<Rightarrow> ret ((st HDCP_STATUS_ERROR_INVALID_PARAMETER, None), w) | Some pl \<Rightarrow>
      obind (PerformMessageTransaction os s (request (mem w) HDCP_API_ENUMERATE_HDCP_DISPLAY) w)
        (\<lambda>((sts, data), w).
      if sts \<noteq> st HDCP_STATUS_SUCCESSFUL then ret ((sts, Some pl), w) else
      if sd_PortCount data > of_nat NUM_PHYSICAL_PORTS_MAX
      then ret ((st HDCP_STATUS_ERROR_INTERNAL, Some pl), w) else
      obind (Some (fill_ports 0 (unat (sd_PortCount data)) (sd_Ports data) (pl_Ports pl))) (\<lambda>ports.
      ret ((st HDCP_STATUS_SUCCESSFUL, Some (pl\<lparr>pl_PortCount := sd_PortCount data, pl_Ports := ports\<rparr>)), w))))"

text \<open>
  \<^verbatim>\<open>HDCP_LEVEL\<close> is an unsigned enumeration of 32 bits, the field of the message has 8. When the
  request fails the code calls itself with level 0, for which it does not.
\<close>

function Session_SetProtectionLevel ::
  "'w os_api \<Rightarrow> ('w \<Rightarrow> SocketData) \<Rightarrow> GenericStreamSocket \<Rightarrow> u32 \<Rightarrow> u32 \<Rightarrow> 'w \<Rightarrow> (u32 \<times> 'w) outcome option" where
  "Session_SetProtectionLevel os mem s portId level w =
     obind (PerformMessageTransaction os s
       ((port_request (mem w) HDCP_API_SET_PROTECTION_LEVEL portId)\<lparr>sd_Level := ucast level\<rparr>) w)
       (\<lambda>((sts, data), w).
     if sts \<noteq> st HDCP_STATUS_SUCCESSFUL \<and> level \<noteq> 0
     then obind (Session_SetProtectionLevel os mem s portId 0 w) (\<lambda>(_, w). ret (sts, w))
     else ret (st HDCP_STATUS_SUCCESSFUL, w))"
  by pat_completeness auto

termination
  by (relation "measure (\<lambda>(os, mem, s, portId, level, w). if level = 0 then 0 else 1)") auto

declare Session_SetProtectionLevel.simps [simp del]

definition Session_GetStatus ::
  "'w os_api \<Rightarrow> ('w \<Rightarrow> SocketData) \<Rightarrow> GenericStreamSocket \<Rightarrow> u32 \<Rightarrow> u32 option \<Rightarrow> 'w \<Rightarrow>
     ((u32 \<times> u32 option) \<times> 'w) outcome option" where
  "Session_GetStatus os mem s portId portStatus w =
     (if portStatus = None then ret ((st HDCP_STATUS_ERROR_INVALID_PARAMETER, None), w) else
      obind (PerformMessageTransaction os s (port_request (mem w) HDCP_API_GETSTATUS portId) w)
        (\<lambda>((sts, data), w).
      if sts \<noteq> st HDCP_STATUS_SUCCESSFUL then ret ((sts, portStatus), w)
      else ret ((st HDCP_STATUS_SUCCESSFUL, Some (Port_status (SinglePort data))), w)))"

definition Session_GetKsvList ::
  "'w os_api \<Rightarrow> ('w \<Rightarrow> SocketData) \<Rightarrow> GenericStreamSocket \<Rightarrow> u32 \<Rightarrow> u8 option \<Rightarrow> u8 option \<Rightarrow> u8 list option \<Rightarrow>
     'w \<Rightarrow> ((u32 \<times> u8 option \<times> u8 option \<times> u8 list option) \<times> 'w) outcome option" where
  "Session_GetKsvList os mem s portId ksvCount depth ksvList w =
     (if ksvList = None \<or> ksvCount = None \<or> depth = None \<or> portId > of_nat NUM_PHYSICAL_PORTS_MAX
      then ret ((st HDCP_STATUS_ERROR_INVALID_PARAMETER, ksvCount, depth, ksvList), w) else
      obind (PerformMessageTransaction os s (port_request (mem w) HDCP_API_GETKSVLIST portId) w)
        (\<lambda>((sts, data), w).
      if sts \<noteq> st HDCP_STATUS_SUCCESSFUL then ret ((sts, ksvCount, depth, ksvList), w) else
      let depth = Some (sd_Depth data); ksvCount = Some (sd_KsvCount data) in
      obind (ReceiveKsvList os s ksvList (sd_KsvCount data) w) (\<lambda>((sts, ksvList), w).
      if sts \<noteq> SUCCESS then ret ((st HDCP_STATUS_ERROR_MSG_TRANSACTION, ksvCount, depth, ksvList), w)
      else ret ((st HDCP_STATUS_SUCCESSFUL, ksvCount, depth, ksvList), w))))"

text \<open>The size is a \<^verbatim>\<open>uint32_t\<close> here and an \<^verbatim>\<open>int32_t\<close> in the call of the socket.\<close>

definition Session_SendSRMData ::
  "'w os_api \<Rightarrow> ('w \<Rightarrow> SocketData) \<Rightarrow> GenericStreamSocket \<Rightarrow> u32 \<Rightarrow> u8 list option \<Rightarrow> 'w \<Rightarrow>
     (u32 \<times> 'w) outcome option" where
  "Session_SendSRMData os mem s srmSize pSrmData w =
     (if pSrmData = None then ret (st HDCP_STATUS_ERROR_INVALID_PARAMETER, w) else
      obind (PerformMessageTransaction os s
        ((request (mem w) HDCP_API_SENDSRMDATA)\<lparr>sd_SrmOrKsvListDataSz := srmSize\<rparr>) w) (\<lambda>((sts, data), w).
      if sts \<noteq> st HDCP_STATUS_SUCCESSFUL then ret (sts, w) else
      obind (SendSrmData_sock os s pSrmData (sint srmSize) w) (\<lambda>(sts, w).
      if sts \<noteq> SUCCESS then ret (st HDCP_STATUS_ERROR_MSG_TRANSACTION, w) else
      obind (GetMessage os s data w) (\<lambda>((sts, data), w).
      if sts \<noteq> SUCCESS then ret (st HDCP_STATUS_ERROR_MSG_TRANSACTION, w)
      else if sd_Status data \<noteq> st HDCP_STATUS_SUCCESSFUL then ret (sd_Status data, w)
      else ret (st HDCP_STATUS_SUCCESSFUL, w)))))"

definition Session_GetSRMVersion ::
  "'w os_api \<Rightarrow> ('w \<Rightarrow> SocketData) \<Rightarrow> GenericStreamSocket \<Rightarrow> u16 option \<Rightarrow> 'w \<Rightarrow>
     ((u32 \<times> u16 option) \<times> 'w) outcome option" where
  "Session_GetSRMVersion os mem s version w =
     (if version = None then ret ((st HDCP_STATUS_ERROR_INVALID_PARAMETER, None), w) else
      obind (PerformMessageTransaction os s (request (mem w) HDCP_API_GETSRMVERSION) w)
        (\<lambda>((sts, data), w).
      if sts \<noteq> st HDCP_STATUS_SUCCESSFUL then ret ((sts, version), w)
      else ret ((st HDCP_STATUS_SUCCESSFUL, Some (sd_SrmVersion data)), w)))"

definition Session_Config ::
  "'w os_api \<Rightarrow> ('w \<Rightarrow> SocketData) \<Rightarrow> GenericStreamSocket \<Rightarrow> HDCP_CONFIG \<Rightarrow> 'w \<Rightarrow> (u32 \<times> 'w) outcome option" where
  "Session_Config os mem s config w =
     (let data = (request (mem w) HDCP_API_CONFIG)\<lparr>sd_Config_type := cfg_type config\<rparr> in
      if cfg_type config \<noteq> SRM_STORAGE_CONFIG
      then ret (st HDCP_STATUS_ERROR_INVALID_PARAMETER, w) else
      obind (PerformMessageTransaction os s
        (data\<lparr>sd_Config_disableSrmStorage := (if cfg_disableSrmStorage config then 1 else 0)\<rparr>) w) (\<lambda>((sts, data), w).
      if sts \<noteq> st HDCP_STATUS_SUCCESSFUL then ret (sts, w)
      else ret (st HDCP_STATUS_SUCCESSFUL, w)))"

end
