(* ===== verification/SessionManager.thy ===== *)
theory SessionManager
  imports Session
begin

text \<open>
  The sessions of a client: the static class \<^verbatim>\<open>HdcpSessionManager\<close> of \<^verbatim>\<open>src/sdk/sessionmanager.{h,cpp}\<close>.
  Sessions live on the heap and the code keeps pointers to them in two lists, so the state has an
  explicit store; using a pointer whose session was deleted is undefined. Taking a mutex that is held
  by the same thread does not return.
\<close>

section \<open>The state\<close>

record SessionManager =
  sm_SessionList :: "nat list"
  sm_PendingDestroyQueue :: "nat list"
  sm_CallBackSocket :: "GenericStreamSocket option"
  sm_IsCallBackInitialized :: bool
  sm_HandleIncrementor :: u32
  sm_HandleIncrementorMutex :: bool
  sm_IteratorReference :: u32
  sm_IteratorMutex :: bool
  sm_Heap :: "nat \<rightharpoonup> HdcpSession"
  sm_NextAddress :: nat

definition sm_start :: SessionManager where
  "sm_start = \<lparr>sm_SessionList = [], sm_PendingDestroyQueue = [], sm_CallBackSocket = None,
     sm_IsCallBackInitialized = False, sm_HandleIncrementor = 1, sm_HandleIncrementorMutex = False,
     sm_IteratorReference = 0, sm_IteratorMutex = False, sm_Heap = Map.empty, sm_NextAddress = 1\<rparr>"

abbreviation (input) BAD_SESSION_HANDLE :: u32 where "BAD_SESSION_HANDLE \<equiv> 0xFFFFFFFF"

definition lock_iterator :: "SessionManager \<Rightarrow> SessionManager outcome option" where
  "lock_iterator sm = (if sm_IteratorMutex sm then None else ret (sm\<lparr>sm_IteratorMutex := True\<rparr>))"

definition unlock_iterator :: "SessionManager \<Rightarrow> SessionManager outcome option" where
  "unlock_iterator sm = (if sm_IteratorMutex sm then ret (sm\<lparr>sm_IteratorMutex := False\<rparr>) else Some Undef)"

definition lock_handle :: "SessionManager \<Rightarrow> SessionManager outcome option" where
  "lock_handle sm = (if sm_HandleIncrementorMutex sm then None
     else ret (sm\<lparr>sm_HandleIncrementorMutex := True\<rparr>))"

definition unlock_handle :: "SessionManager \<Rightarrow> SessionManager outcome option" where
  "unlock_handle sm = (if sm_HandleIncrementorMutex sm then ret (sm\<lparr>sm_HandleIncrementorMutex := False\<rparr>)
     else Some Undef)"

text \<open>Reading through a pointer, \<^verbatim>\<open>delete\<close>, and taking a pointer out of the list.\<close>

definition deref :: "SessionManager \<Rightarrow> nat \<Rightarrow> HdcpSession outcome" where
  "deref sm p = (case sm_Heap sm p of None \<Rightarrow> Undef | Some s \<Rightarrow> Ret s)"

definition delete_session ::
  "'w os_api \<Rightarrow> nat \<Rightarrow> SessionManager \<Rightarrow> 'w \<Rightarrow> (SessionManager \<times> 'w) outcome option" where
  "delete_session os p sm w =
     obind (Some (deref sm p)) (\<lambda>s.
     obind (HdcpSession_delete os s w) (\<lambda>w. ret (sm\<lparr>sm_Heap := (sm_Heap sm)(p := None)\<rparr>, w)))"

definition remove_session :: "nat \<Rightarrow> SessionManager \<Rightarrow> SessionManager" where
  "remove_session p sm = sm\<lparr>sm_SessionList := filter (\<lambda>q. q \<noteq> p) (sm_SessionList sm)\<rparr>"

section \<open>Iterating\<close>

definition IteratorCriticalSectionEnter :: "SessionManager \<Rightarrow> SessionManager outcome option" where
  "IteratorCriticalSectionEnter sm =
     obind (lock_iterator sm) (\<lambda>sm.
     unlock_iterator (sm\<lparr>sm_IteratorReference := sm_IteratorReference sm + 1\<rparr>))"

primrec destroy_pending ::
  "'w os_api \<Rightarrow> nat list \<Rightarrow> SessionManager \<Rightarrow> 'w \<Rightarrow> (SessionManager \<times> 'w) outcome option" where
  "destroy_pending os [] sm w = ret (sm, w)"
| "destroy_pending os (p # ps) sm w =
     obind (delete_session os p sm w) (\<lambda>(sm, w). destroy_pending os ps (remove_session p sm) w)"

definition IteratorCriticalSectionExit ::
  "'w os_api \<Rightarrow> SessionManager \<Rightarrow> 'w \<Rightarrow> (SessionManager \<times> 'w) outcome option" where
  "IteratorCriticalSectionExit os sm w =
     obind (lock_iterator sm) (\<lambda>sm.
     let sm = sm\<lparr>sm_IteratorReference := sm_IteratorReference sm - 1\<rparr> in
     obind (if sm_IteratorReference sm = 0
            then obind (destroy_pending os (sm_PendingDestroyQueue sm) sm w) (\<lambda>(sm, w).
              ret (sm\<lparr>sm_PendingDestroyQueue := []\<rparr>, w))
            else ret (sm, w)) (\<lambda>(sm, w).
     obind (unlock_iterator sm) (\<lambda>sm. ret (sm, w))))"

text \<open>The loop that looks for a handle.\<close>

fun find_session :: "SessionManager \<Rightarrow> u32 \<Rightarrow> nat list \<Rightarrow> nat option outcome" where
  "find_session sm handle [] = Ret None"
| "find_session sm handle (p # ps) =
     ubind (deref sm p) (\<lambda>s. if handle = ss_Handle s then Ret (Some p) else find_session sm handle ps)"

definition upd_session :: "nat \<Rightarrow> (HdcpSession \<Rightarrow> HdcpSession) \<Rightarrow> SessionManager \<Rightarrow> SessionManager outcome" where
  "upd_session p f sm = ubind (deref sm p) (\<lambda>s. Ret (sm\<lparr>sm_Heap := (sm_Heap sm)(p \<mapsto> f s)\<rparr>))"

definition GetInstance ::
  "'w os_api \<Rightarrow> u32 \<Rightarrow> SessionManager \<Rightarrow> 'w \<Rightarrow> ((nat option \<times> SessionManager) \<times> 'w) outcome option" where
  "GetInstance os handle sm w =
     obind (IteratorCriticalSectionEnter sm) (\<lambda>sm.
     obind (Some (find_session sm handle (sm_SessionList sm))) (\<lambda>session.
     case session of
       None \<Rightarrow> obind (IteratorCriticalSectionExit os sm w) (\<lambda>(sm, w). ret ((None, sm), w))
     | Some p \<Rightarrow>
         if p \<in> set (sm_PendingDestroyQueue sm)
         then obind (IteratorCriticalSectionExit os sm w) (\<lambda>(sm, w). ret ((None, sm), w))
         else
           obind (Some (upd_session p IncreaseReference sm)) (\<lambda>sm.
           obind (IteratorCriticalSectionExit os sm w) (\<lambda>(sm, w). ret ((Some p, sm), w)))))"

definition PutInstance ::
  "'w os_api \<Rightarrow> u32 \<Rightarrow> SessionManager \<Rightarrow> 'w \<Rightarrow> (SessionManager \<times> 'w) outcome option" where
  "PutInstance os handle sm w =
     obind (IteratorCriticalSectionEnter sm) (\<lambda>sm.
     obind (Some (find_session sm handle (sm_SessionList sm))) (\<lambda>session.
     obind (Some (case session of None \<Rightarrow> Ret sm | Some p \<Rightarrow> upd_session p DecreaseReference sm)) (\<lambda>sm.
     IteratorCriticalSectionExit os sm w)))"

section \<open>Creating and destroying\<close>

definition GetUniqueHandle :: "SessionManager \<Rightarrow> (u32 \<times> SessionManager) outcome option" where
  "GetUniqueHandle sm =
     obind (lock_handle sm) (\<lambda>sm.
     let handle = sm_HandleIncrementor sm in
     obind (unlock_handle (sm\<lparr>sm_HandleIncrementor := handle + 1\<rparr>)) (\<lambda>sm. ret (handle, sm)))"

definition InitCallBack ::
  "'w os_api \<Rightarrow> ('w \<Rightarrow> SocketData) \<Rightarrow> SessionManager \<Rightarrow> 'w \<Rightarrow> ((int \<times> SessionManager) \<times> 'w) outcome option" where
  "InitCallBack os mem sm w =
     (if sm_IsCallBackInitialized sm then ret ((SUCCESS, sm), w) else
      let (ok, w) = os_new os 1 w in
      if \<not> ok then ret ((ENOMEM, sm\<lparr>sm_CallBackSocket := None\<rparr>), w) else
      let (s, w) = GenericStreamSocket_new os w; sm = sm\<lparr>sm_CallBackSocket := Some s\<rparr> in
      obind (Connect os mem s SDK_SOCKET_PATH w) (\<lambda>(sts, w).
      if sts \<noteq> SUCCESS then ret ((sts, sm), w) else
      obind (SendMessage os s (request (mem w) HDCP_API_CREATE_CALLBACK) w) (\<lambda>(sts, w).
      if sts \<noteq> SUCCESS then ret ((sts, sm), w) else
      let (r, w) = os_thread_create os ''CallBackManager'' w in
      if r \<noteq> 0
      then let w = GenericStreamSocket_delete os s w in
           ret ((os_errno os w, sm\<lparr>sm_CallBackSocket := None\<rparr>), w)
      else ret ((r, sm\<lparr>sm_IsCallBackInitialized := True\<rparr>), w))))"

text \<open>\<^verbatim>\<open>CreateSession\<close> in two parts: the callback channel and the session.\<close>

definition EnsureCallBack ::
  "'w os_api \<Rightarrow> ('w \<Rightarrow> SocketData) \<Rightarrow> SessionManager \<Rightarrow> 'w \<Rightarrow> ((int \<times> SessionManager) \<times> 'w) outcome option" where
  "EnsureCallBack os mem sm w =
     (if sm_IsCallBackInitialized sm then ret ((SUCCESS, sm), w) else
      obind (lock_handle sm) (\<lambda>sm.
      obind (InitCallBack os mem sm w) (\<lambda>((sts, sm), w).
      obind (unlock_handle sm) (\<lambda>sm. ret ((sts, sm), w)))))"

definition AddSession ::
  "'w os_api \<Rightarrow> u32 \<Rightarrow> nat option \<Rightarrow> nat \<Rightarrow> SessionManager \<Rightarrow> 'w \<Rightarrow>
     ((u32 \<times> SessionManager) \<times> 'w) outcome option" where
  "AddSession os handle func ctx sm w =
     (let (ok, w) = os_new os 1 w in
      if \<not> ok then ret ((BAD_SESSION_HANDLE, sm), w) else
      let (s, w) = HdcpSession_new os handle func ctx w; p = sm_NextAddress sm;
          sm = sm\<lparr>sm_Heap := (sm_Heap sm)(p \<mapsto> s), sm_NextAddress := p + 1\<rparr> in
      if \<not> ss_IsValid s
      then obind (delete_session os p sm w) (\<lambda>(sm, w). ret ((BAD_SESSION_HANDLE, sm), w)) else
      obind (lock_iterator sm) (\<lambda>sm.
      obind (unlock_iterator (sm\<lparr>sm_SessionList := p # sm_SessionList sm\<rparr>)) (\<lambda>sm.
      ret ((handle, sm), w))))"

definition CreateSession ::
  "'w os_api \<Rightarrow> ('w \<Rightarrow> SocketData) \<Rightarrow> nat option \<Rightarrow> nat \<Rightarrow> SessionManager \<Rightarrow> 'w \<Rightarrow>
     ((u32 \<times> SessionManager) \<times> 'w) outcome option" where
  "CreateSession os mem func ctx sm w =
     obind (GetUniqueHandle sm) (\<lambda>(handle, sm).
     obind (EnsureCallBack os mem sm w) (\<lambda>((sts, sm), w).
     if sts \<noteq> SUCCESS then ret ((BAD_SESSION_HANDLE, sm), w)
     else AddSession os handle func ctx sm w))"

definition DestroySession ::
  "'w os_api \<Rightarrow> u32 \<Rightarrow> SessionManager \<Rightarrow> 'w \<Rightarrow> (SessionManager \<times> 'w) outcome option" where
  "DestroySession os handle sm w =
     obind (lock_iterator sm) (\<lambda>sm.
     obind (Some (find_session sm handle (sm_SessionList sm))) (\<lambda>session.
     obind
       (case session of None \<Rightarrow> ret (sm, w)
        | Some p \<Rightarrow>
            if sm_IteratorReference sm > 0
            then ret (sm\<lparr>sm_PendingDestroyQueue := sm_PendingDestroyQueue sm @ [p]\<rparr>, w)
            else obind (delete_session os p sm w) (\<lambda>(sm, w). ret (remove_session p sm, w))) (\<lambda>(sm, w).
     obind (unlock_iterator sm) (\<lambda>sm. ret (sm, w)))))"

section \<open>The callback channel\<close>

function destroy_sessions ::
  "'w os_api \<Rightarrow> nat list \<Rightarrow> SessionManager \<Rightarrow> 'w \<Rightarrow> (SessionManager \<times> 'w) outcome option" where
  "destroy_sessions os [] sm w = ret (sm, w)"
| "destroy_sessions os (p # ps) sm w =
     obind (delete_session os p sm w) (\<lambda>(sm, w).
     destroy_sessions os (filter (\<lambda>q. q \<noteq> p) ps) (remove_session p sm) w)"
  by pat_completeness auto

termination
  by (relation "measure (\<lambda>(os, ps, sm, w). length ps)") (auto simp: le_imp_less_Suc)

definition DestroyCallback ::
  "'w os_api \<Rightarrow> SessionManager \<Rightarrow> 'w \<Rightarrow> (SessionManager \<times> 'w) outcome option" where
  "DestroyCallback os sm w =
     obind (lock_iterator sm) (\<lambda>sm.
     obind (destroy_sessions os (sm_SessionList sm) sm w) (\<lambda>(sm, w).
     let w = (case sm_CallBackSocket sm of None \<Rightarrow> w | Some s \<Rightarrow> GenericStreamSocket_delete os s w) in
     obind (unlock_iterator (sm\<lparr>sm_CallBackSocket := None\<rparr>)) (\<lambda>sm. ret (sm, w))))"

text \<open>
  The calls into the application, a parameter: the function, the handle, the port, the event and the
  context.
\<close>

primrec call_back_loop ::
  "(nat \<Rightarrow> u32 \<Rightarrow> u32 \<Rightarrow> u32 \<Rightarrow> nat \<Rightarrow> 'w \<Rightarrow> 'w) \<Rightarrow> SessionManager \<Rightarrow> Port \<Rightarrow> nat list \<Rightarrow> 'w \<Rightarrow>
     'w outcome" where
  "call_back_loop app sm port [] w = Ret w"
| "call_back_loop app sm port (p # ps) w =
     ubind (deref sm p) (\<lambda>s.
     call_back_loop app sm port ps
       (case ss_CallBack s of None \<Rightarrow> w
        | Some f \<Rightarrow> app f (ss_Handle s) (Port_Id port) (Port_Event port) (ss_Context s) w))"

text \<open>One turn of the thread's loop; the flag of the result says whether it goes on.\<close>

definition CallBackManager_turn ::
  "'w os_api \<Rightarrow> ('w \<Rightarrow> SocketData) \<Rightarrow> (nat \<Rightarrow> u32 \<Rightarrow> u32 \<Rightarrow> u32 \<Rightarrow> nat \<Rightarrow> 'w \<Rightarrow> 'w) \<Rightarrow>
     SessionManager \<Rightarrow> 'w \<Rightarrow> ((bool \<times> SessionManager) \<times> 'w) outcome option" where
  "CallBackManager_turn os mem app sm w =
     (case sm_CallBackSocket sm of None \<Rightarrow> Some Undef | Some s \<Rightarrow>
      obind (GetMessage os s (SocketData_new (mem w)) w) (\<lambda>((sts, data), w).
      if sts \<noteq> SUCCESS then
        if sts = ENOTCONN then obind (DestroyCallback os sm w) (\<lambda>(sm, w). ret ((False, sm), w))
        else ret ((True, sm), w)
      else if sd_Size data \<noteq> of_nat sizeof_SocketData then ret ((True, sm), w)
      else if sd_Command data \<noteq> api HDCP_API_REPORTSTATUS then ret ((True, sm), w) else
      obind (IteratorCriticalSectionEnter sm) (\<lambda>sm.
      obind (Some (call_back_loop app sm (SinglePort data) (sm_SessionList sm) w)) (\<lambda>w.
      obind (IteratorCriticalSectionExit os sm w) (\<lambda>(sm, w). ret ((True, sm), w))))))"

end
