(* ===== verification/HdcpApi.thy ===== *)
theory HdcpApi
  imports SessionManager
begin

text \<open>
  The functions an application calls: \<^verbatim>\<open>src/sdk/hdcpapi.cpp\<close>. Each finds the session of its handle,
  holds a reference to it during the exchange with the daemon, and gives the reference back.
\<close>

section \<open>Using a session\<close>

text \<open>
  What most functions share: \<^verbatim>\<open>GetInstance\<close>, the request \<open>f\<close> on the session's socket, and
  \<^verbatim>\<open>PutInstance\<close>; \<open>out\<close> is what the memory of the caller holds if there is no such session.
\<close>

definition with_session ::
  "'w os_api \<Rightarrow> u32 \<Rightarrow> 'o \<Rightarrow> (GenericStreamSocket \<Rightarrow> 'w \<Rightarrow> ((u32 \<times> 'o) \<times> 'w) outcome option) \<Rightarrow>
     SessionManager \<Rightarrow> 'w \<Rightarrow> ((u32 \<times> 'o \<times> SessionManager) \<times> 'w) outcome option" where
  "with_session os handle out f sm w =
     obind (GetInstance os handle sm w) (\<lambda>((session, sm), w).
     case session of
       None \<Rightarrow> ret ((st HDCP_STATUS_ERROR_INTERNAL, out, sm), w)
     | Some p \<Rightarrow>
         obind (Some (deref sm p)) (\<lambda>s.
         obind (f (ss_SdkSocket s) w) (\<lambda>((sts, out), w).
         obind (PutInstance os handle sm w) (\<lambda>(sm, w). ret ((sts, out, sm), w)))))"

text \<open>A request without a result besides its status.\<close>

definition plain :: "(u32 \<times> 'w) outcome option \<Rightarrow> ((u32 \<times> unit) \<times> 'w) outcome option" where
  "plain m = obind m (\<lambda>(sts, w). ret ((sts, ()), w))"

section \<open>The functions\<close>

definition HDCPCreate ::
  "'w os_api \<Rightarrow> ('w \<Rightarrow> SocketData) \<Rightarrow> u32 option \<Rightarrow> nat option \<Rightarrow> nat \<Rightarrow> SessionManager \<Rightarrow> 'w \<Rightarrow>
     ((u32 \<times> u32 option \<times> SessionManager) \<times> 'w) outcome option" where
  "HDCPCreate os mem pHdcpHandle func context sm w =
     (if pHdcpHandle = None then ret ((st HDCP_STATUS_ERROR_INVALID_PARAMETER, None, sm), w) else
      obind (CreateSession os mem func context sm w) (\<lambda>((sessionHandle, sm), w).
      if sessionHandle = BAD_SESSION_HANDLE
      then ret ((st HDCP_STATUS_ERROR_INSUFFICIENT_MEMORY, Some 0, sm), w) else
      obind (GetInstance os sessionHandle sm w) (\<lambda>((session, sm), w).
      case session of
        None \<Rightarrow> ret ((st HDCP_STATUS_ERROR_INTERNAL, Some 0, sm), w)
      | Some p \<Rightarrow>
          obind (Some (deref sm p)) (\<lambda>s.
          obind (Session_Create os mem (ss_SdkSocket s) w) (\<lambda>(sts, w).
          obind (PutInstance os sessionHandle sm w) (\<lambda>(sm, w).
          if sts \<noteq> st HDCP_STATUS_SUCCESSFUL
          then obind (DestroySession os sessionHandle sm w) (\<lambda>(sm, w). ret ((sts, Some 0, sm), w))
          else ret ((sts, Some sessionHandle, sm), w)))))))"

definition HDCPDestroy ::
  "'w os_api \<Rightarrow> u32 \<Rightarrow> SessionManager \<Rightarrow> 'w \<Rightarrow> ((u32 \<times> SessionManager) \<times> 'w) outcome option" where
  "HDCPDestroy os hdcpHandle sm w =
     obind (DestroySession os hdcpHandle sm w) (\<lambda>(sm, w). ret ((st HDCP_STATUS_SUCCESSFUL, sm), w))"

definition zero_ports :: "PortList \<Rightarrow> PortList" where
  "zero_ports pl = pl\<lparr>pl_Ports := replicate NUM_PHYSICAL_PORTS_MAX
     \<lparr>Port_Id = 0, Port_status = 0, Port_Event = 0\<rparr>, pl_PortCount := 0\<rparr>"

definition HDCPEnumerateDisplay ::
  "'w os_api \<Rightarrow> ('w \<Rightarrow> SocketData) \<Rightarrow> u32 \<Rightarrow> PortList option \<Rightarrow> SessionManager \<Rightarrow> 'w \<Rightarrow>
     ((u32 \<times> PortList option \<times> SessionManager) \<times> 'w) outcome option" where
  "HDCPEnumerateDisplay os mem hdcpHandle pPortList sm w =
     (case pPortList of None \<Rightarrow> ret ((st HDCP_STATUS_ERROR_INVALID_PARAMETER, None, sm), w) | Some pl \<Rightarrow>
      let pl = zero_ports pl in
      obind (with_session os hdcpHandle (Some pl) (\<lambda>s. Session_EnumerateDisplay os mem s (Some pl)) sm w)
        (\<lambda>((sts, pPortList, sm), w).
      if sts \<noteq> st HDCP_STATUS_SUCCESSFUL then ret ((sts, map_option zero_ports pPortList, sm), w)
      else ret ((sts, pPortList, sm), w)))"

definition HDCPSetProtectionLevel ::
  "'w os_api \<Rightarrow> ('w \<Rightarrow> SocketData) \<Rightarrow> u32 \<Rightarrow> u32 \<Rightarrow> u32 \<Rightarrow> SessionManager \<Rightarrow> 'w \<Rightarrow>
     ((u32 \<times> unit \<times> SessionManager) \<times> 'w) outcome option" where
  "HDCPSetProtectionLevel os mem hdcpHandle portId level sm w =
     (if portId > of_nat NUM_PHYSICAL_PORTS_MAX
      then ret ((st HDCP_STATUS_ERROR_INVALID_PARAMETER, (), sm), w)
      else with_session os hdcpHandle ()
        (\<lambda>s w. plain (Session_SetProtectionLevel os mem s portId level w)) sm w)"

definition HDCPGetStatus ::
  "'w os_api \<Rightarrow> ('w \<Rightarrow> SocketData) \<Rightarrow> u32 \<Rightarrow> u32 \<Rightarrow> u32 option \<Rightarrow> SessionManager \<Rightarrow> 'w \<Rightarrow>
     ((u32 \<times> u32 option \<times> SessionManager) \<times> 'w) outcome option" where
  "HDCPGetStatus os mem hdcpHandle portId portStatus sm w =
     (if portStatus = None \<or> portId > of_nat NUM_PHYSICAL_PORTS_MAX
      then ret ((st HDCP_STATUS_ERROR_INVALID_PARAMETER, portStatus, sm), w)
      else with_session os hdcpHandle portStatus
        (\<lambda>s. Session_GetStatus os mem s portId portStatus) sm w)"

definition HDCPGetKsvList ::
  "'w os_api \<Rightarrow> ('w \<Rightarrow> SocketData) \<Rightarrow> u32 \<Rightarrow> u32 \<Rightarrow> u8 option \<Rightarrow> u8 option \<Rightarrow> u8 list option \<Rightarrow>
     SessionManager \<Rightarrow> 'w \<Rightarrow>
     ((u32 \<times> (u8 option \<times> u8 option \<times> u8 list option) \<times> SessionManager) \<times> 'w) outcome option" where
  "HDCPGetKsvList os mem hdcpHandle portId ksvCount depth ksvList sm w =
     (if ksvCount = None \<or> depth = None \<or> ksvList = None \<or> portId > of_nat NUM_PHYSICAL_PORTS_MAX
      then ret ((st HDCP_STATUS_ERROR_INVALID_PARAMETER, (ksvCount, depth, ksvList), sm), w)
      else with_session os hdcpHandle (ksvCount, depth, ksvList)
        (\<lambda>s. Session_GetKsvList os mem s portId ksvCount depth ksvList) sm w)"

abbreviation (input) SRM_MIN_LENGTH :: u32 where "SRM_MIN_LENGTH \<equiv> 8"

definition HDCPSendSRMData ::
  "'w os_api \<Rightarrow> ('w \<Rightarrow> SocketData) \<Rightarrow> u32 \<Rightarrow> u32 \<Rightarrow> u8 list option \<Rightarrow> SessionManager \<Rightarrow> 'w \<Rightarrow>
     ((u32 \<times> unit \<times> SessionManager) \<times> 'w) outcome option" where
  "HDCPSendSRMData os mem hdcpHandle srmSize pSrmData sm w =
     (if pSrmData = None \<or> srmSize < SRM_MIN_LENGTH
      then ret ((st HDCP_STATUS_ERROR_INVALID_PARAMETER, (), sm), w)
      else with_session os hdcpHandle ()
        (\<lambda>s w. plain (Session_SendSRMData os mem s srmSize pSrmData w)) sm w)"

definition HDCPGetSRMVersion ::
  "'w os_api \<Rightarrow> ('w \<Rightarrow> SocketData) \<Rightarrow> u32 \<Rightarrow> u16 option \<Rightarrow> SessionManager \<Rightarrow> 'w \<Rightarrow>
     ((u32 \<times> u16 option \<times> SessionManager) \<times> 'w) outcome option" where
  "HDCPGetSRMVersion os mem hdcpHandle version sm w =
     (if version = None then ret ((st HDCP_STATUS_ERROR_INVALID_PARAMETER, None, sm), w)
      else with_session os hdcpHandle version (\<lambda>s. Session_GetSRMVersion os mem s version) sm w)"

definition HDCPConfig ::
  "'w os_api \<Rightarrow> ('w \<Rightarrow> SocketData) \<Rightarrow> u32 \<Rightarrow> HDCP_CONFIG \<Rightarrow> SessionManager \<Rightarrow> 'w \<Rightarrow>
     ((u32 \<times> unit \<times> SessionManager) \<times> 'w) outcome option" where
  "HDCPConfig os mem hdcpHandle config sm w =
     (if cfg_type config = INVALID_CONFIG then ret ((st HDCP_STATUS_ERROR_INVALID_PARAMETER, (), sm), w)
      else with_session os hdcpHandle () (\<lambda>s w. plain (Session_Config os mem s config w)) sm w)"

end
