(* ===== verification/ClientSafety.thy ===== *)
theory ClientSafety
  imports HdcpApi
begin

text \<open>
  What the client library keeps between the calls of an application: the store holds exactly the
  sessions in the list, nothing is referenced or queued, and no mutex is held. Under this invariant the
  functions of the manager have closed forms, on which the properties of the library rest.
\<close>

section \<open>The invariant and the sessions of a state\<close>

definition sm_inv :: "SessionManager \<Rightarrow> bool" where
  "sm_inv sm \<longleftrightarrow> distinct (sm_SessionList sm) \<and> dom (sm_Heap sm) = set (sm_SessionList sm) \<and>
     (\<forall>p s. sm_Heap sm p = Some s \<longrightarrow> ss_ActiveReferences s = 0 \<and> p < sm_NextAddress sm) \<and>
     sm_PendingDestroyQueue sm = [] \<and> sm_IteratorReference sm = 0 \<and>
     \<not> sm_IteratorMutex sm \<and> \<not> sm_HandleIncrementorMutex sm"

text \<open>The table of sessions that the lists and the store stand for.\<close>

definition sessions :: "SessionManager \<Rightarrow> HdcpSession list" where
  "sessions sm = map (\<lambda>p. the (sm_Heap sm p)) (sm_SessionList sm)"

definition has_handle :: "SessionManager \<Rightarrow> u32 \<Rightarrow> nat \<Rightarrow> bool" where
  "has_handle sm h p \<longleftrightarrow> ss_Handle (the (sm_Heap sm p)) = h"

lemma sm_inv_live:
  assumes "sm_inv sm" "p \<in> set (sm_SessionList sm)"
  obtains s where "sm_Heap sm p = Some s" "ss_ActiveReferences s = 0"
proof -
  from assms obtain s where "sm_Heap sm p = Some s" by (force simp: sm_inv_def)
  with assms that show ?thesis by (auto simp: sm_inv_def)
qed

lemma find_session_eq:
  "\<forall>p \<in> set ps. sm_Heap sm p \<noteq> None \<Longrightarrow> find_session sm h ps = Ret (find (has_handle sm h) ps)"
  by (induction ps) (auto simp: deref_def has_handle_def)

lemma sm_inv_find: "sm_inv sm \<Longrightarrow> find_session sm h (sm_SessionList sm) = Ret (find (has_handle sm h) (sm_SessionList sm))"
  by (rule find_session_eq) (auto elim: sm_inv_live)

lemma find_in: "find P ps = Some p \<Longrightarrow> p \<in> set ps \<and> P p"
  by (auto simp: find_Some_iff)

lemma sm_start_inv: "sm_inv sm_start"
  by (simp add: sm_inv_def sm_start_def)

section \<open>The manager's functions under the invariant\<close>

lemma Enter_eq: "\<not> sm_IteratorMutex sm \<Longrightarrow>
    IteratorCriticalSectionEnter sm = ret (sm\<lparr>sm_IteratorReference := sm_IteratorReference sm + 1\<rparr>)"
  by (simp add: IteratorCriticalSectionEnter_def lock_iterator_def unlock_iterator_def)

lemma Exit_eq: "\<not> sm_IteratorMutex sm \<Longrightarrow> sm_PendingDestroyQueue sm = [] \<Longrightarrow>
    IteratorCriticalSectionExit os sm w = ret (sm\<lparr>sm_IteratorReference := sm_IteratorReference sm - 1\<rparr>, w)"
  by (simp add: IteratorCriticalSectionExit_def lock_iterator_def unlock_iterator_def Let_def)

definition referenced :: "nat \<Rightarrow> SessionManager \<Rightarrow> SessionManager" where
  "referenced p sm = sm\<lparr>sm_Heap := (sm_Heap sm)(p \<mapsto> IncreaseReference (the (sm_Heap sm p)))\<rparr>"

lemma GetInstance_eq:
  assumes "sm_inv sm"
  shows "GetInstance os h sm w = (case find (has_handle sm h) (sm_SessionList sm) of
      None \<Rightarrow> ret ((None, sm), w) | Some p \<Rightarrow> ret ((Some p, referenced p sm), w))"
proof -
  have i: "\<not> sm_IteratorMutex sm" "sm_PendingDestroyQueue sm = []" "sm_IteratorReference sm = 0"
    using assms by (simp_all add: sm_inv_def)
  let ?sm = "sm\<lparr>sm_IteratorReference := 1\<rparr>"
  have f: "find_session ?sm h (sm_SessionList sm) = Ret (find (has_handle sm h) (sm_SessionList sm))"
    using find_session_eq [of "sm_SessionList sm" ?sm h] assms
    by (force simp: has_handle_def [abs_def] elim: sm_inv_live)
  show ?thesis
  proof (cases "find (has_handle sm h) (sm_SessionList sm)")
    case None
    with f i show ?thesis by (simp add: GetInstance_def Enter_eq Exit_eq)
  next
    case (Some p)
    from find_in [OF Some] assms obtain s where "sm_Heap sm p = Some s" by (blast elim: sm_inv_live)
    with f i Some show ?thesis
      by (simp add: GetInstance_def Enter_eq Exit_eq upd_session_def deref_def referenced_def)
  qed
qed

lemma PutInstance_eq:
  assumes "sm_inv sm" "find (has_handle sm h) (sm_SessionList sm) = Some p"
  shows "PutInstance os h (referenced p sm) w = ret (sm, w)"
proof -
  have i: "\<not> sm_IteratorMutex sm" "sm_PendingDestroyQueue sm = []" "sm_IteratorReference sm = 0"
    using assms by (simp_all add: sm_inv_def)
  from find_in [OF assms(2)] assms(1) obtain s where s: "sm_Heap sm p = Some s" by (blast elim: sm_inv_live)
  let ?sm = "(referenced p sm)\<lparr>sm_IteratorReference := 1\<rparr>"
  have "has_handle ?sm h = has_handle sm h"
    by (auto simp: has_handle_def fun_eq_iff referenced_def IncreaseReference_def)
  moreover have "\<forall>q \<in> set (sm_SessionList sm). sm_Heap ?sm q \<noteq> None"
    using assms(1) by (force simp: referenced_def elim: sm_inv_live)
  ultimately have f: "find_session ?sm h (sm_SessionList sm) = Ret (Some p)"
    using find_session_eq [of "sm_SessionList sm" ?sm h] assms(2) by simp
  have "DecreaseReference (IncreaseReference s) = s"
    by (simp add: IncreaseReference_def DecreaseReference_def)
  then have "(sm_Heap sm)(p \<mapsto> DecreaseReference (IncreaseReference s)) = sm_Heap sm"
    using s by (simp add: fun_upd_idem)
  then show ?thesis using f i s
    by (simp add: PutInstance_def Enter_eq Exit_eq referenced_def upd_session_def deref_def)
qed

text \<open>A request does not change the manager: the session it uses is referenced only meanwhile.\<close>

lemma with_session_eq:
  assumes "sm_inv sm"
  shows "with_session os h out f sm w = (case find (has_handle sm h) (sm_SessionList sm) of
      None \<Rightarrow> ret ((st HDCP_STATUS_ERROR_INTERNAL, out, sm), w)
    | Some p \<Rightarrow> obind (f (ss_SdkSocket (the (sm_Heap sm p))) w) (\<lambda>((sts, out), w). ret ((sts, out, sm), w)))"
proof (cases "find (has_handle sm h) (sm_SessionList sm)")
  case None
  then show ?thesis by (simp add: with_session_def GetInstance_eq [OF assms])
next
  case (Some p)
  then have "deref (referenced p sm) p = Ret (IncreaseReference (the (sm_Heap sm p)))"
    by (simp add: deref_def referenced_def)
  then show ?thesis using Some
    by (simp add: with_session_def GetInstance_eq [OF assms] PutInstance_eq [OF assms Some] IncreaseReference_def)
qed

lemma delete_session_eq:
  assumes "sm_Heap sm p = Some s" "ss_ActiveReferences s = 0"
  shows "delete_session os p sm w =
    ret (sm\<lparr>sm_Heap := (sm_Heap sm)(p := None)\<rparr>, GenericStreamSocket_delete os (ss_SdkSocket s) w)"
  using assms by (simp add: delete_session_def deref_def HdcpSession_delete_def)

definition without :: "nat \<Rightarrow> SessionManager \<Rightarrow> SessionManager" where
  "without p sm = sm\<lparr>sm_SessionList := filter (\<lambda>q. q \<noteq> p) (sm_SessionList sm), sm_Heap := (sm_Heap sm)(p := None)\<rparr>"

lemma without_inv: "sm_inv sm \<Longrightarrow> sm_inv (without p sm)"
  unfolding sm_inv_def without_def by auto

lemma DestroySession_eq:
  assumes "sm_inv sm"
  shows "DestroySession os h sm w = (case find (has_handle sm h) (sm_SessionList sm) of
      None \<Rightarrow> ret (sm, w)
    | Some p \<Rightarrow> ret (without p sm, GenericStreamSocket_delete os (ss_SdkSocket (the (sm_Heap sm p))) w))"
proof -
  have i: "\<not> sm_IteratorMutex sm" "sm_IteratorReference sm = 0" using assms by (simp_all add: sm_inv_def)
  let ?sm = "sm\<lparr>sm_IteratorMutex := True\<rparr>"
  have f: "find_session ?sm h (sm_SessionList sm) = Ret (find (has_handle sm h) (sm_SessionList sm))"
    using find_session_eq [of "sm_SessionList sm" ?sm h] assms
    by (force simp: has_handle_def [abs_def] elim: sm_inv_live)
  show ?thesis
  proof (cases "find (has_handle sm h) (sm_SessionList sm)")
    case None
    with f i show ?thesis by (simp add: DestroySession_def lock_iterator_def unlock_iterator_def)
  next
    case (Some p)
    from find_in [OF Some] assms obtain s where "sm_Heap sm p = Some s" "ss_ActiveReferences s = 0"
      by (blast elim: sm_inv_live)
    with f i Some show ?thesis
      by (simp add: DestroySession_def lock_iterator_def unlock_iterator_def delete_session_eq
          remove_session_def without_def)
  qed
qed

section \<open>Creating a session\<close>

lemma unlocked_same [simp]:
  "\<not> sm_IteratorMutex sm \<Longrightarrow> sm\<lparr>sm_IteratorMutex := False\<rparr> = sm"
  "\<not> sm_HandleIncrementorMutex sm \<Longrightarrow> sm\<lparr>sm_HandleIncrementorMutex := False\<rparr> = sm"
  by (cases sm; simp)+

text \<open>Setting up the callback channel changes the two fields of the channel only.\<close>

definition with_channel :: "GenericStreamSocket option \<Rightarrow> bool \<Rightarrow> SessionManager \<Rightarrow> SessionManager" where
  "with_channel cs b sm = sm\<lparr>sm_CallBackSocket := cs, sm_IsCallBackInitialized := b\<rparr>"

lemma with_channel_same:
  "sm = with_channel (sm_CallBackSocket sm) (sm_IsCallBackInitialized sm) sm"
  "sm\<lparr>sm_CallBackSocket := cs\<rparr> = with_channel cs (sm_IsCallBackInitialized sm) sm"
  by (cases sm; simp add: with_channel_def)+

lemma InitCallBack_frame:
  assumes "InitCallBack os mem sm w = ret ((sts, sm'), w')"
  shows "\<exists>cs b. sm' = with_channel cs b sm"
proof -
  have "sm' = sm \<or> (\<exists>cs. sm' = sm\<lparr>sm_CallBackSocket := cs\<rparr>) \<or> (\<exists>cs. sm' = with_channel cs True sm)"
    using assms unfolding InitCallBack_def Let_def with_channel_def
    by (auto elim!: hdcp_elims split: prod.splits if_splits; blast)
  with with_channel_same(1) [of sm] with_channel_same(2) [where sm = sm] show ?thesis by metis
qed

text \<open>
  The manager with the new session \<open>s\<close>, and without it; \<open>cs\<close> and \<open>b\<close> are what became of the
  callback channel, \<open>n\<close> says whether an address was used.
\<close>

definition attempted ::
  "GenericStreamSocket option \<Rightarrow> bool \<Rightarrow> nat \<Rightarrow> SessionManager \<Rightarrow> SessionManager" where
  "attempted cs b n sm = sm\<lparr>sm_HandleIncrementor := sm_HandleIncrementor sm + 1,
     sm_CallBackSocket := cs, sm_IsCallBackInitialized := b, sm_NextAddress := sm_NextAddress sm + n\<rparr>"

definition created :: "HdcpSession \<Rightarrow> SessionManager \<Rightarrow> SessionManager" where
  "created s sm = sm\<lparr>sm_SessionList := sm_NextAddress sm # sm_SessionList sm,
     sm_Heap := (sm_Heap sm)(sm_NextAddress sm \<mapsto> s), sm_NextAddress := sm_NextAddress sm + 1\<rparr>"

lemma fresh_address: "sm_inv sm \<Longrightarrow> sm_Heap sm (sm_NextAddress sm) = None \<and>
    sm_NextAddress sm \<notin> set (sm_SessionList sm)"
  unfolding sm_inv_def by (metis domIff less_irrefl not_None_eq)

lemma attempted_inv: "sm_inv sm \<Longrightarrow> sm_inv (attempted cs b n sm)"
  unfolding sm_inv_def attempted_def by (auto simp: less_imp_le_nat trans_less_add1)

lemma created_inv: "sm_inv sm \<Longrightarrow> ss_ActiveReferences s = 0 \<Longrightarrow> sm_inv (created s sm)"
  using fresh_address [of sm] unfolding sm_inv_def created_def by (auto simp: less_Suc_eq)

lemma sessions_attempted [simp]: "sessions (attempted cs b n sm) = sessions sm"
  by (simp add: sessions_def attempted_def)

lemma sessions_created: "sm_inv sm \<Longrightarrow> sessions (created s sm) = s # sessions sm"
  using fresh_address [of sm] by (auto simp: sessions_def created_def)

lemma without_created:
  assumes "sm_inv sm"
  shows "without (sm_NextAddress sm) (created s sm) = sm\<lparr>sm_NextAddress := sm_NextAddress sm + 1\<rparr>"
proof -
  have "filter (\<lambda>q. q \<noteq> sm_NextAddress sm) (sm_SessionList sm) = sm_SessionList sm"
    using fresh_address [OF assms] by (auto simp: filter_id_conv)
  with fresh_address [OF assms] show ?thesis
    by (cases sm) (simp add: without_def created_def fun_upd_idem)
qed

lemma HdcpSession_new_fields:
  "HdcpSession_new os h func ctx w = (s, w') \<Longrightarrow>
     ss_Handle s = h \<and> ss_CallBack s = func \<and> ss_Context s = ctx \<and> ss_ActiveReferences s = 0"
  by (auto simp: HdcpSession_new_def Let_def split: prod.splits if_splits)

lemma AddSession_cases:
  assumes "AddSession os handle func ctx sm w = ret ((h, sm'), w')" "sm_inv sm"
  obtains (failed) n where "h = BAD_SESSION_HANDLE" "sm' = sm\<lparr>sm_NextAddress := sm_NextAddress sm + n\<rparr>"
  | (created) s where "h = handle" "sm' = created s sm" "ss_Handle s = handle" "ss_CallBack s = func"
      "ss_Context s = ctx" "ss_ActiveReferences s = 0"
proof -
  have i: "\<not> sm_IteratorMutex sm" using assms(2) by (simp add: sm_inv_def)
  obtain ok w1 where o: "os_new os 1 w = (ok, w1)" by fastforce
  obtain s w2 where n: "HdcpSession_new os handle func ctx w1 = (s, w2)" by fastforce
  note f = HdcpSession_new_fields [OF n]
  show thesis
  proof (cases "ok \<and> ss_IsValid s")
    case True
    then have "AddSession os handle func ctx sm w = ret ((handle, created s sm), w2)"
      using o n i by (simp add: AddSession_def lock_iterator_def unlock_iterator_def created_def Let_def)
    with assms(1) f created show thesis by auto
  next
    case False
    let ?p = "sm_NextAddress sm"
    have h: "(sm_Heap sm)(?p := None) = sm_Heap sm"
      using fresh_address [OF assms(2)] by (simp add: fun_upd_idem)
    show thesis
    proof (cases ok)
      case ok: True
      let ?sm = "sm\<lparr>sm_Heap := (sm_Heap sm)(?p \<mapsto> s), sm_NextAddress := ?p + 1\<rparr>"
      have "delete_session os ?p ?sm w2 = ret (sm\<lparr>sm_NextAddress := ?p + 1\<rparr>,
          GenericStreamSocket_delete os (ss_SdkSocket s) w2)"
        using h f by (cases sm) (simp add: delete_session_eq)
      with assms(1) o n ok False have "h = BAD_SESSION_HANDLE" "sm' = sm\<lparr>sm_NextAddress := ?p + 1\<rparr>"
        by (auto simp: AddSession_def Let_def)
      then show thesis by (rule failed)
    next
      case False
      then have "h = BAD_SESSION_HANDLE" "sm' = sm\<lparr>sm_NextAddress := ?p + 0\<rparr>"
        using assms(1) o by (auto simp: AddSession_def)
      then show thesis by (rule failed)
    qed
  qed
qed

text \<open>Once the channel was set up it is never touched again by creating sessions.\<close>

definition keeps_channel :: "SessionManager \<Rightarrow> GenericStreamSocket option \<Rightarrow> bool \<Rightarrow> bool" where
  "keeps_channel sm cs b \<longleftrightarrow> (sm_IsCallBackInitialized sm \<longrightarrow> cs = sm_CallBackSocket sm \<and> b)"

lemma EnsureCallBack_frame:
  assumes "EnsureCallBack os mem sm w = ret ((sts, sm'), w')" "\<not> sm_HandleIncrementorMutex sm"
  shows "\<exists>cs b. sm' = with_channel cs b sm \<and> keeps_channel sm cs b"
proof (cases "sm_IsCallBackInitialized sm")
  case True
  with assms(1) have "sm' = sm" by (simp add: EnsureCallBack_def)
  with with_channel_same(1) [of sm] True show ?thesis
    by (metis keeps_channel_def)
next
  case False
  with assms obtain sm2 where r: "InitCallBack os mem (sm\<lparr>sm_HandleIncrementorMutex := True\<rparr>) w = ret ((sts, sm2), w')"
    and sm': "sm' = sm2\<lparr>sm_HandleIncrementorMutex := False\<rparr>"
    by (auto simp: EnsureCallBack_def lock_handle_def unlock_handle_def elim!: hdcp_elims split: if_splits)
  from InitCallBack_frame [OF r] obtain cs b where
    "sm2 = with_channel cs b (sm\<lparr>sm_HandleIncrementorMutex := True\<rparr>)" by blast
  then have "sm' = with_channel cs b sm" using sm' assms(2) by (cases sm) (simp add: with_channel_def)
  with False show ?thesis by (auto simp: keeps_channel_def)
qed

lemma CreateSession_cases:
  assumes "CreateSession os mem func ctx sm w = ret ((h, sm'), w')" "sm_inv sm"
  obtains (failed) cs b n where "h = BAD_SESSION_HANDLE" "sm' = attempted cs b n sm" "keeps_channel sm cs b"
  | (created) cs b s where "h = sm_HandleIncrementor sm" "sm' = created s (attempted cs b 0 sm)"
      "keeps_channel sm cs b"
      "ss_Handle s = h" "ss_CallBack s = func" "ss_Context s = ctx" "ss_ActiveReferences s = 0"
proof -
  have i: "\<not> sm_HandleIncrementorMutex sm" using assms(2) by (simp add: sm_inv_def)
  let ?sm = "sm\<lparr>sm_HandleIncrementor := sm_HandleIncrementor sm + 1\<rparr>"
  have g: "GetUniqueHandle sm = ret (sm_HandleIncrementor sm, ?sm)"
    using i by (cases sm) (simp add: GetUniqueHandle_def lock_handle_def unlock_handle_def Let_def)
  from assms(1) obtain sts sm1 w1 where e: "EnsureCallBack os mem ?sm w = ret ((sts, sm1), w1)"
    and rest: "sts \<noteq> SUCCESS \<and> h = BAD_SESSION_HANDLE \<and> sm' = sm1 \<or>
      AddSession os (sm_HandleIncrementor sm) func ctx sm1 w1 = ret ((h, sm'), w')"
    by (auto simp: CreateSession_def g elim!: hdcp_elims split: if_splits)
  from EnsureCallBack_frame [OF e] i obtain cs b where "sm1 = with_channel cs b ?sm"
    and k: "keeps_channel sm cs b" by (auto simp: keeps_channel_def)
  then have sm1: "sm1 = attempted cs b 0 sm"
    by (cases sm) (simp add: with_channel_def attempted_def)
  have inv: "sm_inv sm1" using attempted_inv [OF assms(2)] sm1 by simp
  from rest show thesis
  proof
    assume "sts \<noteq> SUCCESS \<and> h = BAD_SESSION_HANDLE \<and> sm' = sm1"
    with sm1 failed k show thesis by simp
  next
    assume "AddSession os (sm_HandleIncrementor sm) func ctx sm1 w1 = ret ((h, sm'), w')"
    from this inv show thesis
    proof (cases rule: AddSession_cases)
      case (failed n)
      have "sm1\<lparr>sm_NextAddress := sm_NextAddress sm1 + n\<rparr> = attempted cs b n sm"
        by (simp add: sm1 attempted_def)
      with failed that(1) k show thesis by simp
    next
      case (created s)
      with sm1 that(2) k show thesis by simp
    qed
  qed
qed

section \<open>The functions of the interface\<close>

lemma attempted_more: "(attempted cs b 0 sm)\<lparr>sm_NextAddress := sm_NextAddress (attempted cs b 0 sm) + 1\<rparr> =
    attempted cs b 1 sm"
  by (simp add: attempted_def)

lemma find_created:
  "find (has_handle (created s sm) (ss_Handle s)) (sm_SessionList (created s sm)) = Some (sm_NextAddress sm)"
  by (simp add: created_def has_handle_def)

lemma HDCPCreate_cases:
  assumes "HDCPCreate os mem (Some x) func ctx sm w = ret ((sts, ph, sm'), w')" "sm_inv sm"
  obtains (made) cs b s where "sts = st HDCP_STATUS_SUCCESSFUL" "ph = Some (sm_HandleIncrementor sm)"
      "sm' = created s (attempted cs b 0 sm)" "keeps_channel sm cs b" "ss_Handle s = sm_HandleIncrementor sm"
      "ss_CallBack s = func" "ss_Context s = ctx" "ss_ActiveReferences s = 0"
  | (not_made) cs b n where "sts \<noteq> st HDCP_STATUS_SUCCESSFUL" "ph = Some 0" "sm' = attempted cs b n sm"
      "keeps_channel sm cs b"
  | (lost) cs b s where "sm_HandleIncrementor sm = BAD_SESSION_HANDLE" "sts \<noteq> st HDCP_STATUS_SUCCESSFUL"
      "ph = Some 0" "sm' = created s (attempted cs b 0 sm)" "ss_ActiveReferences s = 0"
      "ss_Handle s = sm_HandleIncrementor sm" "keeps_channel sm cs b"
proof -
  from assms(1) obtain h sm1 w1 where c: "CreateSession os mem func ctx sm w = ret ((h, sm1), w1)"
    by (auto simp: HDCPCreate_def elim!: hdcp_elims)
  from c assms(2) show thesis
  proof (cases rule: CreateSession_cases)
    case (failed cs b n)
    with assms(1) c have "sts = st HDCP_STATUS_ERROR_INSUFFICIENT_MEMORY" "ph = Some 0" "sm' = attempted cs b n sm"
      by (auto simp: HDCPCreate_def)
    with not_made failed(3) show thesis by simp
  next
    case (created cs b s)
    let ?sm = "attempted cs b 0 sm"
    have inv: "sm_inv ?sm" "sm_inv sm1"
      using attempted_inv [OF assms(2)] created_inv created(2,7) by simp_all
    show thesis
    proof (cases "h = BAD_SESSION_HANDLE")
      case True
      with assms(1) c have "sts = st HDCP_STATUS_ERROR_INSUFFICIENT_MEMORY" "ph = Some 0" "sm' = sm1"
        by (auto simp: HDCPCreate_def)
      with created True lost show thesis by simp
    next
      case False
      let ?p = "sm_NextAddress ?sm"
      have f: "find (has_handle sm1 h) (sm_SessionList sm1) = Some ?p"
        using find_created [of s ?sm] created by simp
      note g = GetInstance_eq [OF inv(2), of os h, unfolded f, simplified]
      note u = PutInstance_eq [OF inv(2) f]
      note d = DestroySession_eq [OF inv(2), of os h, unfolded f, simplified]
      from assms(1) c False have "sts = st HDCP_STATUS_SUCCESSFUL \<and> ph = Some h \<and> sm' = sm1 \<or>
         sts \<noteq> st HDCP_STATUS_SUCCESSFUL \<and> ph = Some 0 \<and> sm' = without ?p sm1"
        by (auto simp: HDCPCreate_def g u d elim!: hdcp_elims split: if_splits)
      then show thesis
      proof
        assume "sts = st HDCP_STATUS_SUCCESSFUL \<and> ph = Some h \<and> sm' = sm1"
        with created made show thesis by simp
      next
        assume n: "sts \<noteq> st HDCP_STATUS_SUCCESSFUL \<and> ph = Some 0 \<and> sm' = without ?p sm1"
        have "without ?p sm1 = attempted cs b 1 sm"
          using without_created [OF inv(1), of s] attempted_more [of cs b sm] created(2) by simp
        with n not_made created(3) show thesis by simp
      qed
    qed
  qed
qed

lemma destroy_sessions_eq:
  "distinct ps \<Longrightarrow> \<forall>p \<in> set ps. \<exists>s. sm_Heap sm p = Some s \<and> ss_ActiveReferences s = 0 \<Longrightarrow>
   \<exists>w'. destroy_sessions os ps sm w = ret (sm\<lparr>sm_SessionList := filter (\<lambda>q. q \<notin> set ps) (sm_SessionList sm),
      sm_Heap := sm_Heap sm |` (- set ps)\<rparr>, w')"
proof (induction ps arbitrary: sm w)
  case Nil
  then show ?case by simp
next
  case (Cons p ps)
  then obtain s where s: "sm_Heap sm p = Some s" "ss_ActiveReferences s = 0" by auto
  let ?sm = "without p sm"
  have e: "filter (\<lambda>q. q \<noteq> p) ps = ps" using Cons.prems(1) by (auto simp: filter_id_conv)
  have "\<forall>q \<in> set ps. \<exists>s. sm_Heap ?sm q = Some s \<and> ss_ActiveReferences s = 0"
    using Cons.prems by (auto simp: without_def)
  from Cons.IH [OF _ this, of "GenericStreamSocket_delete os (ss_SdkSocket s) w"] Cons.prems(1)
  obtain w' where "destroy_sessions os ps ?sm (GenericStreamSocket_delete os (ss_SdkSocket s) w) =
      ret (?sm\<lparr>sm_SessionList := filter (\<lambda>q. q \<notin> set ps) (sm_SessionList ?sm),
        sm_Heap := sm_Heap ?sm |` (- set ps)\<rparr>, w')" by auto
  moreover have "sm_Heap ?sm |` (- set ps) = sm_Heap sm |` (- set (p # ps))"
    by (auto simp: without_def restrict_map_def fun_eq_iff)
  moreover have "filter (\<lambda>q. q \<notin> set ps) (sm_SessionList ?sm) = filter (\<lambda>q. q \<notin> set (p # ps)) (sm_SessionList sm)"
    by (simp add: without_def)
  moreover have "remove_session p (sm\<lparr>sm_Heap := (sm_Heap sm)(p := None)\<rparr>) = ?sm"
    by (simp add: remove_session_def without_def)
  moreover have "?sm\<lparr>sm_SessionList := l, sm_Heap := m\<rparr> = sm\<lparr>sm_SessionList := l, sm_Heap := m\<rparr>" for l m
    by (simp add: without_def)
  ultimately show ?case
    using s e by (simp add: delete_session_eq)
qed

definition emptied :: "SessionManager \<Rightarrow> SessionManager" where
  "emptied sm = sm\<lparr>sm_SessionList := [], sm_Heap := Map.empty, sm_CallBackSocket := None\<rparr>"

lemma emptied_inv: "sm_inv sm \<Longrightarrow> sm_inv (emptied sm)"
  by (simp add: sm_inv_def emptied_def)

lemma DestroyCallback_eq:
  assumes "sm_inv sm"
  shows "\<exists>w'. DestroyCallback os sm w = ret (emptied sm, w')"
proof -
  let ?sm = "sm\<lparr>sm_IteratorMutex := True\<rparr>"
  have i: "\<not> sm_IteratorMutex sm" using assms by (simp add: sm_inv_def)
  have "\<forall>p \<in> set (sm_SessionList sm). \<exists>s. sm_Heap ?sm p = Some s \<and> ss_ActiveReferences s = 0"
    using assms by (auto elim: sm_inv_live)
  moreover have "distinct (sm_SessionList sm)" using assms by (simp add: sm_inv_def)
  ultimately obtain w' where d: "destroy_sessions os (sm_SessionList sm) ?sm w =
      ret (?sm\<lparr>sm_SessionList := filter (\<lambda>q. q \<notin> set (sm_SessionList sm)) (sm_SessionList sm),
        sm_Heap := sm_Heap sm |` (- set (sm_SessionList sm))\<rparr>, w')"
    using destroy_sessions_eq [of "sm_SessionList sm" ?sm os w] by auto
  have "filter (\<lambda>q. q \<notin> set (sm_SessionList sm)) (sm_SessionList sm) = []" by (simp add: filter_empty_conv)
  moreover have "sm_Heap sm |` (- set (sm_SessionList sm)) = Map.empty"
    using assms by (auto simp: sm_inv_def restrict_map_def fun_eq_iff domIff)
  ultimately show ?thesis using d i
    by (cases sm) (simp add: DestroyCallback_def lock_iterator_def unlock_iterator_def emptied_def Let_def)
qed

section \<open>Any use of the interface\<close>

text \<open>A call of an application, or a turn of the callback thread between two calls.\<close>

datatype client_op =
  Cl_Create "nat option" nat | Cl_Destroy u32 | Cl_EnumerateDisplay u32 "PortList option"
| Cl_SetProtectionLevel u32 u32 u32 | Cl_GetStatus u32 u32 "u32 option"
| Cl_GetKsvList u32 u32 "u8 option" "u8 option" "u8 list option"
| Cl_SendSRMData u32 u32 "u8 list option" | Cl_GetSRMVersion u32 "u16 option"
| Cl_Config u32 HDCP_CONFIG | Cl_CallBack

text \<open>The status of a call, its result left out.\<close>

definition just_status ::
  "((u32 \<times> 'o \<times> SessionManager) \<times> 'w) outcome option \<Rightarrow> ((int \<times> SessionManager) \<times> 'w) outcome option" where
  "just_status m = obind m (\<lambda>((sts, _, sm), w). ret ((uint sts, sm), w))"

primrec client_exec ::
  "'w os_api \<Rightarrow> ('w \<Rightarrow> SocketData) \<Rightarrow> (nat \<Rightarrow> u32 \<Rightarrow> u32 \<Rightarrow> u32 \<Rightarrow> nat \<Rightarrow> 'w \<Rightarrow> 'w) \<Rightarrow> client_op \<Rightarrow>
     SessionManager \<Rightarrow> 'w \<Rightarrow> ((int \<times> SessionManager) \<times> 'w) outcome option" where
  "client_exec os mem app (Cl_Create func ctx) sm w =
     just_status (HDCPCreate os mem (Some 0) func ctx sm w)"
| "client_exec os mem app (Cl_Destroy h) sm w =
     obind (HDCPDestroy os h sm w) (\<lambda>((sts, sm), w). ret ((uint sts, sm), w))"
| "client_exec os mem app (Cl_EnumerateDisplay h pl) sm w = just_status (HDCPEnumerateDisplay os mem h pl sm w)"
| "client_exec os mem app (Cl_SetProtectionLevel h p l) sm w =
     just_status (HDCPSetProtectionLevel os mem h p l sm w)"
| "client_exec os mem app (Cl_GetStatus h p s) sm w = just_status (HDCPGetStatus os mem h p s sm w)"
| "client_exec os mem app (Cl_GetKsvList h p n d l) sm w = just_status (HDCPGetKsvList os mem h p n d l sm w)"
| "client_exec os mem app (Cl_SendSRMData h n bs) sm w = just_status (HDCPSendSRMData os mem h n bs sm w)"
| "client_exec os mem app (Cl_GetSRMVersion h v) sm w = just_status (HDCPGetSRMVersion os mem h v sm w)"
| "client_exec os mem app (Cl_Config h c) sm w = just_status (HDCPConfig os mem h c sm w)"
| "client_exec os mem app Cl_CallBack sm w =
     obind (CallBackManager_turn os mem app sm w) (\<lambda>((b, sm), w). ret ((0, sm), w))"

lemma with_session_same:
  "with_session os h out f sm w = ret ((sts, out', sm'), w') \<Longrightarrow> sm_inv sm \<Longrightarrow> sm' = sm"
  by (auto simp: with_session_eq elim!: hdcp_elims split: option.splits)

lemma requests_same:
  assumes "sm_inv sm"
  shows "HDCPEnumerateDisplay os mem h pl sm w = ret ((sts, out1, sm'), w') \<Longrightarrow> sm' = sm"
    "HDCPSetProtectionLevel os mem h p l sm w = ret ((sts, out2, sm'), w') \<Longrightarrow> sm' = sm"
    "HDCPGetStatus os mem h p s sm w = ret ((sts, out3, sm'), w') \<Longrightarrow> sm' = sm"
    "HDCPGetKsvList os mem h p n d ks sm w = ret ((sts, out4, sm'), w') \<Longrightarrow> sm' = sm"
    "HDCPSendSRMData os mem h m bs sm w = ret ((sts, out5, sm'), w') \<Longrightarrow> sm' = sm"
    "HDCPGetSRMVersion os mem h v sm w = ret ((sts, out6, sm'), w') \<Longrightarrow> sm' = sm"
    "HDCPConfig os mem h c sm w = ret ((sts, out7, sm'), w') \<Longrightarrow> sm' = sm"
  using assms
  by (auto simp: HDCPEnumerateDisplay_def HDCPSetProtectionLevel_def HDCPGetStatus_def HDCPGetKsvList_def
      HDCPSendSRMData_def HDCPGetSRMVersion_def HDCPConfig_def Let_def
      elim!: hdcp_elims split: option.splits if_splits dest: with_session_same)

lemma CallBackManager_turn_cases:
  assumes "CallBackManager_turn os mem app sm w = ret ((b, sm'), w')" "sm_inv sm"
  shows "b \<and> sm' = sm \<or> \<not> b \<and> sm' = emptied sm"
proof -
  have i: "\<not> sm_IteratorMutex sm" "sm_PendingDestroyQueue sm = []" "sm_IteratorReference sm = 0"
    using assms(2) by (simp_all add: sm_inv_def)
  have same: "sm\<lparr>sm_IteratorReference := 0\<rparr> = sm" using i(3) by (cases sm) simp
  have d: "DestroyCallback os sm u = ret (sm2, u') \<Longrightarrow> sm2 = emptied sm" for u sm2 u'
    using DestroyCallback_eq [OF assms(2), of os u] by auto
  from assms(1) i same show ?thesis
    by (auto simp: CallBackManager_turn_def Enter_eq Exit_eq elim!: hdcp_elims split: option.splits if_splits
        dest: d)
qed

lemma client_exec_cases:
  assumes "client_exec os mem app x sm w = ret ((r, sm'), w')" "sm_inv sm"
  obtains (kept) "sm' = sm"
  | (attempted) cs b n where "sm' = attempted cs b n sm" "keeps_channel sm cs b"
  | (created) cs b s where "sm' = created s (attempted cs b 0 sm)" "keeps_channel sm cs b" "ss_Handle s = sm_HandleIncrementor sm"
      "ss_ActiveReferences s = 0"
  | (removed) p where "sm' = without p sm"
  | (emptied) "sm' = emptied sm"
proof (cases x)
  case (Cl_Create func ctx)
  with assms(1) obtain sts ph where "HDCPCreate os mem (Some 0) func ctx sm w = ret ((sts, ph, sm'), w')"
    by (auto simp: just_status_def elim!: hdcp_elims)
  from this assms(2) show thesis
    by (cases rule: HDCPCreate_cases) (use attempted created in \<open>simp_all\<close>)
next
  case (Cl_Destroy h)
  with assms show thesis
    by (auto simp: HDCPDestroy_def DestroySession_eq elim!: hdcp_elims split: option.splits intro: kept removed)
next
  case Cl_CallBack
  with assms(1) obtain b where "CallBackManager_turn os mem app sm w = ret ((b, sm'), w')"
    by (auto elim!: hdcp_elims)
  from CallBackManager_turn_cases [OF this assms(2)] kept emptied show thesis by blast
qed (use assms(1) in \<open>auto simp: just_status_def elim!: hdcp_elims dest!: requests_same [OF assms(2)] intro!: kept\<close>)

lemma client_exec_inv:
  assumes "client_exec os mem app x sm w = ret ((r, sm'), w')" "sm_inv sm"
  shows "sm_inv sm'"
  using assms
  by (cases rule: client_exec_cases)
    (use assms(2) attempted_inv created_inv without_inv emptied_inv in auto)

interpretation client: inv_system "client_exec os mem app" "\<lambda>_. True" sm_inv
  for os :: "'w os_api" and mem :: "'w \<Rightarrow> SocketData"
    and app :: "nat \<Rightarrow> u32 \<Rightarrow> u32 \<Rightarrow> u32 \<Rightarrow> nat \<Rightarrow> 'w \<Rightarrow> 'w"
  by unfold_locales (rule client_exec_inv)

end
