(* ===== verification/Srm.thy ===== *)
theory Srm
  imports Hdcp_Platform
begin

text \<open>
  The SRM module of the daemon (\<^verbatim>\<open>daemon/srm.cpp\<close>, \<^verbatim>\<open>daemon/srm.h\<close>): the DSA check of a System
  Renewability Message, the parser of its vector revocation lists, the table that keeps the
  newest message, the look-up of a KSV, and the module functions that own the one table.
  Buffers are byte lists, indices and lengths have the code's width and every read is checked.
\<close>

section \<open>Constants\<close>

abbreviation (input) SRM_STORAGE_FILENAME :: string where
  "SRM_STORAGE_FILENAME \<equiv> ''/var/run/hdcp/.hdcpsrmlist.bin''"

abbreviation (input) DSA_SIG_LENGTH :: nat where "DSA_SIG_LENGTH \<equiv> 20"
abbreviation (input) SRM_HEADER_LENGTH :: nat where "SRM_HEADER_LENGTH \<equiv> 5"
abbreviation (input) SRM_HEADER_ID :: u8 where "SRM_HEADER_ID \<equiv> 8"
abbreviation (input) DSA_SUCCESS :: int where "DSA_SUCCESS \<equiv> 1"
abbreviation (input) SRM_FIRST_GEN_MAX_SIZE :: u32 where "SRM_FIRST_GEN_MAX_SIZE \<equiv> 5116"

text \<open>The DSA parameters and the public key that sign the messages.\<close>

definition g_dsaP :: "u8 list" where
  "g_dsaP =
    [0xd3, 0xc3, 0xf5, 0xb2, 0xfd, 0x17, 0x61, 0xb7, 0x01, 0x8d, 0x75, 0xf7,
     0x93, 0x43, 0x78, 0x6b, 0x17, 0x39, 0x5b, 0x35, 0x5a, 0x52, 0xc7, 0xb8,
     0xa1, 0xa2, 0x4f, 0xc3, 0x6a, 0x70, 0x58, 0xff, 0x8e, 0x7f, 0xa1, 0x64,
     0xf5, 0x00, 0xe0, 0xdc, 0xa0, 0xd2, 0x84, 0x82, 0x1d, 0x96, 0x9e, 0x4b,
     0x4f, 0x34, 0xdc, 0x0c, 0xae, 0x7c, 0x76, 0x67, 0xb8, 0x44, 0xc7, 0x47,
     0xd4, 0xc6, 0xb9, 0x83, 0xe5, 0x2b, 0xa7, 0x0e, 0x54, 0x47, 0xcf, 0x35,
     0xf4, 0x04, 0xa0, 0xbc, 0xd1, 0x97, 0x4c, 0x3a, 0x10, 0x71, 0x55, 0x09,
     0xb3, 0x72, 0x15, 0x30, 0xa7, 0x3f, 0x32, 0x07, 0xb9, 0x98, 0x20, 0x49,
     0x5c, 0x7b, 0x9c, 0x14, 0x32, 0x75, 0x73, 0x3b, 0x02, 0x8a, 0x49, 0xfd,
     0x96, 0x89, 0x19, 0x54, 0x2a, 0x39, 0x95, 0x1c, 0x46, 0xed, 0xc2, 0x11,
     0x8c, 0x59, 0x80, 0x2b, 0xf3, 0x28, 0x75, 0x27]"

definition g_dsaQ :: "u8 list" where
  "g_dsaQ =
    [0xee, 0x8a, 0xf2, 0xce, 0x5e, 0x6d, 0xb5, 0x6a, 0xcd, 0x6d, 0x14, 0xe2,
     0x97, 0xef, 0x3f, 0x4d, 0xf9, 0xc7, 0x08, 0xe7]"

definition g_dsaG :: "u8 list" where
  "g_dsaG =
    [0x92, 0xf8, 0x5d, 0x1b, 0x6a, 0x4d, 0x52, 0x13, 0x1a, 0xe4, 0x3e, 0x24,
     0x45, 0xde, 0x1a, 0xb5, 0x02, 0xaf, 0xde, 0xac, 0xa9, 0xbe, 0xd7, 0x31,
     0x5d, 0x56, 0xd7, 0x66, 0xcd, 0x27, 0x86, 0x11, 0x8f, 0x5d, 0xb1, 0x4a,
     0xbd, 0xec, 0xa9, 0xd2, 0x51, 0x62, 0x97, 0x7d, 0xa8, 0x3e, 0xff, 0xa8,
     0x8e, 0xed, 0xc6, 0xbf, 0xeb, 0x37, 0xe1, 0xa9, 0x0e, 0x29, 0xcd, 0x0c,
     0xa0, 0x3d, 0x79, 0x9e, 0x92, 0xdd, 0x29, 0x45, 0xf7, 0x78, 0x58, 0x5f,
     0xf7, 0xc8, 0x35, 0x64, 0x2c, 0x21, 0xba, 0x7f, 0xb1, 0xa0, 0xb6, 0xbe,
     0x81, 0xc8, 0xa5, 0xe3, 0xc8, 0xab, 0x69, 0xb2, 0x1d, 0xa5, 0x42, 0x42,
     0xc9, 0x8e, 0x9b, 0x8a, 0xab, 0x4a, 0x9d, 0xc2, 0x51, 0xfa, 0x7d, 0xac,
     0x29, 0x21, 0x6f, 0xe8, 0xb9, 0x3f, 0x18, 0x5b, 0x2f, 0x67, 0x40, 0x5b,
     0x69, 0x46, 0x24, 0x42, 0xc2, 0xba, 0x0b, 0xd9]"

definition g_publicKey :: "u8 list" where
  "g_publicKey =
    [0xc7, 0x06, 0x00, 0x52, 0x6b, 0xa0, 0xb0, 0x86, 0x3a, 0x80, 0xfb, 0xe0,
     0xa3, 0xac, 0xff, 0x0d, 0x4f, 0x0d, 0x76, 0x65, 0x8a, 0x17, 0x54, 0xa8,
     0xe7, 0x65, 0x47, 0x55, 0xf1, 0x5b, 0xa7, 0x8d, 0x56, 0x95, 0x0e, 0x48,
     0x65, 0x4f, 0x0b, 0xbd, 0xe1, 0x68, 0x04, 0xde, 0x1b, 0x54, 0x18, 0x74,
     0xdb, 0x22, 0xe1, 0x4f, 0x03, 0x17, 0x04, 0xdb, 0x8d, 0x5c, 0xb2, 0xa4,
     0x17, 0xc4, 0x56, 0x6c, 0x27, 0xba, 0x97, 0x3c, 0x43, 0xd8, 0x4e, 0x0d,
     0xa2, 0xa7, 0x08, 0x56, 0xfe, 0x9e, 0xa4, 0x8d, 0x87, 0x25, 0x90, 0x38,
     0xb1, 0x65, 0x53, 0xe6, 0x62, 0x43, 0x5f, 0xf7, 0xfd, 0x52, 0x06, 0xe2,
     0x7b, 0xb7, 0xff, 0xbd, 0x88, 0x6c, 0x24, 0x10, 0x95, 0xc8, 0xdc, 0x8d,
     0x66, 0xf6, 0x62, 0xcb, 0xd8, 0x8f, 0x9d, 0xf7, 0xe9, 0xb3, 0xfb, 0x83,
     0x62, 0xa9, 0xf7, 0xfa, 0x36, 0xe5, 0x37, 0x99]"

section \<open>The signature check\<close>

text \<open>
  \<^verbatim>\<open>SrmTable::VerifySignature\<close>. The message is the first \<open>msgLen\<close> bytes of \<open>pMsg\<close>, the
  signature values are the first 20 bytes of \<open>pR\<close> and \<open>pS\<close>; a list stands for the memory from
  the pointer to the end of its buffer.
\<close>

definition VerifySignature ::
  "'w ssl_api \<Rightarrow> u8 list \<Rightarrow> u32 \<Rightarrow> u8 list \<Rightarrow> u8 list \<Rightarrow> 'w \<Rightarrow> (int \<times> 'w) outcome" where
  "VerifySignature S pMsg msgLen pR pS w =
     (let (dsa, w) = ssl_DSA_new S w in
      if \<not> dsa then Ret (ENOMEM, w) else
      let (sig, w) = ssl_DSA_SIG_new S w in
      if \<not> sig then Ret (ENOMEM, w) else
      let (p, w) = ssl_BN_bin2bn S g_dsaP w;
          (q, w) = ssl_BN_bin2bn S g_dsaQ w;
          (g, w) = ssl_BN_bin2bn S g_dsaG w in
      if ssl_DSA_set0_pqg S p q g \<noteq> DSA_SUCCESS then Ret (EINVAL, w) else
      let (pub_key, w) = ssl_BN_bin2bn S g_publicKey w in
      if ssl_DSA_set0_key S pub_key \<noteq> DSA_SUCCESS then Ret (EINVAL, w) else
      ubind (rd_range pR 0 DSA_SIG_LENGTH) (\<lambda>rBytes.
      ubind (rd_range pS 0 DSA_SIG_LENGTH) (\<lambda>sBytes.
      let (r, w) = ssl_BN_bin2bn S rBytes w;
          (s, w) = ssl_BN_bin2bn S sBytes w in
      if ssl_DSA_SIG_set0 S r s \<noteq> DSA_SUCCESS then Ret (EINVAL, w) else
      ubind (rd_range pMsg 0 (unat msgLen)) (\<lambda>msg.
      if ssl_DSA_do_verify S (ssl_SHA1 S msg) (r, s) (p, q, g, pub_key) \<noteq> DSA_SUCCESS
      then Ret (EINVAL, w) else Ret (SUCCESS, w)))))"

section \<open>Vector revocation lists\<close>

text \<open>The class \<^verbatim>\<open>VectorRevocationList\<close>; a null \<^verbatim>\<open>m_KsvArray\<close> is \<open>None\<close>.\<close>

record vrl =
  vrl_IsValid :: bool
  vrl_NumberOfDevices :: u8
  vrl_KsvArray :: "u8 list option"

text \<open>The constructor; its \<open>length\<close> parameter (\<open>len\<close> here) has 16 bits.\<close>

definition VectorRevocationList ::
  "'w os_api \<Rightarrow> u8 list \<Rightarrow> u16 \<Rightarrow> 'w \<Rightarrow> (vrl \<times> 'w) outcome" where
  "VectorRevocationList os buf len w =
     (if len = 0
      then Ret (\<lparr>vrl_IsValid = True, vrl_NumberOfDevices = 0, vrl_KsvArray = None\<rparr>, w) else
      ubind (rd buf 0) (\<lambda>b.
      let ksvCount = (ucast (b AND 0x7f) :: u32);
          ksvArraySize = ksvCount * of_nat KSV_SIZE in
      if ucast len \<noteq> ksvArraySize + 1
      then Ret (\<lparr>vrl_IsValid = False, vrl_NumberOfDevices = 0, vrl_KsvArray = None\<rparr>, w) else
      let (ok, w) = os_new os (unat ksvArraySize) w in
      if \<not> ok
      then Ret (\<lparr>vrl_IsValid = False, vrl_NumberOfDevices = ucast ksvCount, vrl_KsvArray = None\<rparr>, w)
      else ubind (rd_range buf 1 (unat ksvArraySize)) (\<lambda>arr.
        Ret (\<lparr>vrl_IsValid = True, vrl_NumberOfDevices = ucast ksvCount, vrl_KsvArray = Some arr\<rparr>, w))))"

text \<open>
  The loop of \<^verbatim>\<open>ContainsKsv\<close>: it compares the five bytes of entry \<open>i\<close> with \<open>ksv\<close> in reverse
  order and leaves the loop at the first entry that matches. The result is the index at which
  the loop stopped, \<open>n\<close> if it ran to the end.
\<close>

definition ksv_matches :: "u8 list \<Rightarrow> nat \<Rightarrow> u8 list \<Rightarrow> bool outcome" where
  "ksv_matches arr i ksv =
     ubind (rd_range arr (i * KSV_SIZE) KSV_SIZE) (\<lambda>entry.
     ubind (rd_range ksv 0 KSV_SIZE) (\<lambda>k.
     Ret (entry ! 4 = k ! 0 \<and> entry ! 3 = k ! 1 \<and> entry ! 2 = k ! 2 \<and>
          entry ! 1 = k ! 3 \<and> entry ! 0 = k ! 4)))"

function ContainsKsv_loop :: "u8 list \<Rightarrow> u8 list \<Rightarrow> nat \<Rightarrow> nat \<Rightarrow> nat outcome" where
  "ContainsKsv_loop arr ksv n i =
     (if i < n then
        ubind (ksv_matches arr i ksv) (\<lambda>m. if m then Ret i else ContainsKsv_loop arr ksv n (Suc i))
      else Ret i)"
  by pat_completeness auto
termination
  by (relation "measure (\<lambda>(arr, ksv, n, i). n - i)") auto

declare ContainsKsv_loop.simps [simp del]

text \<open>
  \<^verbatim>\<open>ContainsKsv\<close>. After the loop, whether it matched or not, the code returns the macro
  \<^verbatim>\<open>SUCCESS\<close>, converted to \<^verbatim>\<open>bool\<close>.
\<close>

definition ContainsKsv :: "vrl \<Rightarrow> u8 list \<Rightarrow> bool outcome" where
  "ContainsKsv v ksv =
     (if vrl_NumberOfDevices v = 0 then Ret False else
      case vrl_KsvArray v of
        None \<Rightarrow> Ret True
      | Some arr \<Rightarrow>
          ubind (ContainsKsv_loop arr ksv (unat (vrl_NumberOfDevices v)) 0)
            (\<lambda>_. Ret (SUCCESS \<noteq> 0)))"

section \<open>The SRM table\<close>

text \<open>The class \<^verbatim>\<open>SrmTable\<close>; a null list pointer is \<open>None\<close>.\<close>

record SrmTable =
  srm_IsValid :: bool
  srm_Version :: u16
  srm_Generation :: u8
  srm_IsSrmStorageDisable :: bool
  srm_RevocationLists :: "vrl list option"

record SrmHeader =
  hdr_srm_id :: u8
  hdr_version :: u16
  hdr_generation :: u8

text \<open>The header is read before any check that the buffer holds one.\<close>

definition parse_header :: "u8 list \<Rightarrow> SrmHeader outcome" where
  "parse_header buf =
     ubind (rd buf 0) (\<lambda>b0. ubind (rd buf 3) (\<lambda>b3. ubind (rd buf 2) (\<lambda>b2. ubind (rd buf 4) (\<lambda>b4.
     Ret \<lparr>hdr_srm_id = drop_bit 4 b0,
          hdr_version = (ucast b3 OR push_bit 8 (ucast b2)),
          hdr_generation = b4\<rparr>))))"

text \<open>The three bytes after the header: the length of the first generation list.\<close>

definition parse_gen1_length :: "u8 list \<Rightarrow> u32 outcome" where
  "parse_gen1_length buf =
     ubind (rd buf 5) (\<lambda>b5. ubind (rd buf 6) (\<lambda>b6. ubind (rd buf 7) (\<lambda>b7.
     Ret (push_bit 16 (ucast b5) OR push_bit 8 (ucast b6) OR ucast b7))))"

definition parse_gen2_length :: "u8 list \<Rightarrow> u32 \<Rightarrow> u32 outcome" where
  "parse_gen2_length buf offset =
     ubind (rd buf (unat offset)) (\<lambda>hi. ubind (rd buf (unat (offset + 1))) (\<lambda>lo.
     Ret (push_bit 8 (ucast hi) OR ucast lo)))"

text \<open>
  The loop over the lists of the later generations. It returns a status and the lists read so
  far; the status is \<^const>\<open>SUCCESS\<close> only when the end of the buffer is reached.
  Offsets are \<^verbatim>\<open>uint32_t\<close> and wrap; the length of the buffer is a \<^verbatim>\<open>size_t\<close>.
\<close>

partial_function (option) gen2_loop ::
  "'w os_api \<Rightarrow> 'w ssl_api \<Rightarrow> u8 list \<Rightarrow> u32 \<Rightarrow> vrl list \<Rightarrow> 'w \<Rightarrow>
     ((int \<times> vrl list) \<times> 'w) outcome option" where
  "gen2_loop os S buf offset vrls w =
     (if \<not> unat offset < length buf then ret ((SUCCESS, vrls), w)
      else if length buf < unat (offset + 2) then ret ((EINVAL, vrls), w)
      else obind (Some (parse_gen2_length buf offset)) (\<lambda>vrlLength.
        let offset = offset + 2 in
        if length buf < unat (offset + vrlLength) then ret ((EINVAL, vrls), w)
        else if vrlLength < 2 + 2 * of_nat DSA_SIG_LENGTH then ret ((EINVAL, vrls), w)
        else
          let vrlLength = vrlLength - 2 - 2 * of_nat DSA_SIG_LENGTH;
              vrlList = drop (unat offset) buf;
              offset = offset + vrlLength;
              signatureR = drop (unat offset) buf;
              offset = offset + of_nat DSA_SIG_LENGTH;
              signatureS = drop (unat offset) buf;
              offset = offset + of_nat DSA_SIG_LENGTH in
          obind (Some (VerifySignature S vrlList vrlLength signatureR signatureS w)) (\<lambda>(sts, w).
          if sts \<noteq> SUCCESS then ret ((sts, vrls), w) else
          let (ok, w) = os_new os 1 w in
          if \<not> ok then ret ((ENOMEM, vrls), w) else
          obind (Some (VectorRevocationList os vrlList (ucast vrlLength) w)) (\<lambda>(v, w).
          if \<not> vrl_IsValid v then ret ((EINVAL, vrls), w)
          else gen2_loop os S buf offset (vrls @ [v]) w))))"

text \<open>
  \<^verbatim>\<open>SrmTable::RetrieveSrmFromBuffer\<close>. The first test of the code, \<^verbatim>\<open>length < SRM_HEADER_LENGTH + 3\<close>,
  only assigns \<^verbatim>\<open>ret = EINVAL\<close>, which a later assignment overwrites, and does not return; so it
  has no effect and the header is read from a buffer of any length.
\<close>

definition RetrieveSrmFromBuffer ::
  "'w os_api \<Rightarrow> 'w ssl_api \<Rightarrow> SrmTable \<Rightarrow> u8 list option \<Rightarrow> 'w \<Rightarrow>
     ((int \<times> SrmTable) \<times> 'w) outcome option" where
  "RetrieveSrmFromBuffer os S t buf w =
     (case buf of None \<Rightarrow> ret ((EINVAL, t), w) | Some buf \<Rightarrow>
      obind (Some (parse_header buf)) (\<lambda>h.
      if hdr_srm_id h \<noteq> SRM_HEADER_ID then ret ((EINVAL, t), w)
      else if hdr_version h < srm_Version t then ret ((EAGAIN, t), w)
      else obind (Some (parse_gen1_length buf)) (\<lambda>vrlLength.
      let gen1BufLength = of_nat SRM_HEADER_LENGTH + vrlLength in
      if length buf < unat gen1BufLength then ret ((EINVAL, t), w) else
      let gen1BufLength = gen1BufLength - 2 * of_nat DSA_SIG_LENGTH in
      if vrlLength < 3 + 2 * of_nat DSA_SIG_LENGTH then ret ((EINVAL, t), w) else
      let vrlLength = vrlLength - 3 - 2 * of_nat DSA_SIG_LENGTH;
          offset = of_nat (SRM_HEADER_LENGTH + 3);
          vrlList = drop (unat offset) buf;
          offset = offset + vrlLength;
          signatureR = drop (unat offset) buf;
          offset = offset + of_nat DSA_SIG_LENGTH;
          signatureS = drop (unat offset) buf;
          offset = offset + of_nat DSA_SIG_LENGTH in
      obind (Some (VerifySignature S buf gen1BufLength signatureR signatureS w)) (\<lambda>(sts, w).
      if sts \<noteq> SUCCESS then ret ((sts, t), w) else
      let (ok, w) = os_new os 1 w in
      if \<not> ok then ret ((ENOMEM, t), w) else
      let (ok, w) = os_new os 1 w in
      if \<not> ok then ret ((ENOMEM, t), w) else
      obind (Some (VectorRevocationList os vrlList (ucast vrlLength) w)) (\<lambda>(v, w).
      if \<not> vrl_IsValid v then ret ((EINVAL, t), w) else
      obind (gen2_loop os S buf offset [v] w) (\<lambda>((sts, vrls), w).
      if sts \<noteq> SUCCESS then ret ((sts, t), w) else
      case srm_RevocationLists t of
        None \<Rightarrow> Some Undef
      | Some _ \<Rightarrow>
          ret ((SUCCESS, t\<lparr>srm_RevocationLists := Some vrls, srm_Version := hdr_version h,
                           srm_Generation := hdr_generation h\<rparr>), w)))))))"

text \<open>\<^verbatim>\<open>SrmTable::CheckSrmRevoke\<close>: the loop over the lists, then the operation.\<close>

primrec check_vrls :: "vrl list \<Rightarrow> u8 list \<Rightarrow> int outcome" where
  "check_vrls [] ksv = Ret SUCCESS"
| "check_vrls (v # vs) ksv =
     ubind (ContainsKsv v ksv) (\<lambda>c. if c then Ret EACCES else check_vrls vs ksv)"

definition SrmTable_CheckSrmRevoke :: "SrmTable \<Rightarrow> u8 list option \<Rightarrow> int outcome" where
  "SrmTable_CheckSrmRevoke t ksv =
     (case ksv of None \<Rightarrow> Ret EINVAL | Some ksv \<Rightarrow>
      case srm_RevocationLists t of None \<Rightarrow> Ret ENODEV | Some vrls \<Rightarrow> check_vrls vrls ksv)"

definition SrmTable_GetSrmVersion :: "SrmTable \<Rightarrow> int \<times> u16" where
  "SrmTable_GetSrmVersion t = (SUCCESS, srm_Version t)"

definition SetSrmStorageDisable :: "bool \<Rightarrow> SrmTable \<Rightarrow> SrmTable" where
  "SetSrmStorageDisable disableSrmStorage t = t\<lparr>srm_IsSrmStorageDisable := disableSrmStorage\<rparr>"

text \<open>
  The constructor of \<^verbatim>\<open>SrmTable\<close>: every failure to read the stored message leaves an empty but
  valid table.
\<close>

definition SrmTable_empty :: SrmTable where
  "SrmTable_empty = \<lparr>srm_IsValid = False, srm_Version = 0, srm_Generation = 0,
     srm_IsSrmStorageDisable = False, srm_RevocationLists = None\<rparr>"

definition SrmTable_new ::
  "'w os_api \<Rightarrow> 'w ssl_api \<Rightarrow> 'w \<Rightarrow> (SrmTable \<times> 'w) outcome option" where
  "SrmTable_new os S w =
     (let (sts, w) = os_mutex_init os w in
      if sts \<noteq> 0 then ret (SrmTable_empty, w) else
      let (ok, w) = os_new os 1 w in
      if \<not> ok then ret (SrmTable_empty, w) else
      let t = SrmTable_empty\<lparr>srm_RevocationLists := Some [], srm_IsValid := True\<rparr>;
          (r, w) = os_open os SRM_STORAGE_FILENAME [O_RDONLY] w in
      case r of Inl e \<Rightarrow> ret (t, w) | Inr fd \<Rightarrow>
      let (r, w) = os_fstat os fd w in
      case r of
        Inl e \<Rightarrow> let (_, w) = os_close os fd w in ret (t, w)
      | Inr (regular, st_size) \<Rightarrow>
        if \<not> regular \<or> st_size = 0 then let (_, w) = os_close os fd w in ret (t, w) else
        let (r, w) = os_mmap os fd st_size w in
        case r of
          Inl e \<Rightarrow> let (_, w) = os_close os fd w in ret (t, w)
        | Inr buf \<Rightarrow>
          obind (RetrieveSrmFromBuffer os S t (Some buf) w) (\<lambda>((sts, t), w).
          let (_, w) = os_close os fd w in ret (t, w)))"

section \<open>The module: one table behind a global pointer\<close>

text \<open>\<^verbatim>\<open>g_pSrmTable\<close> is the argument \<open>g\<close>, \<open>None\<close> when null.\<close>

definition SrmInit ::
  "'w os_api \<Rightarrow> 'w ssl_api \<Rightarrow> SrmTable option \<Rightarrow> 'w \<Rightarrow>
     ((int \<times> SrmTable option) \<times> 'w) outcome option" where
  "SrmInit os S g w =
     (if g \<noteq> None then ret ((EEXIST, g), w) else
      let (ok, w) = os_new os 1 w in
      if \<not> ok then ret ((ENOMEM, None), w) else
      obind (SrmTable_new os S w) (\<lambda>(t, w).
      if \<not> srm_IsValid t then ret ((EINVAL, None), w) else ret ((SUCCESS, Some t), w)))"

definition SrmRelease :: "SrmTable option \<Rightarrow> SrmTable option" where
  "SrmRelease g = None"

definition GetSrmVersion :: "SrmTable option \<Rightarrow> u16 option \<Rightarrow> int \<times> u16 option" where
  "GetSrmVersion g version =
     (case version of None \<Rightarrow> (EINVAL, None) | Some v \<Rightarrow>
      case g of None \<Rightarrow> (ENODEV, Some v) | Some t \<Rightarrow> map_prod id Some (SrmTable_GetSrmVersion t))"

text \<open>
  \<^verbatim>\<open>StoreSrm\<close>: the table is replaced first, then the message is written to the storage file,
  which is opened without \<^verbatim>\<open>O_TRUNC\<close>. A failing \<^verbatim>\<open>write\<close> returns \<open>-1\<close>, which as a \<^verbatim>\<open>size_t\<close>
  differs from every 32-bit size.
\<close>

definition StoreSrm ::
  "'w os_api \<Rightarrow> 'w ssl_api \<Rightarrow> SrmTable option \<Rightarrow> u8 list \<Rightarrow> 'w \<Rightarrow>
     ((int \<times> SrmTable option) \<times> 'w) outcome option" where
  "StoreSrm os S g data w =
     (case g of None \<Rightarrow> ret ((ENODEV, None), w) | Some t \<Rightarrow>
      obind (RetrieveSrmFromBuffer os S t (Some data) w) (\<lambda>((sts, t), w).
      if sts \<noteq> SUCCESS then ret ((sts, Some t), w) else
      if srm_IsSrmStorageDisable t then ret ((SUCCESS, Some t), w) else
      let (r, w) = os_open os SRM_STORAGE_FILENAME [O_WRONLY, O_CREAT] w in
      case r of Inl e \<Rightarrow> ret ((EIO, Some t), w) | Inr fd \<Rightarrow>
      let (r, w) = os_write os fd data w; (_, w) = os_close os fd w in
      if r \<noteq> Inr (length data) then ret ((EIO, Some t), w) else ret ((SUCCESS, Some t), w)))"

definition CheckSrmRevoke :: "SrmTable option \<Rightarrow> u8 list option \<Rightarrow> int outcome" where
  "CheckSrmRevoke g ksv =
     (case g of None \<Rightarrow> Ret ENODEV | Some t \<Rightarrow> SrmTable_CheckSrmRevoke t ksv)"

definition SrmConfig :: "SrmTable option \<Rightarrow> bool \<Rightarrow> int \<times> SrmTable option" where
  "SrmConfig g disableSrmStorage =
     (case g of None \<Rightarrow> (ENODEV, None)
      | Some t \<Rightarrow> (SUCCESS, Some (SetSrmStorageDisable disableSrmStorage t)))"

section \<open>The signature check is defined and sound\<close>

text \<open>
  \<open>bn_of S bs n\<close>: the library's conversion of \<open>bs\<close> can give \<open>n\<close>. \<open>dsa_accepts\<close>: the library's
  verification accepted the digest of \<open>msg\<close> with signature values made of \<open>rB\<close> and \<open>sB\<close> under the
  key of the code.
\<close>

definition bn_of :: "'w ssl_api \<Rightarrow> u8 list \<Rightarrow> bignum \<Rightarrow> bool" where
  "bn_of S bs n \<longleftrightarrow> (\<exists>w. fst (ssl_BN_bin2bn S bs w) = n)"

definition dsa_accepts :: "'w ssl_api \<Rightarrow> u8 list \<Rightarrow> u8 list \<Rightarrow> u8 list \<Rightarrow> bool" where
  "dsa_accepts S msg rB sB \<longleftrightarrow>
     (\<exists>r s p q g y. bn_of S rB r \<and> bn_of S sB s \<and> bn_of S g_dsaP p \<and> bn_of S g_dsaQ q \<and>
        bn_of S g_dsaG g \<and> bn_of S g_publicKey y \<and>
        ssl_DSA_do_verify S (ssl_SHA1 S msg) (r, s) (p, q, g, y) = DSA_SUCCESS)"

lemma bn_ofI: "ssl_BN_bin2bn S bs w = (n, w') \<Longrightarrow> bn_of S bs n"
  by (metis bn_of_def fst_conv)

lemma VerifySignature_defined:
  assumes "unat msgLen \<le> length pMsg" "DSA_SIG_LENGTH \<le> length pR" "DSA_SIG_LENGTH \<le> length pS"
  shows "VerifySignature S pMsg msgLen pR pS w \<noteq> Undef"
  using assms by (simp add: VerifySignature_def split: prod.split)

lemma VerifySignature_status:
  "VerifySignature S pMsg msgLen pR pS w = Ret (sts, w') \<Longrightarrow> sts \<in> {SUCCESS, ENOMEM, EINVAL}"
  by (auto simp: VerifySignature_def hdcp_bind split: prod.splits if_splits)

lemma VerifySignature_accepts:
  assumes "VerifySignature S pMsg msgLen pR pS w = Ret (SUCCESS, w')"
  shows "dsa_accepts S (take (unat msgLen) pMsg) (take 20 pR) (take 20 pS)"
  using assms unfolding VerifySignature_def dsa_accepts_def
  by (auto simp: hdcp_bind split: prod.splits if_splits) (meson bn_ofI)

section \<open>The revocation list parser\<close>

text \<open>A list the parser accepts: an empty one, or an array of as many KSVs as its count says.\<close>

definition vrl_wf :: "vrl \<Rightarrow> bool" where
  "vrl_wf v \<longleftrightarrow> vrl_IsValid v \<and> unat (vrl_NumberOfDevices v) < 128 \<and>
     (case vrl_KsvArray v of
        None \<Rightarrow> vrl_NumberOfDevices v = 0
      | Some arr \<Rightarrow> length arr = unat (vrl_NumberOfDevices v) * KSV_SIZE)"

lemma and_7f: "unat ((b :: u8) AND 0x7f) < 128"
proof -
  have "b AND 0x7f \<le> 0x7f" by (rule word_and_le1)
  then show ?thesis by (simp add: word_le_nat_alt)
qed

lemma ksv_size_unat:
  "unat ((ucast ((b :: u8) AND 0x7f) :: u32) * of_nat KSV_SIZE) = unat (b AND 0x7f) * KSV_SIZE"
  using and_7f [of b] by (simp add: unat_word_ariths)

lemma ksv_count_unat: "unat (ucast (ucast ((b :: u8) AND 0x7f) :: u32) :: u8) = unat (b AND 0x7f)"
  using and_7f [of b] by (simp add: unat_ucast_u32_u8)

lemma vrl_size_eq:
  "(ucast (len :: u16) = (ucast ((b :: u8) AND 0x7f) :: u32) * of_nat KSV_SIZE + 1) \<longleftrightarrow>
     unat len = unat (b AND 0x7f) * KSV_SIZE + 1"
  using and_7f [of b] by (simp add: word_unat_eq_iff unat_word_ariths)

lemma VectorRevocationList_defined:
  assumes "unat len \<le> length buf"
  shows "VectorRevocationList os buf len w \<noteq> Undef"
proof (cases "len = 0")
  case True
  then show ?thesis by (simp add: VectorRevocationList_def)
next
  case False
  then have "0 < unat len" by (simp add: unat_gt_0)
  with assms have "0 < length buf" by linarith
  with assms False show ?thesis
    by (auto simp: VectorRevocationList_def ksv_size_unat [simplified] vrl_size_eq [simplified]
        Let_def split: prod.split)
qed

lemma VectorRevocationList_valid:
  assumes "VectorRevocationList os buf len w = Ret (v, w')" "vrl_IsValid v"
  shows "vrl_wf v"
    and "len = 0 \<longrightarrow> vrl_KsvArray v = None"
    and "len \<noteq> 0 \<longrightarrow> vrl_KsvArray v = Some (take (unat len - 1) (drop 1 buf)) \<and>
           unat (vrl_NumberOfDevices v) = unat (buf ! 0 AND 0x7f) \<and>
           unat len = unat (buf ! 0 AND 0x7f) * KSV_SIZE + 1"
  using assms and_7f
  by (auto simp: VectorRevocationList_def vrl_wf_def hdcp_bind ksv_size_unat [simplified]
      ksv_count_unat vrl_size_eq [simplified] Let_def split: prod.splits if_splits)

section \<open>The look-up of a KSV\<close>

text \<open>The entries of a list, in order, and whether a KSV (given with its bytes reversed) is one.\<close>

definition vrl_entry :: "u8 list \<Rightarrow> nat \<Rightarrow> u8 list" where
  "vrl_entry arr i = take KSV_SIZE (drop (i * KSV_SIZE) arr)"

definition vrl_lists :: "vrl \<Rightarrow> u8 list \<Rightarrow> bool" where
  "vrl_lists v ksv \<longleftrightarrow> (case vrl_KsvArray v of None \<Rightarrow> False
     | Some arr \<Rightarrow> \<exists>i < unat (vrl_NumberOfDevices v). vrl_entry arr i = rev ksv)"

lemma list5_eq_rev:
  assumes "length xs = 5" "length ys = 5"
  shows "xs = rev ys \<longleftrightarrow>
    xs ! 4 = ys ! 0 \<and> xs ! 3 = ys ! 1 \<and> xs ! 2 = ys ! 2 \<and> xs ! 1 = ys ! 3 \<and> xs ! 0 = ys ! 4"
  using assms
  by (auto simp: list_eq_iff_nth_eq rev_nth less_Suc_eq eval_nat_numeral)

lemma ksv_matches_entry:
  assumes "Suc i * KSV_SIZE \<le> length arr" "length ksv = KSV_SIZE"
  shows "ksv_matches arr i ksv = Ret (vrl_entry arr i = rev ksv)"
proof -
  have "length (vrl_entry arr i) = 5" using assms(1) by (simp add: vrl_entry_def)
  from list5_eq_rev [OF this, of ksv] assms show ?thesis
    by (simp add: ksv_matches_def vrl_entry_def)
qed

text \<open>The loop stops at the first entry that matches.\<close>

lemma ContainsKsv_loop_first:
  assumes "n * KSV_SIZE \<le> length arr" "length ksv = KSV_SIZE" "i \<le> n"
  shows "\<exists>j. ContainsKsv_loop arr ksv n i = Ret j \<and> i \<le> j \<and> j \<le> n \<and>
     (\<forall>k. i \<le> k \<and> k < j \<longrightarrow> vrl_entry arr k \<noteq> rev ksv) \<and>
     (j < n \<longrightarrow> vrl_entry arr j = rev ksv)"
  using assms
proof (induction arr ksv n i rule: ContainsKsv_loop.induct)
  case (1 arr ksv n i)
  show ?case
  proof (cases "i < n")
    case False
    with "1.prems"(3) show ?thesis by (subst ContainsKsv_loop.simps) auto
  next
    case True
    then have "Suc i * KSV_SIZE \<le> length arr"
      using "1.prems"(1) mult_le_mono1 [of "Suc i" n 5] by linarith
    with "1.prems" have m: "ksv_matches arr i ksv = Ret (vrl_entry arr i = rev ksv)"
      by (intro ksv_matches_entry) auto
    show ?thesis
    proof (cases "vrl_entry arr i = rev ksv")
      case True
      with m \<open>i < n\<close> show ?thesis by (subst ContainsKsv_loop.simps) auto
    next
      case False
      from "1.IH" [OF \<open>i < n\<close> m False] "1.prems" \<open>i < n\<close> obtain j where
        j: "ContainsKsv_loop arr ksv n (Suc i) = Ret j" "Suc i \<le> j" "j \<le> n"
          "\<forall>k. Suc i \<le> k \<and> k < j \<longrightarrow> vrl_entry arr k \<noteq> rev ksv"
          "j < n \<longrightarrow> vrl_entry arr j = rev ksv" by auto
      have "ContainsKsv_loop arr ksv n i = Ret j"
        using m False \<open>i < n\<close> j(1) by (subst ContainsKsv_loop.simps) simp
      moreover have "\<forall>k. i \<le> k \<and> k < j \<longrightarrow> vrl_entry arr k \<noteq> rev ksv"
        using j(4) False by (metis Suc_leI le_neq_implies_less)
      ultimately show ?thesis using j by auto
    qed
  qed
qed

lemma ContainsKsv_loop_found:
  assumes "vrl_wf v" "vrl_KsvArray v = Some arr" "length ksv = KSV_SIZE"
  shows "\<exists>j. ContainsKsv_loop arr ksv (unat (vrl_NumberOfDevices v)) 0 = Ret j \<and>
     (j < unat (vrl_NumberOfDevices v) \<longleftrightarrow> vrl_lists v ksv)"
proof -
  let ?n = "unat (vrl_NumberOfDevices v)"
  have "?n * KSV_SIZE \<le> length arr" using assms by (simp add: vrl_wf_def)
  from ContainsKsv_loop_first [OF this assms(3), of 0] obtain j where
    "ContainsKsv_loop arr ksv ?n 0 = Ret j" "j \<le> ?n"
    "\<forall>k < j. vrl_entry arr k \<noteq> rev ksv" "j < ?n \<longrightarrow> vrl_entry arr j = rev ksv" by auto
  with assms(2) show ?thesis by (auto simp: vrl_lists_def intro!: exI [of _ j]) (metis not_less_iff_gr_or_eq order_le_less)
qed

text \<open>What the operation returns for a list the parser accepted: always \<^verbatim>\<open>false\<close>.\<close>

lemma ContainsKsv_wf:
  assumes "vrl_wf v" "length ksv = KSV_SIZE"
  shows "ContainsKsv v ksv = Ret False"
proof (cases "vrl_KsvArray v")
  case None
  with assms show ?thesis by (simp add: ContainsKsv_def vrl_wf_def)
next
  case (Some arr)
  with ContainsKsv_loop_found [OF assms(1) Some assms(2)] show ?thesis
    by (auto simp: ContainsKsv_def)
qed

lemma check_vrls_wf:
  assumes "\<forall>v \<in> set vs. vrl_wf v" "length ksv = KSV_SIZE"
  shows "check_vrls vs ksv = Ret SUCCESS"
  using assms(1) by (induction vs) (simp_all add: ContainsKsv_wf [OF _ assms(2)])

section \<open>The lists of the later generations\<close>

text \<open>Buffers for which no offset wraps.\<close>

definition srm_bounded :: "u8 list \<Rightarrow> bool" where
  "srm_bounded buf \<longleftrightarrow> length buf < 2 ^ 32 - 2 ^ 17"

lemma parse_gen2_length_in:
  assumes "unat offset + 2 \<le> length buf" "srm_bounded buf"
  shows "\<exists>L. parse_gen2_length buf offset = Ret L \<and> unat L < 65536"
proof -
  have "unat (offset + 1) = unat offset + 1"
    using assms by (simp add: unat_plus_u32 srm_bounded_def)
  with assms u8_less [of "buf ! unat offset"] u8_less [of "buf ! Suc (unat offset)"]
  show ?thesis by (simp add: parse_gen2_length_def be16_u32)
qed

text \<open>
  The loop returns from every offset in the buffer, without undefined behaviour, and with success
  only if it starts at the end of the buffer. A block's length field counts its own two bytes, but
  the code compares the whole length with what is left after them, so a block has to be followed by
  at least two more bytes; and the bytes that follow the last block are then read as another one.
\<close>

declare gen2_loop.simps [code]

lemma gen2_loop_rejects:
  assumes "srm_bounded buf" "unat offset \<le> length buf"
  shows "\<exists>sts vrls' w'. gen2_loop os S buf offset vrls w = ret ((sts, vrls'), w') \<and>
    (sts = SUCCESS \<longleftrightarrow> unat offset = length buf) \<and> (sts = SUCCESS \<longrightarrow> vrls' = vrls \<and> w' = w)"
  using assms
proof (induction "length buf - unat offset" arbitrary: offset vrls w rule: less_induct)
  case less
  note B = less.prems(1) [unfolded srm_bounded_def]
  consider (finished) "unat offset = length buf" | (short) "length buf < unat (offset + 2)" "unat offset < length buf"
    | (block) "unat offset < length buf" "unat (offset + 2) \<le> length buf"
    using less.prems(2) by linarith
  then show ?case
  proof cases
    case finished
    then show ?thesis by (subst gen2_loop.simps) simp
  next
    case short
    then show ?thesis by (subst gen2_loop.simps) simp
  next
    case block
    then have o2: "unat (offset + 2) = unat offset + 2" using B by (simp add: unat_plus_u32)
    with block obtain L where L: "parse_gen2_length buf offset = Ret L" "unat L < 65536"
      using parse_gen2_length_in less.prems(1) by fastforce
    have o2L: "unat (offset + 2 + L) = unat offset + 2 + unat L"
      using B o2 L(2) block by (subst unat_plus_u32) auto
    show ?thesis
    proof (cases "length buf < unat (offset + 2 + L) \<or> L < 42")
      case True
      with block L(1) show ?thesis by (subst gen2_loop.simps) (auto simp: Let_def)
    next
      case False
      let ?vl = "L - 42" and ?o = "offset + 2"
      from False have fits: "unat offset + 2 + unat L \<le> length buf" and "42 \<le> unat L"
        using o2L by (simp_all add: word_less_nat_alt)
      then have vl: "unat ?vl = unat L - 42" by (simp add: unat_minus_u32 word_le_nat_alt)
      then have o3: "unat (?o + ?vl) = unat offset + unat L - 40"
        using B o2 fits \<open>42 \<le> unat L\<close> by (subst unat_plus_u32) auto
      then have o4: "unat (?o + ?vl + 20) = unat offset + unat L - 20"
        using B fits \<open>42 \<le> unat L\<close> by (subst unat_plus_u32) auto
      then have o5: "unat (?o + ?vl + 20 + 20) = unat offset + unat L"
        using B fits \<open>42 \<le> unat L\<close> by (subst unat_plus_u32) auto
      let ?ls = "drop (unat ?o) buf"
      have lens: "unat ?vl \<le> length ?ls" "20 \<le> length (drop (unat (?o + ?vl)) buf)"
        "20 \<le> length (drop (unat (?o + ?vl + 20)) buf)"
        "unat (ucast ?vl :: u16) \<le> length ?ls"
        using o2 o3 o4 vl fits \<open>42 \<le> unat L\<close> L(2)
        by (simp_all add: unat_ucast_u32_u16)
      obtain sts w1 where V: "VerifySignature S ?ls ?vl (drop (unat (?o + ?vl)) buf)
          (drop (unat (?o + ?vl + 20)) buf) w = Ret (sts, w1)"
        using VerifySignature_defined [OF lens(1-3)] by (metis outcome.exhaust surj_pair)
      obtain ok w2 where N: "os_new os 1 w1 = (ok, w2)" by fastforce
      obtain v w3 where R: "VectorRevocationList os ?ls (ucast ?vl) w2 = Ret (v, w3)"
        using VectorRevocationList_defined [OF lens(4)] by (metis outcome.exhaust surj_pair)
      have "length buf - unat (?o + ?vl + 20 + 20) < length buf - unat offset"
        "unat (?o + ?vl + 20 + 20) \<le> length buf" "unat (?o + ?vl + 20 + 20) \<noteq> length buf"
        using o5 fits \<open>42 \<le> unat L\<close> by linarith+
      with less.hyps [of "?o + ?vl + 20 + 20" "vrls @ [v]" w3] less.prems(1) obtain sts' vrls' w' where
        rec: "gen2_loop os S buf (?o + ?vl + 20 + 20) (vrls @ [v]) w3 = ret ((sts', vrls'), w')"
        "sts' \<noteq> SUCCESS" by blast
      show ?thesis
        using block False L(1) V N R rec
        by (subst gen2_loop.simps) (simp add: Let_def diff_diff_eq)
    qed
  qed
qed

section \<open>Reading a message\<close>

text \<open>The fields of a message, as numbers.\<close>

definition msg_version :: "u8 list \<Rightarrow> nat" where
  "msg_version buf = 256 * unat (buf ! 2) + unat (buf ! 3)"

definition msg_gen1_length :: "u8 list \<Rightarrow> nat" where
  "msg_gen1_length buf = 65536 * unat (buf ! 5) + 256 * unat (buf ! 6) + unat (buf ! 7)"

lemma parse_header_in:
  assumes "5 \<le> length buf"
  shows "\<exists>h. parse_header buf = Ret h \<and> hdr_srm_id h = drop_bit 4 (buf ! 0) \<and>
     unat (hdr_version h) = msg_version buf \<and> hdr_generation h = buf ! 4"
proof -
  from assms have "buf \<noteq> []" by auto
  with assms show ?thesis by (simp add: parse_header_def msg_version_def be16_u16)
qed

lemma parse_gen1_length_in:
  assumes "8 \<le> length buf"
  shows "\<exists>L. parse_gen1_length buf = Ret L \<and> unat L = msg_gen1_length buf \<and> unat L < 16777216"
  using assms u8_less [of "buf ! 5"] u8_less [of "buf ! 6"] u8_less [of "buf ! 7"]
  by (simp add: parse_gen1_length_def msg_gen1_length_def be24_u32)

text \<open>The offsets of the first generation part, without wrap-around.\<close>

lemma gen1_total: "unat (L :: u32) < 16777216 \<Longrightarrow> unat (5 + L) = 5 + unat L"
  by (subst unat_plus_u32) auto

lemma gen1_offsets:
  fixes L :: u32
  assumes "unat L < 16777216" "\<not> L < 43"
  shows "unat (5 + L - 40) = unat L - 35"
    and "unat (L - 43) = unat L - 43"
    and "unat (8 + (L - 43)) = unat L - 35"
    and "unat (8 + (L - 43) + 20) = unat L - 15"
    and "unat (8 + (L - 43) + 20 + 20) = unat L + 5"
    and "43 \<le> unat L"
proof -
  show L: "43 \<le> unat L" using assms(2) by (simp add: word_less_nat_alt)
  show "unat (5 + L - 40) = unat L - 35"
    using gen1_total [OF assms(1)] L by (subst unat_minus_u32) (auto simp: word_le_nat_alt)
  show m: "unat (L - 43) = unat L - 43"
    using L by (subst unat_minus_u32) (auto simp: word_le_nat_alt)
  show a: "unat (8 + (L - 43)) = unat L - 35"
    using assms(1) L m by (subst unat_plus_u32) auto
  show b: "unat (8 + (L - 43) + 20) = unat L - 15"
    using assms(1) L a by (subst unat_plus_u32) auto
  show "unat (8 + (L - 43) + 20 + 20) = unat L + 5"
    using assms(1) L b by (subst unat_plus_u32) auto
qed

text \<open>A status other than success leaves the table as it was, whatever the buffer holds.\<close>

lemma RetrieveSrm_failure:
  assumes "RetrieveSrmFromBuffer os S t buf w = ret ((sts, t'), w')" "sts \<noteq> SUCCESS"
  shows "t' = t"
  using assms
  unfolding RetrieveSrmFromBuffer_def Let_def
  by (auto elim!: hdcp_elims split: option.splits prod.splits if_splits)

lemma RetrieveSrm_short:
  assumes "length buf < SRM_HEADER_LENGTH"
  shows "RetrieveSrmFromBuffer os S t (Some buf) w = Some Undef"
proof -
  have "parse_header buf = Undef"
    using assms by (auto simp: parse_header_def ubind_eq_Undef rd_def)
  then show ?thesis by (simp add: RetrieveSrmFromBuffer_def)
qed

text \<open>A run that gets past the tests of the header and the length field, step by step.\<close>

lemma RetrieveSrm_run:
  assumes "parse_header buf = Ret h" "parse_gen1_length buf = Ret L"
    and "hdr_srm_id h = 8" "\<not> hdr_version h < srm_Version t" "\<not> length buf < unat (5 + L)" "\<not> L < 43"
    and "srm_RevocationLists t \<noteq> None"
    and "VerifySignature S buf (5 + L - 40) (drop (unat (8 + (L - 43))) buf)
        (drop (unat (8 + (L - 43) + 20)) buf) w = Ret (sts, w1)"
    and "os_new os 1 w1 = (ok, w2)" "os_new os 1 w2 = (ok', w3)"
    and "VectorRevocationList os (drop 8 buf) (ucast (L - 43)) w3 = Ret (v, w4)"
    and "gen2_loop os S buf (8 + (L - 43) + 20 + 20) [v] w4 = ret ((sts', vrls'), w')"
  shows "RetrieveSrmFromBuffer os S t (Some buf) w =
      (if sts \<noteq> SUCCESS then ret ((sts, t), w1) else if \<not> ok then ret ((ENOMEM, t), w2)
       else if \<not> ok' then ret ((ENOMEM, t), w3) else if \<not> vrl_IsValid v then ret ((EINVAL, t), w4)
       else if sts' \<noteq> SUCCESS then ret ((sts', t), w')
       else ret ((SUCCESS, t\<lparr>srm_RevocationLists := Some vrls', srm_Version := hdr_version h,
                           srm_Generation := hdr_generation h\<rparr>), w'))"
  using assms by (auto simp: RetrieveSrmFromBuffer_def Let_def diff_diff_eq)

text \<open>One run over a buffer that holds the header and the first length field.\<close>

lemma RetrieveSrm_cases:
  assumes "8 \<le> length buf" "srm_bounded buf" "srm_RevocationLists t \<noteq> None"
  shows "\<exists>sts t' w'. RetrieveSrmFromBuffer os S t (Some buf) w = ret ((sts, t'), w') \<and>
    (sts = SUCCESS \<longrightarrow>
       drop_bit 4 (buf ! 0) = 8 \<and> unat (srm_Version t) \<le> msg_version buf \<and>
       43 \<le> msg_gen1_length buf \<and> length buf = 5 + msg_gen1_length buf \<and>
       dsa_accepts S (take (length buf - 40) buf) (take 20 (drop (length buf - 40) buf))
         (drop (length buf - 20) buf) \<and>
       (\<exists>v u u'. VectorRevocationList os (drop 8 buf) (of_nat (length buf - 48)) u = Ret (v, u') \<and>
          vrl_IsValid v \<and>
          t' = t\<lparr>srm_RevocationLists := Some [v], srm_Version := of_nat (msg_version buf),
                 srm_Generation := buf ! 4\<rparr>))"
proof -
  obtain h where h: "parse_header buf = Ret h" "hdr_srm_id h = drop_bit 4 (buf ! 0)"
      "unat (hdr_version h) = msg_version buf" "hdr_generation h = buf ! 4"
    using parse_header_in [of buf] assms(1) by auto
  obtain L where L: "parse_gen1_length buf = Ret L" "unat L = msg_gen1_length buf"
      "unat L < 16777216" using parse_gen1_length_in assms(1) by blast
  show ?thesis
  proof (cases "hdr_srm_id h \<noteq> 8 \<or> hdr_version h < srm_Version t \<or> length buf < unat (5 + L) \<or> L < 43")
    case True
    with h(1) L(1) show ?thesis
      by (auto simp: RetrieveSrmFromBuffer_def Let_def)
  next
    case False
    note off = gen1_offsets [of L, OF L(3)]
    from False have fits: "5 + unat L \<le> length buf" and ge: "\<not> L < 43"
      using gen1_total [OF L(3)] by simp_all
    note off = gen1_offsets [of L, OF L(3) ge]
    let ?o = "8 + (L - 43)"
    have lens: "unat (5 + L - 40) \<le> length buf" "20 \<le> length (drop (unat ?o) buf)"
      "20 \<le> length (drop (unat (?o + 20)) buf)" "unat (ucast (L - 43) :: u16) \<le> length (drop 8 buf)"
      using off fits by (simp_all add: unat_ucast_u32_u16)
    obtain sts w1 where V: "VerifySignature S buf (5 + L - 40) (drop (unat ?o) buf)
        (drop (unat (?o + 20)) buf) w = Ret (sts, w1)"
      using VerifySignature_defined [OF lens(1-3)] by (metis outcome.exhaust surj_pair)
    obtain ok w2 where N: "os_new os 1 w1 = (ok, w2)" by fastforce
    obtain ok' w3 where N': "os_new os 1 w2 = (ok', w3)" by fastforce
    obtain v w4 where R: "VectorRevocationList os (drop 8 buf) (ucast (L - 43)) w3 = Ret (v, w4)"
      using VectorRevocationList_defined [OF lens(4)] by (metis outcome.exhaust surj_pair)
    have "unat (?o + 20 + 20) \<le> length buf" using off fits by simp
    from gen2_loop_rejects [OF assms(2) this, of os S "[v]" w4] obtain sts' vrls' w' where
      G: "gen2_loop os S buf (?o + 20 + 20) [v] w4 = ret ((sts', vrls'), w')"
        "sts' = SUCCESS \<longleftrightarrow> unat (?o + 20 + 20) = length buf" "sts' = SUCCESS \<longrightarrow> vrls' = [v]" by auto
    let ?bad = "sts \<noteq> SUCCESS \<or> \<not> ok \<or> \<not> ok' \<or> \<not> vrl_IsValid v \<or> sts' \<noteq> SUCCESS"
    note run = RetrieveSrm_run [OF h(1) L(1) _ _ _ _ assms(3) V N N' R G(1)]
    show ?thesis
    proof (cases ?bad)
      case True
      with run False show ?thesis by (auto split: if_splits)
    next
      case good: False
      with G off have len: "length buf = unat L + 5" by auto
      have "dsa_accepts S (take (length buf - 40) buf) (take 20 (drop (length buf - 40) buf))
         (drop (length buf - 20) buf)"
        using VerifySignature_accepts [of S buf "5 + L - 40"] V good off len by fastforce
      moreover have "unat (L - 43) = length buf - 48" using off(2) len by simp
      then have u16: "(ucast (L - 43) :: u16) = of_nat (length buf - 48)" by (metis of_nat_unat)
      moreover have "VectorRevocationList os (drop 8 buf) (of_nat (length buf - 48)) w3 = Ret (v, w4)"
        using R u16 by simp
      moreover have "hdr_version h = of_nat (msg_version buf)"
        using h(3) by (metis of_nat_unat ucast_id)
      ultimately show ?thesis using run good G(3) False len h L off
        by (auto simp: word_le_nat_alt not_less)
    qed
  qed
qed

section \<open>The invariant of the table\<close>

definition srm_inv :: "SrmTable \<Rightarrow> bool" where
  "srm_inv t \<longleftrightarrow> srm_IsValid t \<and>
     (\<exists>vrls. srm_RevocationLists t = Some vrls \<and> (\<forall>v \<in> set vrls. vrl_wf v))"

text \<open>Every list the loop adds is one the parser accepted; this holds for buffers of any length.\<close>

lemma gen2_loop_wf_raw:
  assumes "gen2_loop os S buf offset vrls w = Some r"
  shows "(\<forall>v \<in> set vrls. vrl_wf v) \<longrightarrow>
     (\<forall>sts vrls' w'. r = Ret ((sts, vrls'), w') \<longrightarrow> (\<forall>v \<in> set vrls'. vrl_wf v))"
proof (rule gen2_loop.raw_induct [where P = "\<lambda>os S buf offset vrls w r.
    (\<forall>v \<in> set vrls. vrl_wf v) \<longrightarrow>
     (\<forall>sts vrls' w'. r = Ret ((sts, vrls'), w') \<longrightarrow> (\<forall>v \<in> set vrls'. vrl_wf v))", OF _ assms],
    intro allI impI, goal_cases)
  case (1 f os S buf offset vrls w r sts vrls' w')
  from 1(2) [unfolded 1(4) Let_def] consider "vrls' = vrls"
    | off v w0 ls len w1 where "f os S buf off (vrls @ [v]) w0 = ret ((sts, vrls'), w')"
        "VectorRevocationList os ls len w1 = Ret (v, w0)" "vrl_IsValid v"
    by (auto elim!: hdcp_elims split: if_splits prod.splits)
  then show ?case
  proof cases
    case 1
    with \<open>\<forall>v \<in> set vrls. vrl_wf v\<close> show ?thesis by simp
  next
    case 2
    from VectorRevocationList_valid(1) [OF 2(2,3)] \<open>\<forall>v \<in> set vrls. vrl_wf v\<close>
    have "\<forall>u \<in> set (vrls @ [v]). vrl_wf u" by simp
    with "1"(1) [OF 2(1)] show ?thesis by blast
  qed
qed

lemma gen2_loop_wf:
  assumes "gen2_loop os S buf offset vrls w = ret ((sts, vrls'), w')" "\<forall>v \<in> set vrls. vrl_wf v"
  shows "\<forall>v \<in> set vrls'. vrl_wf v"
  using gen2_loop_wf_raw [OF assms(1)] assms(2) by blast

text \<open>What a success has done to the table, for a buffer of any length.\<close>

lemma RetrieveSrm_successE:
  assumes "RetrieveSrmFromBuffer os S t buf w = ret ((SUCCESS, t'), w')"
  obtains h :: SrmHeader and vrls vrls0 where "t' = t\<lparr>srm_RevocationLists := Some vrls, srm_Version := hdr_version h,
      srm_Generation := hdr_generation h\<rparr>"
    "srm_Version t \<le> hdr_version h" "\<forall>v \<in> set vrls. vrl_wf v" "srm_RevocationLists t = Some vrls0"
proof -
  from assms obtain h :: SrmHeader and vrls vrls0 v b off w1 ls len w2 where
    "t' = t\<lparr>srm_RevocationLists := Some vrls, srm_Version := hdr_version h,
            srm_Generation := hdr_generation h\<rparr>"
    "srm_Version t \<le> hdr_version h" "srm_RevocationLists t = Some vrls0"
    and run: "gen2_loop os S b off [v] w1 = ret ((SUCCESS, vrls), w')"
      "VectorRevocationList os ls len w2 = Ret (v, w1)" "vrl_IsValid v"
    unfolding RetrieveSrmFromBuffer_def Let_def
    by (auto elim!: hdcp_elims split: option.splits prod.splits if_splits simp: not_less)
  moreover have "\<forall>u \<in> set vrls. vrl_wf u"
    using gen2_loop_wf [OF run(1)] VectorRevocationList_valid(1) [OF run(2,3)] by simp
  ultimately show thesis using that by blast
qed

lemma RetrieveSrm_inv:
  assumes "RetrieveSrmFromBuffer os S t buf w = ret ((sts, t'), w')" "srm_inv t"
  shows "srm_inv t'"
proof (cases "sts = SUCCESS")
  case True
  with assms(1) have "RetrieveSrmFromBuffer os S t buf w = ret ((SUCCESS, t'), w')" by simp
  then show ?thesis
    by (rule RetrieveSrm_successE) (use assms(2) in \<open>auto simp: srm_inv_def\<close>)
next
  case False
  with assms show ?thesis using RetrieveSrm_failure [OF assms(1)] by simp
qed

lemma RetrieveSrm_version:
  assumes "RetrieveSrmFromBuffer os S t buf w = ret ((sts, t'), w')"
  shows "srm_Version t \<le> srm_Version t'"
proof (cases "sts = SUCCESS")
  case True
  with assms have "RetrieveSrmFromBuffer os S t buf w = ret ((SUCCESS, t'), w')" by simp
  then show ?thesis by (rule RetrieveSrm_successE) auto
next
  case False
  with assms show ?thesis using RetrieveSrm_failure [OF assms(1)] by simp
qed

text \<open>The operations that the daemon performs on an initialised module.\<close>

datatype srm_op = Op_StoreSrm "u8 list" | Op_SrmConfig bool

primrec srm_exec ::
  "'w os_api \<Rightarrow> 'w ssl_api \<Rightarrow> srm_op \<Rightarrow> SrmTable option \<Rightarrow> 'w \<Rightarrow>
     ((int \<times> SrmTable option) \<times> 'w) outcome option" where
  "srm_exec os S (Op_StoreSrm data) g w = StoreSrm os S g data w"
| "srm_exec os S (Op_SrmConfig b) g w = ret (SrmConfig g b, w)"

definition srm_ginv :: "SrmTable option \<Rightarrow> bool" where
  "srm_ginv g \<longleftrightarrow> (\<forall>t. g = Some t \<longrightarrow> srm_inv t)"

definition srm_gver :: "SrmTable option \<Rightarrow> nat" where
  "srm_gver g = (case g of None \<Rightarrow> 0 | Some t \<Rightarrow> unat (srm_Version t))"

lemma StoreSrm_table:
  assumes "StoreSrm os S (Some t) data w = ret ((sts, g'), w')"
  obtains r t' w1 where "RetrieveSrmFromBuffer os S t (Some data) w = ret ((r, t'), w1)" "g' = Some t'"
  using assms unfolding StoreSrm_def Let_def
  by (auto elim!: hdcp_elims split: prod.splits if_splits sum.splits)

lemma StoreSrm_null: "StoreSrm os S None data w = ret ((ENODEV, None), w)"
  by (simp add: StoreSrm_def)

interpretation srm: versioned_store "srm_exec os S" "\<lambda>_. True" srm_ginv srm_gver
  for os :: "'w os_api" and S :: "'w ssl_api"
proof
  fix s x w r s' w'
  assume "srm_ginv s" and run: "srm_exec os S x s w = ret ((r, s'), w')"
  then show "srm_ginv s'"
    by (cases x; cases s)
      (auto simp: StoreSrm_null srm_ginv_def SrmConfig_def SetSrmStorageDisable_def srm_inv_def
        elim!: StoreSrm_table dest: RetrieveSrm_inv [unfolded srm_inv_def])
  from run show "srm_gver s \<le> srm_gver s'"
    by (cases x; cases s)
      (auto simp: StoreSrm_null srm_gver_def SrmConfig_def SetSrmStorageDisable_def
        elim!: StoreSrm_table dest!: RetrieveSrm_version simp: word_le_nat_alt)
qed

lemma SrmTable_new_inv:
  assumes "SrmTable_new os S w = ret (t, w')" "srm_IsValid t"
  shows "srm_inv t"
  using assms unfolding SrmTable_new_def Let_def
  by (auto elim!: hdcp_elims split: prod.splits if_splits sum.splits
      simp: SrmTable_empty_def srm_inv_def dest!: RetrieveSrm_inv [unfolded srm_inv_def])

lemma SrmInit_inv:
  assumes "SrmInit os S None w = ret ((sts, g), w')"
  shows "srm_ginv g"
  using assms unfolding SrmInit_def Let_def
  by (auto elim!: hdcp_elims split: prod.splits if_splits simp: srm_ginv_def dest: SrmTable_new_inv)

section \<open>Building a message\<close>

text \<open>
  The bytes of a first generation message with the given version, generation, KSVs and signature,
  as the parser expects them.
\<close>

definition gen1_message :: "u16 \<Rightarrow> u8 \<Rightarrow> u8 list list \<Rightarrow> u8 list \<Rightarrow> u8 list" where
  "gen1_message version generation ksvs sig =
     (let n = 44 + KSV_SIZE * length ksvs in
      [0x80, 0, ucast (drop_bit 8 version), ucast version, generation,
       0, of_nat (n div 256), of_nat (n mod 256), of_nat (length ksvs)] @ concat ksvs @ sig)"

lemma length_concat_ksvs:
  "\<forall>k \<in> set ksvs. length k = KSV_SIZE \<Longrightarrow> length (concat ksvs) = KSV_SIZE * length ksvs"
  by (induction ksvs) auto

lemma vrl_entry_concat:
  "\<forall>k \<in> set ksvs. length k = KSV_SIZE \<Longrightarrow> i < length ksvs \<Longrightarrow>
     vrl_entry (concat ksvs) i = ksvs ! i"
proof (induction ksvs arbitrary: i)
  case Nil
  then show ?case by simp
next
  case (Cons k ksvs)
  then show ?case by (cases i) (simp_all add: vrl_entry_def)
qed

lemma version_bytes: "256 * unat (ucast (drop_bit 8 v) :: u8) + unat (ucast (v :: u16) :: u8) = unat v"
proof -
  have "unat v < 65536" using unsigned_less [of v] by simp
  then have "unat v div 256 < 256" by simp
  then show ?thesis
    by (simp add: unsigned_ucast_eq unsigned_take_bit_eq take_bit_eq_mod unsigned_drop_bit_eq
        drop_bit_eq_div unat_div_distrib)
qed

lemma gen1_message_fields:
  fixes version :: u16 and generation :: u8
  assumes "length ksvs \<le> MAX_KSV_COUNT" "\<forall>k \<in> set ksvs. length k = KSV_SIZE" "length sig = 40"
  defines "m \<equiv> gen1_message version generation ksvs sig"
  shows "length m = 49 + KSV_SIZE * length ksvs" "m ! 0 = 0x80" "m ! 4 = generation"
    and "msg_version m = unat version" "msg_gen1_length m = 44 + KSV_SIZE * length ksvs"
    and "drop 8 m = of_nat (length ksvs) # concat ksvs @ sig"
proof -
  let ?n = "44 + 5 * length ksvs"
  have n: "?n div 256 < 256" "?n mod 256 < 256" using assms(1) by simp_all
  show "length m = 49 + KSV_SIZE * length ksvs"
    using length_concat_ksvs [OF assms(2)] assms(3) by (simp add: m_def gen1_message_def Let_def)
  show "m ! 0 = 0x80" "m ! 4 = generation" "drop 8 m = of_nat (length ksvs) # concat ksvs @ sig"
    by (simp_all add: m_def gen1_message_def Let_def)
  show "msg_version m = unat version"
    using version_bytes [of version] by (simp add: m_def gen1_message_def Let_def msg_version_def)
  show "msg_gen1_length m = 44 + KSV_SIZE * length ksvs"
    using n by (simp add: m_def gen1_message_def Let_def msg_gen1_length_def unsigned_of_nat
        take_bit_eq_mod)
qed

lemma count_byte:
  "n \<le> MAX_KSV_COUNT \<Longrightarrow> unat ((of_nat n :: u8) AND 0x7f) = n"
proof -
  assume n: "n \<le> 127"
  have "(of_nat n :: u8) AND mask 7 = take_bit 7 (of_nat n)" by (simp add: take_bit_eq_mask)
  moreover have "mask 7 = (0x7f :: u8)" by (simp add: mask_eq_exp_minus_1)
  ultimately have "(of_nat n :: u8) AND 0x7f = take_bit 7 (of_nat n)" by simp
  with n show ?thesis
    by (simp add: take_bit_eq_mod unsigned_of_nat unat_mod_distrib)
qed

text \<open>
  A message of this form is accepted when its version is not older than the table's, the
  signature check succeeds and memory can be allocated; the table then holds one list, of exactly
  the message's KSVs.
\<close>

lemma gen1_message_accepted:
  fixes version :: u16 and generation :: u8
  assumes "length ksvs \<le> MAX_KSV_COUNT" "\<forall>k \<in> set ksvs. length k = KSV_SIZE" "length sig = 40"
    and "srm_Version t \<le> version" "srm_RevocationLists t = Some vrls"
    and alloc: "\<And>n w. \<exists>w'. os_new os n w = (True, w')"
  defines "m \<equiv> gen1_message version generation ksvs sig"
  assumes sig: "\<And>w. \<exists>w'. VerifySignature S m (of_nat (length m - 40)) (drop (length m - 40) m)
      (drop (length m - 20) m) w = Ret (SUCCESS, w')"
  shows "\<exists>v w'. RetrieveSrmFromBuffer os S t (Some m) w =
      ret ((SUCCESS, t\<lparr>srm_RevocationLists := Some [v], srm_Version := version,
                     srm_Generation := generation\<rparr>), w') \<and>
      v = \<lparr>vrl_IsValid = True, vrl_NumberOfDevices = of_nat (length ksvs),
           vrl_KsvArray = Some (concat ksvs)\<rparr>"
proof -
  note F = gen1_message_fields [OF assms(1-3), of version generation, folded m_def]
  let ?k = "length ksvs"
  obtain h where h: "parse_header m = Ret h" "hdr_srm_id h = drop_bit 4 (m ! 0)"
      "unat (hdr_version h) = msg_version m" "hdr_generation h = m ! 4"
    using parse_header_in [of m] F(1) by auto
  then have hv: "hdr_version h = version" "hdr_srm_id h = 8" "hdr_generation h = generation"
    using F by (simp_all add: word_unat_eq_iff)
  obtain L where L: "parse_gen1_length m = Ret L" "unat L = 44 + 5 * ?k" "unat L < 16777216"
    using parse_gen1_length_in [of m] F by auto
  have ge: "\<not> L < 43" using L(2) by (simp add: word_less_nat_alt)
  note off = gen1_offsets [OF L(3) ge]
  have fits: "\<not> length m < unat (5 + L)" using gen1_total [OF L(3)] F(1) L(2) by simp
  have "unat (5 + L - 40) = length m - 40" using off(1) L(2) F(1) by simp
  then have oL: "5 + L - 40 = of_nat (length m - 40)" by (metis of_nat_unat ucast_id)
  have len16: "unat (ucast (L - 43) :: u16) = ?k * 5 + 1"
    using off(2) L(2) assms(1) by (simp add: unat_ucast_u32_u16)
  have devs: "(ucast (ucast ((of_nat ?k :: u8) AND 0x7f) :: u32) :: u8) = of_nat ?k"
    using assms(1) by (simp add: word_unat_eq_iff ksv_count_unat count_byte unsigned_of_nat
        take_bit_eq_mod)
  have concat_len: "length (concat ksvs) = ?k * 5"
    using length_concat_ksvs [OF assms(2)] by simp
  have arr: "take (?k * 5) (concat ksvs @ sig) = concat ksvs"
    using length_concat_ksvs [OF assms(2)] by simp
  have v: "VectorRevocationList os (drop 8 m) (ucast (L - 43)) u =
      Ret (\<lparr>vrl_IsValid = True, vrl_NumberOfDevices = of_nat ?k, vrl_KsvArray = Some (concat ksvs)\<rparr>,
        snd (os_new os (?k * 5) u))" for u
    using alloc [of "?k * 5" u] len16 concat_len assms(1)
    by (auto simp: VectorRevocationList_def Let_def F(6) vrl_size_eq [simplified]
        ksv_size_unat [simplified] count_byte devs arr)
  have end_off: "unat (8 + (L - 43) + 20 + 20) = length m" using off(5) L(2) F(1) by simp
  have g: "gen2_loop os S m (8 + (L - 43) + 20 + 20) vs u = ret ((SUCCESS, vs), u)" for vs u
    using end_off by (subst gen2_loop.simps) simp
  have o3: "unat (8 + (L - 43)) = length m - 40" "unat (8 + (L - 43) + 20) = length m - 20"
    using off L(2) F(1) by simp_all
  obtain w1 where V: "VerifySignature S m (of_nat (length m - 40)) (drop (length m - 40) m)
      (drop (length m - 20) m) w = Ret (SUCCESS, w1)" using sig by blast
  obtain w2 where N: "os_new os 1 w1 = (True, w2)" using alloc by blast
  obtain w3 where N': "os_new os 1 w2 = (True, w3)" using alloc by blast
  have "srm_RevocationLists t \<noteq> None" using assms(5) by simp
  note run = RetrieveSrm_run [OF h(1) L(1) hv(2) _ fits ge this _ N N' v g, unfolded oL o3, OF _ V]
  then show ?thesis using hv assms(4) by (simp add: not_less)
qed
section \<open>Properties\<close>

text \<open>A message and a table for the witnesses: version 1, one KSV, a signature of zeros.\<close>

definition example_srm :: "u8 list" where
  "example_srm = [0x80, 0, 0, 1, 0, 0, 0, 49, 1, 1, 2, 3, 4, 5] @ replicate 40 0"

definition example_table :: SrmTable where
  "example_table = SrmTable_empty\<lparr>srm_RevocationLists := Some [], srm_IsValid := True\<rparr>"

definition example_vrl :: vrl where
  "example_vrl = \<lparr>vrl_IsValid = True, vrl_NumberOfDevices = 1, vrl_KsvArray = Some [1, 2, 3, 4, 5]\<rparr>"

lemma example_run:
  "RetrieveSrmFromBuffer idle_os accepting_ssl example_table (Some example_srm) () =
     ret ((SUCCESS, example_table\<lparr>srm_RevocationLists := Some [example_vrl], srm_Version := 1\<rparr>), ())"
  by code_simp

lemma example_facts:
  "8 \<le> length example_srm" "srm_bounded example_srm" "srm_inv example_table"
  by (simp_all add: example_srm_def srm_bounded_def srm_inv_def example_table_def
      SrmTable_empty_def)

text \<open>C2: A message is taken into the table only if it is genuine and well-formed: the
  identifier is 8, the version is not older than the table's, the buffer is exactly as long as the
  header and the first generation part say, and the DSA verification accepted the digest of
  everything but the last 40 bytes with those 40 bytes as signature. The table then holds one
  revocation list, well-formed, and for the sizes the daemon lets through its array is the bytes
  between the count and the signature.\<close>

theorem srm_accepted_is_genuine:
  assumes run: "RetrieveSrmFromBuffer os S t (Some buf) w = ret ((SUCCESS, t'), w')"
    and len: "8 \<le> length buf" "srm_bounded buf" and inv: "srm_inv t"
  shows "drop_bit 4 (buf ! 0) = SRM_HEADER_ID \<and> unat (srm_Version t) \<le> msg_version buf \<and>
    length buf = SRM_HEADER_LENGTH + msg_gen1_length buf \<and> 43 \<le> msg_gen1_length buf \<and>
    dsa_accepts S (take (length buf - 40) buf) (take 20 (drop (length buf - 40) buf))
      (drop (length buf - 20) buf) \<and>
    (\<exists>v. t' = t\<lparr>srm_RevocationLists := Some [v], srm_Version := of_nat (msg_version buf),
               srm_Generation := buf ! 4\<rparr> \<and> vrl_wf v \<and>
         (length buf \<le> 5116 \<longrightarrow>
            vrl_KsvArray v = (if length buf = 48 then None
                              else Some (take (length buf - 49) (drop 9 buf)))))"
proof -
  have "srm_RevocationLists t \<noteq> None" using inv by (auto simp: srm_inv_def)
  from RetrieveSrm_cases [OF len this, of os S w] run obtain v u u' where
    facts: "drop_bit 4 (buf ! 0) = 8" "unat (srm_Version t) \<le> msg_version buf"
      "43 \<le> msg_gen1_length buf" "length buf = 5 + msg_gen1_length buf"
      "dsa_accepts S (take (length buf - 40) buf) (take 20 (drop (length buf - 40) buf))
         (drop (length buf - 20) buf)"
    and v: "VectorRevocationList os (drop 8 buf) (of_nat (length buf - 48)) u = Ret (v, u')"
      "vrl_IsValid v"
    and t': "t' = t\<lparr>srm_RevocationLists := Some [v], srm_Version := of_nat (msg_version buf),
                 srm_Generation := buf ! 4\<rparr>" by auto
  note V = VectorRevocationList_valid [OF v]
  have "vrl_KsvArray v = (if length buf = 48 then None else Some (take (length buf - 49) (drop 9 buf)))"
    if small: "length buf \<le> 5116"
  proof -
    have u16: "unat (of_nat (length buf - 48) :: u16) = length buf - 48"
      using small by (simp add: unsigned_of_nat take_bit_eq_mod)
    have "(of_nat (length buf - 48) = (0 :: u16)) \<longleftrightarrow> length buf = 48"
      unfolding word_unat_eq_iff u16 unsigned_0 using facts(3,4) by arith
    with V(2,3) u16 show ?thesis by auto
  qed
  with facts V(1) t' show ?thesis by auto
qed

theorem srm_accepted_is_genuine_witness:
  "drop_bit 4 (example_srm ! 0) = SRM_HEADER_ID \<and> length example_srm = 5 + msg_gen1_length example_srm"
  using srm_accepted_is_genuine [OF example_run example_facts] by simp

text \<open>C30: Reading a message never leaves the buffer, dereferences a null pointer or runs forever,
  for every buffer that holds at least the eight bytes of header and length and is short enough for
  32-bit offsets; and whatever the status, a failure leaves the table unchanged.\<close>

theorem srm_parse_safe:
  assumes "8 \<le> length buf" "srm_bounded buf" "srm_inv t"
  shows "\<exists>sts t' w'. RetrieveSrmFromBuffer os S t (Some buf) w = ret ((sts, t'), w') \<and>
    (sts \<noteq> SUCCESS \<longrightarrow> t' = t)"
proof -
  have "srm_RevocationLists t \<noteq> None" using assms(3) by (auto simp: srm_inv_def)
  from RetrieveSrm_cases [OF assms(1,2) this] show ?thesis
    using RetrieveSrm_failure by fastforce
qed

theorem srm_parse_safe_witness:
  "\<exists>sts t' w'. RetrieveSrmFromBuffer idle_os accepting_ssl example_table (Some example_srm) () =
     ret ((sts, t'), w') \<and> (sts \<noteq> SUCCESS \<longrightarrow> t' = example_table)"
  by (rule srm_parse_safe [OF example_facts])

text \<open>The check of the minimal length does not end the function, so a buffer shorter than the
  header is read out of its bounds, for every table and every library.\<close>

theorem srm_short_buffer_undefined:
  assumes "length buf < SRM_HEADER_LENGTH"
  shows "StoreSrm os S (Some t) buf w = Some Undef"
  by (simp add: StoreSrm_def RetrieveSrm_short [OF assms])

theorem srm_short_buffer_undefined_witness:
  "StoreSrm idle_os accepting_ssl (Some example_table) [] () = Some Undef"
  by (rule srm_short_buffer_undefined) simp

text \<open>C39: No message with revocation lists of a later generation is ever accepted: if the buffer
  is longer than its first generation part, the status is an error and the table is unchanged.\<close>

theorem srm_later_generations_rejected:
  assumes "8 \<le> length buf" "srm_bounded buf" "srm_inv t"
    and "SRM_HEADER_LENGTH + msg_gen1_length buf < length buf"
  shows "\<exists>sts w'. RetrieveSrmFromBuffer os S t (Some buf) w = ret ((sts, t), w') \<and> sts \<noteq> SUCCESS"
proof -
  have "srm_RevocationLists t \<noteq> None" using assms(3) by (auto simp: srm_inv_def)
  from RetrieveSrm_cases [OF assms(1,2) this, of os S w] assms(4) show ?thesis
    by (metis RetrieveSrm_failure nat_neq_iff)
qed

theorem srm_later_generations_rejected_witness:
  "\<exists>sts w'. RetrieveSrmFromBuffer idle_os accepting_ssl example_table
     (Some (example_srm @ [0, 43, 0] @ replicate 40 0)) () = ret ((sts, example_table), w') \<and>
     sts \<noteq> SUCCESS"
  by (rule srm_later_generations_rejected)
    (simp_all add: example_srm_def srm_bounded_def msg_gen1_length_def
      srm_inv_def example_table_def SrmTable_empty_def)

text \<open>C29: Rollback protection: from the initialisation of the module on, after any sequence of
  stores and configurations, whatever their statuses, the version of the table has not decreased.\<close>

theorem srm_version_never_decreases:
  assumes "SrmInit os S None w0 = ret ((sts, g), w1)"
    and "run_ops (srm_exec os S) ops g w1 = ret ((rs, g'), w2)"
  shows "srm_gver g \<le> srm_gver g'"
  by (rule srm.run_ver [OF _ SrmInit_inv [OF assms(1)] assms(2)]) (simp add: list.pred_True)

theorem srm_version_never_decreases_witness:
  "srm_gver (Some example_table) \<le>
     srm_gver (Some (example_table\<lparr>srm_RevocationLists := Some [example_vrl], srm_Version := 1\<rparr>))"
proof -
  have "SrmInit idle_os accepting_ssl None () = ret ((SUCCESS, Some example_table), ())"
    by code_simp
  moreover have "run_ops (srm_exec idle_os accepting_ssl) [Op_StoreSrm example_srm] (Some example_table) ()
      = ret (([EIO], Some (example_table\<lparr>srm_RevocationLists := Some [example_vrl],
          srm_Version := 1\<rparr>)), ())" by code_simp
  ultimately show ?thesis by (rule srm_version_never_decreases)
qed

end
