(* ===== verification/SrmStorage.thy ===== *)
theory SrmStorage
  imports Srm
begin

text \<open>
  What the SRM module promises across its operations: the storage file \<^verbatim>\<open>SRM_STORAGE_FILENAME\<close>
  that \<^verbatim>\<open>StoreSrm\<close> writes and the constructor of \<^verbatim>\<open>SrmTable\<close> reads at the next start, and the
  properties of \<^verbatim>\<open>CheckSrmRevoke\<close> after any history of stores (\<^verbatim>\<open>src/daemon/srm.cpp\<close>).
\<close>

section \<open>The storage file\<close>

text \<open>
  \<open>keeps os S c\<close>: the calls that neither open nor write a file leave the content \<open>c\<close> of the storage
  file alone. \<open>posix_storage os c at\<close>: the behaviour POSIX documents for a regular file, the storage
  file, where \<open>at w fd\<close> is the offset of a descriptor that is open on it. Opening it starts at offset 0
  and keeps the content, unless it is opened for writing with \<^verbatim>\<open>O_TRUNC\<close>, which empties it. A write of
  \<open>n\<close> bytes on such a descriptor replaces the \<open>n\<close> bytes behind the offset and leaves the others alone;
  \<^verbatim>\<open>fstat\<close> tells the length, and \<^verbatim>\<open>mmap\<close> maps what is there, if it is not empty. \<open>storage_up\<close>: memory, a mutex and the
  storage file are to be had.
\<close>

definition keeps :: "'w os_api \<Rightarrow> 'w ssl_api \<Rightarrow> ('w \<Rightarrow> 'c) \<Rightarrow> bool" where
  "keeps os S c \<longleftrightarrow>
     (\<forall>n w. c (snd (os_new os n w)) = c w) \<and> (\<forall>w. c (snd (os_mutex_init os w)) = c w) \<and>
     (\<forall>fd w. c (snd (os_close os fd w)) = c w) \<and>
     (\<forall>fd w. c (snd (os_fstat os fd w)) = c w) \<and> (\<forall>fd n w. c (snd (os_mmap os fd n w)) = c w) \<and>
     (\<forall>w. c (snd (ssl_DSA_new S w)) = c w) \<and> (\<forall>w. c (snd (ssl_DSA_SIG_new S w)) = c w) \<and>
     (\<forall>bs w. c (snd (ssl_BN_bin2bn S bs w)) = c w)"

definition posix_storage :: "'w os_api \<Rightarrow> ('w \<Rightarrow> u8 list) \<Rightarrow> ('w \<Rightarrow> int \<Rightarrow> nat option) \<Rightarrow> bool" where
  "posix_storage os c at \<longleftrightarrow>
     (\<forall>fl w fd w'. os_open os SRM_STORAGE_FILENAME fl w = (Inr fd, w') \<longrightarrow> at w' fd = Some 0 \<and>
        c w' = (if O_TRUNC \<in> set fl \<and> O_RDONLY \<notin> set fl then [] else c w)) \<and>
     (\<forall>fd w p bs n w'. at w fd = Some p \<longrightarrow> p \<le> length (c w) \<longrightarrow> os_write os fd bs w = (Inr n, w') \<longrightarrow>
        c w' = take p (c w) @ take n bs @ drop (p + n) (c w)) \<and>
     (\<forall>fd w. at w fd \<noteq> None \<longrightarrow> fst (os_fstat os fd w) = Inr (True, length (c w))) \<and>
     (\<forall>fd w fd'. at (snd (os_fstat os fd w)) fd' = at w fd') \<and>
     (\<forall>fd w. at w fd \<noteq> None \<longrightarrow> c w \<noteq> [] \<longrightarrow> fst (os_mmap os fd (length (c w)) w) = Inr (c w))"

definition storage_up :: "'w os_api \<Rightarrow> bool" where
  "storage_up os \<longleftrightarrow> (\<forall>w. fst (os_mutex_init os w) = 0) \<and> (\<forall>n w. fst (os_new os n w)) \<and>
     (\<forall>fl w. \<exists>fd. fst (os_open os SRM_STORAGE_FILENAME fl w) = Inr fd)"

lemma keeps_call:
  assumes "keeps os S c"
  shows "os_new os n w = (b, w') \<Longrightarrow> c w' = c w" "os_mutex_init os w = (i, w') \<Longrightarrow> c w' = c w"
    "os_close os fd w = (u, w') \<Longrightarrow> c w' = c w"
    "os_fstat os fd w = (s, w') \<Longrightarrow> c w' = c w" "os_mmap os fd n w = (m, w') \<Longrightarrow> c w' = c w"
    "ssl_DSA_new S w = (b, w') \<Longrightarrow> c w' = c w" "ssl_DSA_SIG_new S w = (b, w') \<Longrightarrow> c w' = c w"
    "ssl_BN_bin2bn S bs w = (k, w') \<Longrightarrow> c w' = c w"
  using assms unfolding keeps_def by (metis snd_conv)+

lemma up_calls:
  assumes "storage_up os"
  shows "\<exists>w'. os_new os n w = (True, w')" "\<exists>w'. os_mutex_init os w = (0, w')"
    "\<exists>fd w'. os_open os SRM_STORAGE_FILENAME fl w = (Inr fd, w')"
proof -
  have "fst (os_new os n w)" "fst (os_mutex_init os w) = 0"
    "\<exists>fd. fst (os_open os SRM_STORAGE_FILENAME fl w) = Inr fd"
    using assms unfolding storage_up_def by simp_all
  then show "\<exists>w'. os_new os n w = (True, w')" "\<exists>w'. os_mutex_init os w = (0, w')"
    "\<exists>fd w'. os_open os SRM_STORAGE_FILENAME fl w = (Inr fd, w')"
    by (metis prod.collapse)+
qed

lemma posix_calls:
  assumes "posix_storage os c at"
  shows "os_open os SRM_STORAGE_FILENAME fl w = (Inr fd, w') \<Longrightarrow> at w' fd = Some 0 \<and>
      c w' = (if O_TRUNC \<in> set fl \<and> O_RDONLY \<notin> set fl then [] else c w)"
    and "at w fd = Some 0 \<Longrightarrow> os_write os fd bs w = (Inr n, w') \<Longrightarrow> c w' = take n bs @ drop n (c w)"
    and "at w fd \<noteq> None \<Longrightarrow> \<exists>w'. os_fstat os fd w = (Inr (True, length (c w)), w') \<and> at w' fd \<noteq> None"
    and "at w fd \<noteq> None \<Longrightarrow> c w \<noteq> [] \<Longrightarrow> \<exists>w'. os_mmap os fd (length (c w)) w = (Inr (c w), w')"
proof -
  note P = assms [unfolded posix_storage_def]
  show "os_open os SRM_STORAGE_FILENAME fl w = (Inr fd, w') \<Longrightarrow> at w' fd = Some 0 \<and>
      c w' = (if O_TRUNC \<in> set fl \<and> O_RDONLY \<notin> set fl then [] else c w)" using P by blast
  show "at w fd = Some 0 \<Longrightarrow> os_write os fd bs w = (Inr n, w') \<Longrightarrow> c w' = take n bs @ drop n (c w)"
    using P [THEN conjunct2, THEN conjunct1, rule_format, of w fd 0 bs n w'] by simp
  show "at w fd \<noteq> None \<Longrightarrow> \<exists>w'. os_fstat os fd w = (Inr (True, length (c w)), w') \<and> at w' fd \<noteq> None"
    using P by (metis prod.collapse)
  show "at w fd \<noteq> None \<Longrightarrow> c w \<noteq> [] \<Longrightarrow> \<exists>w'. os_mmap os fd (length (c w)) w = (Inr (c w), w')"
    using P by (metis prod.collapse)
qed

lemma VerifySignature_keeps:
  assumes "keeps os S c" "VerifySignature S pMsg msgLen pR pS w = Ret (sts, w')"
  shows "c w' = c w"
  using assms(2) unfolding VerifySignature_def Let_def
  by (auto elim!: hdcp_elims split: prod.splits if_splits dest!: keeps_call [OF assms(1)])

lemma VectorRevocationList_keeps:
  assumes "keeps os S c" "VectorRevocationList os buf len w = Ret (v, w')"
  shows "c w' = c w"
  using assms(2) unfolding VectorRevocationList_def Let_def
  by (auto elim!: hdcp_elims split: prod.splits if_splits dest!: keeps_call [OF assms(1)])

lemma gen2_loop_success_world:
  assumes "srm_bounded buf" "gen2_loop os S buf offset vrls w = ret ((SUCCESS, vrls'), w')"
  shows "w' = w"
proof (cases "unat offset \<le> length buf")
  case True
  from gen2_loop_rejects [OF assms(1) True, of os S vrls w] assms(2) show ?thesis by auto
next
  case False
  with assms(2) show ?thesis by (subst (asm) gen2_loop.simps) simp
qed

lemma RetrieveSrm_keeps:
  assumes "keeps os S c" "srm_bounded buf"
    and "RetrieveSrmFromBuffer os S t (Some buf) w = ret ((SUCCESS, t'), w')"
  shows "c w' = c w"
proof -
  from assms(3) obtain m n o' p w1 w2 w3 ls len v w4 off vs where
    "VerifySignature S m n o' p w = Ret (SUCCESS, w1)" "os_new os 1 w1 = (True, w2)"
    "os_new os 1 w2 = (True, w3)" "VectorRevocationList os ls len w3 = Ret (v, w4)"
    "gen2_loop os S buf off [v] w4 = ret ((SUCCESS, vs), w')"
    unfolding RetrieveSrmFromBuffer_def Let_def
    by (auto elim!: hdcp_elims split: option.splits prod.splits if_splits)
  then show ?thesis
    using VerifySignature_keeps [OF assms(1)] keeps_call(1) [OF assms(1)]
      VectorRevocationList_keeps [OF assms(1)] gen2_loop_success_world [OF assms(2)] by metis
qed

text \<open>A successful store with storage enabled overwrites the front of the file.\<close>

lemma StoreSrm_file:
  assumes "keeps os S c" "posix_storage os c at" "srm_bounded data"
    and "StoreSrm os S (Some t) data w = ret ((SUCCESS, Some t'), w')" "\<not> srm_IsSrmStorageDisable t'"
  shows "c w' = data @ drop (length data) (c w)"
    and "\<exists>w1. RetrieveSrmFromBuffer os S t (Some data) w = ret ((SUCCESS, t'), w1)"
proof -
  from assms(4,5) obtain w1 fd w2 w3 u where
    run: "RetrieveSrmFromBuffer os S t (Some data) w = ret ((SUCCESS, t'), w1)"
    and calls: "os_open os SRM_STORAGE_FILENAME [O_WRONLY, O_CREAT] w1 = (Inr fd, w2)"
      "os_write os fd data w2 = (Inr (length data), w3)" "os_close os fd w3 = (u, w')"
    unfolding StoreSrm_def Let_def
    by (auto elim!: hdcp_elims split: prod.splits if_splits sum.splits)
  from run show "\<exists>w1. RetrieveSrmFromBuffer os S t (Some data) w = ret ((SUCCESS, t'), w1)" by blast
  have opened: "at w2 fd = Some 0" "c w2 = c w"
    using posix_calls(1) [OF assms(2) calls(1)] RetrieveSrm_keeps [OF assms(1,3) run] by simp_all
  have "c w3 = data @ drop (length data) (c w2)"
    using posix_calls(2) [OF assms(2) opened(1) calls(2)] by simp
  with opened(2) show "c w' = data @ drop (length data) (c w)"
    using keeps_call(3) [OF assms(1) calls(3)] by simp
qed

text \<open>A start over a file whose message is refused ends with the empty table.\<close>

lemma SrmInit_refused:
  assumes "keeps os S c" "posix_storage os c at" "storage_up os" "c w \<noteq> []"
    and refused: "\<And>u. \<exists>sts u'. RetrieveSrmFromBuffer os S
        (SrmTable_empty\<lparr>srm_RevocationLists := Some [], srm_IsValid := True\<rparr>) (Some (c w)) u =
        ret ((sts, SrmTable_empty\<lparr>srm_RevocationLists := Some [], srm_IsValid := True\<rparr>), u')"
  shows "\<exists>w'. SrmInit os S None w =
    ret ((SUCCESS, Some (SrmTable_empty\<lparr>srm_RevocationLists := Some [], srm_IsValid := True\<rparr>)), w')"
proof -
  note up = up_calls [OF assms(3)] and P = posix_calls [OF assms(2)] and k = keeps_call [OF assms(1)]
  obtain w1 where 1: "os_new os 1 w = (True, w1)" using up(1) by blast
  obtain w2 where 2: "os_mutex_init os w1 = (0, w2)" using up(2) by blast
  obtain w3 where 3: "os_new os 1 w2 = (True, w3)" using up(1) by blast
  obtain fd w4 where 4: "os_open os SRM_STORAGE_FILENAME [O_RDONLY] w3 = (Inr fd, w4)"
    using up(3) by blast
  have c4: "c w4 = c w" "at w4 fd \<noteq> None" using k(1) [OF 1] k(2) [OF 2] k(1) [OF 3] P(1) [OF 4] by simp_all
  obtain w5 where 5: "os_fstat os fd w4 = (Inr (True, length (c w)), w5)" "at w5 fd \<noteq> None"
    using P(3) [OF c4(2)] c4(1) by auto
  obtain w6 where 6: "os_mmap os fd (length (c w)) w5 = (Inr (c w), w6)"
    using P(4) [OF 5(2)] k(4) [OF 5(1)] c4(1) assms(4) by auto
  obtain sts w7 where 7: "RetrieveSrmFromBuffer os S
        (SrmTable_empty\<lparr>srm_RevocationLists := Some [], srm_IsValid := True\<rparr>) (Some (c w)) w6 =
        ret ((sts, SrmTable_empty\<lparr>srm_RevocationLists := Some [], srm_IsValid := True\<rparr>), w7)"
    using refused by blast
  show ?thesis
    using 1 2 3 4 5(1) 6 7 assms(4) by (auto simp: SrmInit_def SrmTable_new_def Let_def split: prod.split)
qed

section \<open>Properties\<close>

text \<open>A world that is the storage file, for the witnesses.\<close>

definition file_os :: "u8 list os_api" where
  "file_os = idle_os\<lparr>os_open := (\<lambda>p fl w. (Inr 3, if O_TRUNC \<in> set fl \<and> O_RDONLY \<notin> set fl then [] else w)),
     os_fstat := (\<lambda>fd w. (Inr (True, length w), w)), os_mmap := (\<lambda>fd n w. (Inr w, w)),
     os_write := (\<lambda>fd bs w. (Inr (length bs), bs @ drop (length bs) w))\<rparr>"

lemma file_os_laws: "keeps file_os accepting_ssl id" "posix_storage file_os id (\<lambda>w fd. if fd = 3 then Some 0 else None)" "storage_up file_os"
  by (auto simp: keeps_def posix_storage_def storage_up_def file_os_def idle_simps)

lemma file_store:
  "StoreSrm file_os accepting_ssl (Some example_table) example_srm (replicate 60 0) =
     ret ((SUCCESS, Some (example_table\<lparr>srm_RevocationLists := Some [example_vrl],
       srm_Version := 1\<rparr>)), example_srm @ replicate 6 0)"
  by code_simp

text \<open>C38: The storage file is opened without being truncated, so a message stored over a longer
  file leaves the tail of the old one behind it; at the next start the file is refused as a whole,
  and the module comes up with no revocation list and version 0: the stored message and the
  rollback protection are lost.\<close>

theorem srm_restart_loses_message:
  assumes laws: "keeps os S c" "posix_storage os c at" "storage_up os"
    and small: "srm_bounded data" "srm_bounded (c w)" and long: "8 \<le> length data" "length data < length (c w)"
    and store: "StoreSrm os S (Some t) data w = ret ((SUCCESS, Some t'), w')" "srm_inv t"
    and enabled: "\<not> srm_IsSrmStorageDisable t'"
  shows "\<exists>w''. SrmInit os S (SrmRelease (Some t')) w' =
    ret ((SUCCESS, Some (SrmTable_empty\<lparr>srm_RevocationLists := Some [], srm_IsValid := True\<rparr>)), w'')"
proof -
  note stored = StoreSrm_file [OF laws(1,2) small(1) store(1) enabled]
  have none: "srm_RevocationLists t \<noteq> None" using store(2) by (auto simp: srm_inv_def)
  obtain w1 where run: "RetrieveSrmFromBuffer os S t (Some data) w = ret ((SUCCESS, t'), w1)"
    using stored(2) by blast
  from RetrieveSrm_cases [OF long(1) small(1) none, of os S w] run
  have total: "length data = 5 + msg_gen1_length data" by auto
  let ?E = "SrmTable_empty\<lparr>srm_RevocationLists := Some [], srm_IsValid := True\<rparr>"
  have same: "msg_gen1_length (c w') = msg_gen1_length data"
    using long(1) by (simp add: stored(1) msg_gen1_length_def nth_append)
  have len: "length (c w') = length (c w)" using long(2) by (simp add: stored(1))
  then have bounded: "srm_bounded (c w')" "8 \<le> length (c w')" using small(2) long
    by (simp_all add: srm_bounded_def)
  have "\<exists>sts u'. RetrieveSrmFromBuffer os S ?E (Some (c w')) u = ret ((sts, ?E), u')" for u
  proof -
    have "srm_RevocationLists ?E \<noteq> None" by simp
    from RetrieveSrm_cases [OF bounded(2,1) this, of os S u] obtain sts t1 u' where
      r: "RetrieveSrmFromBuffer os S ?E (Some (c w')) u = ret ((sts, t1), u')"
      and s: "sts = SUCCESS \<longrightarrow> length (c w') = 5 + msg_gen1_length (c w')" by blast
    have "sts \<noteq> SUCCESS" using s len long(2) total same by auto
    with RetrieveSrm_failure [OF r] r show ?thesis by blast
  qed
  moreover have "c w' \<noteq> []" using bounded(2) by auto
  ultimately show ?thesis unfolding SrmRelease_def using SrmInit_refused [OF laws] by blast
qed

theorem srm_restart_loses_message_witness:
  "\<exists>w''. SrmInit file_os accepting_ssl (SrmRelease (Some (example_table\<lparr>srm_RevocationLists :=
      Some [example_vrl], srm_Version := 1\<rparr>))) (example_srm @ replicate 6 0) =
    ret ((SUCCESS, Some (SrmTable_empty\<lparr>srm_RevocationLists := Some [], srm_IsValid := True\<rparr>)), w'')"
  by (rule srm_restart_loses_message [OF file_os_laws _ _ _ _ file_store])
    (simp_all add: example_srm_def srm_bounded_def srm_inv_def example_table_def SrmTable_empty_def)

text \<open>C37: After any history of stores and configurations that started with an initialisation, the
  revocation check never reports a KSV as revoked: it answers SUCCESS for every KSV, listed or not,
  or that there is no table.\<close>

theorem srm_revoked_ksv_never_reported:
  assumes "SrmInit os S None w0 = ret ((sts, g), w1)"
    and "run_ops (srm_exec os S) ops g w1 = ret ((rs, g'), w2)" "length ksv = KSV_SIZE"
  shows "CheckSrmRevoke g' (Some ksv) = Ret (if g' = None then ENODEV else SUCCESS)"
proof -
  have "srm_ginv g'" by (rule srm.run_inv [OF _ SrmInit_inv [OF assms(1)] assms(2)]) (simp add: list.pred_True)
  then show ?thesis using check_vrls_wf [OF _ assms(3)]
    by (auto simp: CheckSrmRevoke_def SrmTable_CheckSrmRevoke_def srm_ginv_def srm_inv_def
        split: option.splits)
qed

theorem srm_revoked_ksv_never_reported_witness:
  "CheckSrmRevoke (Some (example_table\<lparr>srm_RevocationLists := Some [example_vrl], srm_Version := 1\<rparr>))
     (Some [5, 4, 3, 2, 1]) = Ret SUCCESS \<and> vrl_lists example_vrl [5, 4, 3, 2, 1]"
proof -
  have init: "SrmInit idle_os accepting_ssl None () = ret ((SUCCESS, Some example_table), ())"
    by code_simp
  have run: "run_ops (srm_exec idle_os accepting_ssl) [Op_StoreSrm example_srm] (Some example_table) ()
      = ret (([EIO], Some (example_table\<lparr>srm_RevocationLists := Some [example_vrl],
          srm_Version := 1\<rparr>)), ())" by code_simp
  show ?thesis using srm_revoked_ksv_never_reported [OF init run, of "[5, 4, 3, 2, 1]"]
    by (simp add: vrl_lists_def vrl_entry_def example_vrl_def)
qed

text \<open>C35: The search itself is right: on a list the parser accepted, the loop of ContainsKsv stops
  before the end exactly if the list has an entry with the bytes of the KSV in reverse order.\<close>

theorem srm_search_correct:
  assumes "vrl_wf v" "vrl_KsvArray v = Some arr" "length ksv = KSV_SIZE"
  shows "\<exists>j. ContainsKsv_loop arr ksv (unat (vrl_NumberOfDevices v)) 0 = Ret j \<and>
     (j < unat (vrl_NumberOfDevices v) \<longleftrightarrow> vrl_lists v ksv)"
  by (rule ContainsKsv_loop_found [OF assms])

theorem srm_search_correct_witness:
  "\<exists>j. ContainsKsv_loop [1, 2, 3, 4, 5] [5, 4, 3, 2, 1] 1 0 = Ret j \<and> j < 1"
  using srm_search_correct [of example_vrl "[1, 2, 3, 4, 5]" "[5, 4, 3, 2, 1]"]
  by (simp add: vrl_wf_def vrl_lists_def vrl_entry_def example_vrl_def)

text \<open>C31: Round trip: a message made of a version, a list of KSVs and a signature that verifies is
  accepted if its version is not older, and the list the table then holds contains exactly the KSVs
  of the message.\<close>

theorem srm_message_roundtrip:
  fixes version :: u16 and generation :: u8 and sig :: "u8 list"
  assumes "length ksvs \<le> MAX_KSV_COUNT" "\<forall>k \<in> set ksvs. length k = KSV_SIZE" "length sig = 40"
    and "srm_Version t \<le> version" "srm_inv t"
    and alloc: "\<And>n w. \<exists>w'. os_new os n w = (True, w')"
    and sig: "\<And>w. \<exists>w'. VerifySignature S (gen1_message version generation ksvs sig)
      (of_nat (length (gen1_message version generation ksvs sig) - 40))
      (drop (length (gen1_message version generation ksvs sig) - 40)
        (gen1_message version generation ksvs sig))
      (drop (length (gen1_message version generation ksvs sig) - 20)
        (gen1_message version generation ksvs sig)) w = Ret (SUCCESS, w')"
  shows "\<exists>v t' w'. RetrieveSrmFromBuffer os S t (Some (gen1_message version generation ksvs sig)) w =
      ret ((SUCCESS, t'), w') \<and> srm_Version t' = version \<and> srm_RevocationLists t' = Some [v] \<and>
      (\<forall>ksv. length ksv = KSV_SIZE \<longrightarrow> (vrl_lists v ksv \<longleftrightarrow> rev ksv \<in> set ksvs))"
proof -
  obtain vrls where vrls: "srm_RevocationLists t = Some vrls" using assms(5) by (auto simp: srm_inv_def)
  obtain v w' where run: "RetrieveSrmFromBuffer os S t
      (Some (gen1_message version generation ksvs sig)) w = ret ((SUCCESS,
        t\<lparr>srm_RevocationLists := Some [v], srm_Version := version, srm_Generation := generation\<rparr>), w')"
    and v: "v = \<lparr>vrl_IsValid = True, vrl_NumberOfDevices = of_nat (length ksvs),
           vrl_KsvArray = Some (concat ksvs)\<rparr>"
    using gen1_message_accepted [OF assms(1-4) vrls alloc sig, of w] by blast
  have "unat (of_nat (length ksvs) :: u8) = length ksvs"
    using assms(1) by (simp add: unsigned_of_nat take_bit_eq_mod)
  then have "vrl_lists v ksv \<longleftrightarrow> rev ksv \<in> set ksvs" for ksv
    using vrl_entry_concat [OF assms(2)]
    by (auto simp: v vrl_lists_def in_set_conv_nth)
  with run show ?thesis by auto
qed

theorem srm_message_roundtrip_witness:
  "\<exists>v t' w'. RetrieveSrmFromBuffer idle_os accepting_ssl example_table
      (Some (gen1_message 3 0 [[1, 2, 3, 4, 5], [6, 7, 8, 9, 10]] (replicate 40 0))) () =
      ret ((SUCCESS, t'), w') \<and> srm_Version t' = 3 \<and> srm_RevocationLists t' = Some [v] \<and>
      (\<forall>ksv. length ksv = KSV_SIZE \<longrightarrow>
        (vrl_lists v ksv \<longleftrightarrow> rev ksv \<in> set [[1, 2, 3, 4, 5], [6, 7, 8, 9, 10]]))"
proof (rule srm_message_roundtrip)
  fix w :: unit
  show "\<exists>w'. VerifySignature accepting_ssl
      (gen1_message 3 0 [[1, 2, 3, 4, 5], [6, 7, 8, 9, 10]] (replicate 40 0))
      (of_nat (length (gen1_message 3 0 [[1, 2, 3, 4, 5], [6, 7, 8, 9, 10]] (replicate 40 0)) - 40))
      (drop (length (gen1_message 3 0 [[1, 2, 3, 4, 5], [6, 7, 8, 9, 10]] (replicate 40 0)) - 40)
        (gen1_message 3 0 [[1, 2, 3, 4, 5], [6, 7, 8, 9, 10]] (replicate 40 0)))
      (drop (length (gen1_message 3 0 [[1, 2, 3, 4, 5], [6, 7, 8, 9, 10]] (replicate 40 0)) - 20)
        (gen1_message 3 0 [[1, 2, 3, 4, 5], [6, 7, 8, 9, 10]] (replicate 40 0))) w = Ret (SUCCESS, w')"
    by (simp add: gen1_message_def VerifySignature_def idle_simps Let_def)
qed (simp_all add: example_table_def SrmTable_empty_def srm_inv_def idle_simps)

text \<open>Once a message is accepted the module keeps its table whatever happens to the storage
  file: the store answers SUCCESS, or EIO when the file cannot be opened or written, and in both
  cases the table is the new one.\<close>

theorem srm_store_keeps_new_table:
  assumes "RetrieveSrmFromBuffer os S t (Some data) w = ret ((SUCCESS, t'), w1)"
  shows "\<exists>sts w2. StoreSrm os S (Some t) data w = ret ((sts, Some t'), w2) \<and> sts \<in> {SUCCESS, EIO} \<and>
    (srm_IsSrmStorageDisable t' \<longrightarrow> sts = SUCCESS)"
  using assms by (auto simp: StoreSrm_def Let_def split: prod.splits sum.splits)

theorem srm_store_keeps_new_table_witness:
  "\<exists>sts w2. StoreSrm idle_os accepting_ssl (Some example_table) example_srm () =
    ret ((sts, Some (example_table\<lparr>srm_RevocationLists := Some [example_vrl], srm_Version := 1\<rparr>)), w2) \<and>
    sts \<in> {SUCCESS, EIO}"
  using srm_store_keeps_new_table [OF example_run] by blast

end
