(* ===== verification/Port.thy ===== *)
theory Port
  imports Hdcp_Prelude
begin

text \<open>
  One connector: the class \<^verbatim>\<open>DrmObject\<close> of \<^verbatim>\<open>src/daemon/port.{h,cpp}\<close>. Its two mutexes are the two
  flags that say whether they are held: acquiring a mutex that is held does not return, since the
  threads that could release it are not part of one operation, and releasing one that is not held
  is undefined.
\<close>

section \<open>The class\<close>

record DrmProperty =
  prop_name :: string
  propertyId :: u32
  propertyValue :: u32

record DrmObject =
  m_DrmId :: u32
  m_PortId :: u32
  m_Connection :: u32
  m_ConnectionMutex :: bool
  m_Depth :: u32
  m_DeviceCount :: u32
  m_CpType :: u32
  m_CpTypeMutex :: bool
  m_PropertyList :: "DrmProperty list"
  m_AppIds :: "u32 list"

definition DrmObject_new :: "u32 \<Rightarrow> u32 \<Rightarrow> DrmObject" where
  "DrmObject_new drm_id port_id = \<lparr>m_DrmId = drm_id, m_PortId = port_id,
     m_Connection = UINT32_MAX, m_ConnectionMutex = False, m_Depth = UINT32_MAX,
     m_DeviceCount = UINT32_MAX, m_CpType = UINT32_MAX, m_CpTypeMutex = False,
     m_PropertyList = [], m_AppIds = []\<rparr>"

definition AddDrmProperty :: "string \<Rightarrow> u32 \<Rightarrow> u32 \<Rightarrow> DrmObject \<Rightarrow> DrmObject" where
  "AddDrmProperty name pid val ob = ob\<lparr>m_PropertyList := m_PropertyList ob @
     [\<lparr>prop_name = name, propertyId = pid, propertyValue = val\<rparr>]\<rparr>"

fun find_property :: "string \<Rightarrow> DrmProperty list \<Rightarrow> DrmProperty option" where
  "find_property name [] = None"
| "find_property name (p # ps) = (if prop_name p = name then Some p else find_property name ps)"

definition GetPropertyId :: "string \<Rightarrow> DrmObject \<Rightarrow> u32" where
  "GetPropertyId name ob =
     (case find_property name (m_PropertyList ob) of None \<Rightarrow> UINT32_MAX | Some p \<Rightarrow> propertyId p)"

definition GetPropertyValue :: "string \<Rightarrow> DrmObject \<Rightarrow> u32" where
  "GetPropertyValue name ob =
     (case find_property name (m_PropertyList ob) of None \<Rightarrow> UINT32_MAX | Some p \<Rightarrow> propertyValue p)"

definition SetDepth :: "u32 \<Rightarrow> DrmObject \<Rightarrow> DrmObject" where
  "SetDepth depth ob = ob\<lparr>m_Depth := depth\<rparr>"

definition SetDeviceCount :: "u32 \<Rightarrow> DrmObject \<Rightarrow> DrmObject" where
  "SetDeviceCount n ob = ob\<lparr>m_DeviceCount := n\<rparr>"

definition SetConnection :: "u32 \<Rightarrow> DrmObject \<Rightarrow> DrmObject" where
  "SetConnection c ob = ob\<lparr>m_Connection := c\<rparr>"

text \<open>The content type is kept in 32 bits but read and set through 8.\<close>

definition GetCpType :: "DrmObject \<Rightarrow> u8" where
  "GetCpType ob = ucast (m_CpType ob)"

definition SetCpType :: "u8 \<Rightarrow> DrmObject \<Rightarrow> DrmObject" where
  "SetCpType cpType ob = ob\<lparr>m_CpType := ucast cpType\<rparr>"

fun app_exists :: "u32 \<Rightarrow> u32 list \<Rightarrow> bool" where
  "app_exists appId [] = False"
| "app_exists appId (i # is) = (i = appId \<or> app_exists appId is)"

definition AddRefAppId :: "u32 \<Rightarrow> DrmObject \<Rightarrow> DrmObject" where
  "AddRefAppId appId ob =
     (if \<not> app_exists appId (m_AppIds ob) then ob\<lparr>m_AppIds := m_AppIds ob @ [appId]\<rparr> else ob)"

definition RemoveRefAppId :: "u32 \<Rightarrow> DrmObject \<Rightarrow> DrmObject" where
  "RemoveRefAppId appId ob = ob\<lparr>m_AppIds := filter (\<lambda>i. i \<noteq> appId) (m_AppIds ob)\<rparr>"

definition GetRefAppCount :: "DrmObject \<Rightarrow> u32" where
  "GetRefAppCount ob = of_nat (length (m_AppIds ob))"

definition ClearRefAppId :: "DrmObject \<Rightarrow> DrmObject" where
  "ClearRefAppId ob = ob\<lparr>m_AppIds := []\<rparr>"

definition ConnAtomicBegin :: "DrmObject \<Rightarrow> DrmObject outcome option" where
  "ConnAtomicBegin ob = (if m_ConnectionMutex ob then None else ret (ob\<lparr>m_ConnectionMutex := True\<rparr>))"

definition ConnAtomicEnd :: "DrmObject \<Rightarrow> DrmObject outcome option" where
  "ConnAtomicEnd ob =
     (if m_ConnectionMutex ob then ret (ob\<lparr>m_ConnectionMutex := False\<rparr>) else Some Undef)"

definition CpTypeAtomicBegin :: "DrmObject \<Rightarrow> DrmObject outcome option" where
  "CpTypeAtomicBegin ob = (if m_CpTypeMutex ob then None else ret (ob\<lparr>m_CpTypeMutex := True\<rparr>))"

definition CpTypeAtomicEnd :: "DrmObject \<Rightarrow> DrmObject outcome option" where
  "CpTypeAtomicEnd ob =
     (if m_CpTypeMutex ob then ret (ob\<lparr>m_CpTypeMutex := False\<rparr>) else Some Undef)"

section \<open>The applications that use a port\<close>

text \<open>
  The contract of a set of references: what its clients may rely on. The list of a port has no
  duplicates, so its length is the number of applications.
\<close>

locale ref_set =
  fixes refs :: "'o \<Rightarrow> 'a set" and valid :: "'a \<Rightarrow> bool" and ok :: "'o \<Rightarrow> bool"
    and add :: "'a \<Rightarrow> 'o \<Rightarrow> 'o" and remove :: "'a \<Rightarrow> 'o \<Rightarrow> 'o" and clear :: "'o \<Rightarrow> 'o"
    and none :: "'o \<Rightarrow> bool"
  assumes add_refs: "refs (add a s) = insert a (refs s)"
    and add_ok: "valid a \<Longrightarrow> ok s \<Longrightarrow> ok (add a s)"
    and remove_refs: "refs (remove a s) = refs s - {a}"
    and remove_ok: "ok s \<Longrightarrow> ok (remove a s)"
    and clear_refs: "refs (clear s) = {}"
    and clear_ok: "ok (clear s)"
    and none_iff: "ok s \<Longrightarrow> none s \<longleftrightarrow> refs s = {}"
begin

lemma remove_last: "ok s \<Longrightarrow> refs s = {a} \<Longrightarrow> none (remove a s)"
  by (simp add: none_iff remove_ok remove_refs)

lemma remove_other: "ok s \<Longrightarrow> b \<in> refs s \<Longrightarrow> b \<noteq> a \<Longrightarrow> \<not> none (remove a s)"
  by (auto simp: none_iff remove_ok remove_refs)

lemma clear_add_remove: "valid a \<Longrightarrow> none (remove a (add a (clear s)))"
  by (simp add: none_iff remove_ok remove_refs add_ok add_refs clear_ok clear_refs)

lemma add_remove: "a \<notin> refs s \<Longrightarrow> refs (remove a (add a s)) = refs s"
  by (simp add: remove_refs add_refs)

end

text \<open>An application is known by the descriptor of its connection, which is not negative.\<close>

definition app_id :: "u32 \<Rightarrow> bool" where
  "app_id a \<longleftrightarrow> a < 2147483648"

definition app_refs :: "DrmObject \<Rightarrow> u32 set" where
  "app_refs ob = set (m_AppIds ob)"

definition app_ok :: "DrmObject \<Rightarrow> bool" where
  "app_ok ob \<longleftrightarrow> distinct (m_AppIds ob) \<and> (\<forall>a \<in> set (m_AppIds ob). app_id a)"

definition no_apps :: "DrmObject \<Rightarrow> bool" where
  "no_apps ob \<longleftrightarrow> \<not> 1 \<le> GetRefAppCount ob"

lemma app_exists_iff [simp]: "app_exists a l \<longleftrightarrow> a \<in> set l"
  by (induction l) auto

lemma app_ok_length: "app_ok ob \<Longrightarrow> length (m_AppIds ob) \<le> 2 ^ 31"
proof -
  assume ok: "app_ok ob"
  then have "unat ` set (m_AppIds ob) \<subseteq> {..< 2 ^ 31}"
    by (auto simp: app_ok_def app_id_def word_less_nat_alt)
  then have "card (unat ` set (m_AppIds ob)) \<le> 2 ^ 31"
    by (metis card_lessThan card_mono finite_lessThan)
  moreover have "card (unat ` set (m_AppIds ob)) = length (m_AppIds ob)"
    using ok by (subst card_image) (auto simp: app_ok_def distinct_card inj_on_def word_unat_eq_iff)
  ultimately show ?thesis by simp
qed

lemma no_apps_iff: "app_ok ob \<Longrightarrow> no_apps ob \<longleftrightarrow> m_AppIds ob = []"
proof -
  assume "app_ok ob"
  from app_ok_length [OF this] have "unat (of_nat (length (m_AppIds ob)) :: u32) = length (m_AppIds ob)"
    by (simp add: unsigned_of_nat take_bit_eq_mod)
  then have "(1 :: u32) \<le> of_nat (length (m_AppIds ob)) \<longleftrightarrow> 1 \<le> length (m_AppIds ob)"
    by (simp add: word_le_nat_alt)
  then show ?thesis by (cases "m_AppIds ob") (simp_all add: no_apps_def GetRefAppCount_def)
qed

interpretation apps: ref_set app_refs app_id app_ok AddRefAppId RemoveRefAppId ClearRefAppId no_apps
  by unfold_locales
    (auto simp: app_refs_def app_ok_def AddRefAppId_def RemoveRefAppId_def ClearRefAppId_def
      no_apps_iff)

section \<open>The properties of a connector\<close>

text \<open>Look-up is by first match; adding keeps what was there.\<close>

lemma find_property_append:
  "find_property name (ps @ qs) =
     (case find_property name ps of None \<Rightarrow> find_property name qs | Some p \<Rightarrow> Some p)"
  by (induction ps) auto

lemma find_property_None: "find_property name ps = None \<longleftrightarrow> name \<notin> prop_name ` set ps"
  by (induction ps) auto

lemma GetPropertyId_add:
  "GetPropertyId name (AddDrmProperty n pid val ob) =
     (if name = n \<and> n \<notin> prop_name ` set (m_PropertyList ob) then pid else GetPropertyId name ob)"
  by (auto simp: GetPropertyId_def AddDrmProperty_def find_property_append
      find_property_None [symmetric] split: option.split)

lemma GetCpType_SetCpType [simp]: "GetCpType (SetCpType t ob) = t"
  using u8_less [of t]
  by (simp add: GetCpType_def SetCpType_def unsigned_ucast_eq word_unat_eq_iff
      unsigned_take_bit_eq take_bit_nat_eq_self_iff)

text \<open>What each operation leaves alone.\<close>

lemma drm_frame [simp]:
  "m_PortId (AddDrmProperty n i v ob) = m_PortId ob" "m_DrmId (AddDrmProperty n i v ob) = m_DrmId ob"
  "m_PortId (SetConnection c ob) = m_PortId ob" "m_DrmId (SetConnection c ob) = m_DrmId ob"
  "m_PortId (SetCpType t ob) = m_PortId ob" "m_DrmId (SetCpType t ob) = m_DrmId ob"
  "m_PortId (AddRefAppId a ob) = m_PortId ob" "m_DrmId (AddRefAppId a ob) = m_DrmId ob"
  "m_PortId (RemoveRefAppId a ob) = m_PortId ob" "m_DrmId (RemoveRefAppId a ob) = m_DrmId ob"
  "m_PortId (ClearRefAppId ob) = m_PortId ob" "m_DrmId (ClearRefAppId ob) = m_DrmId ob"
  "m_AppIds (SetConnection c ob) = m_AppIds ob" "m_AppIds (SetCpType t ob) = m_AppIds ob"
  "m_CpType (AddRefAppId a ob) = m_CpType ob" "m_CpType (RemoveRefAppId a ob) = m_CpType ob"
  "m_CpType (ClearRefAppId ob) = m_CpType ob" "m_CpType (SetConnection c ob) = m_CpType ob"
  "m_Connection (AddRefAppId a ob) = m_Connection ob"
  "m_Connection (RemoveRefAppId a ob) = m_Connection ob" "m_Connection (SetCpType t ob) = m_Connection ob"
  "m_Connection (ClearRefAppId ob) = m_Connection ob" "m_Connection (SetConnection c ob) = c"
  "m_PropertyList (AddRefAppId a ob) = m_PropertyList ob"
  "m_PropertyList (RemoveRefAppId a ob) = m_PropertyList ob"
  "m_PropertyList (ClearRefAppId ob) = m_PropertyList ob"
  "m_PropertyList (SetCpType t ob) = m_PropertyList ob"
  "m_PropertyList (SetConnection c ob) = m_PropertyList ob"
  by (simp_all add: AddDrmProperty_def SetConnection_def SetCpType_def AddRefAppId_def
      RemoveRefAppId_def ClearRefAppId_def)

text \<open>Neither mutex is held.\<close>

definition unlocked :: "DrmObject \<Rightarrow> bool" where
  "unlocked ob \<longleftrightarrow> \<not> m_ConnectionMutex ob \<and> \<not> m_CpTypeMutex ob"

lemma lock_frame [simp]:
  "m_ConnectionMutex (AddRefAppId a ob) = m_ConnectionMutex ob"
  "m_ConnectionMutex (RemoveRefAppId a ob) = m_ConnectionMutex ob"
  "m_ConnectionMutex (ClearRefAppId ob) = m_ConnectionMutex ob"
  "m_ConnectionMutex (SetCpType t ob) = m_ConnectionMutex ob"
  "m_ConnectionMutex (SetConnection c ob) = m_ConnectionMutex ob"
  "m_ConnectionMutex (AddDrmProperty n i v ob) = m_ConnectionMutex ob"
  "m_CpTypeMutex (AddRefAppId a ob) = m_CpTypeMutex ob"
  "m_CpTypeMutex (RemoveRefAppId a ob) = m_CpTypeMutex ob"
  "m_CpTypeMutex (ClearRefAppId ob) = m_CpTypeMutex ob"
  "m_CpTypeMutex (SetCpType t ob) = m_CpTypeMutex ob"
  "m_CpTypeMutex (SetConnection c ob) = m_CpTypeMutex ob"
  "m_CpTypeMutex (AddDrmProperty n i v ob) = m_CpTypeMutex ob"
  by (simp_all add: AddDrmProperty_def SetConnection_def SetCpType_def AddRefAppId_def
      RemoveRefAppId_def ClearRefAppId_def)

end
