(* ===== verification/ServSock.thy ===== *)
theory ServSock
  imports ClientSock "HOL-Library.Multiset"
begin

text \<open>
  The daemon's end: the class \<^verbatim>\<open>LocalServerSocket\<close> of \<^verbatim>\<open>src/common/servsock.{h,cpp}\<close>, a table of
  six poll slots, the first of which is the listening socket, and the round-robin choice of the next
  request. The flag \<^verbatim>\<open>m_ReceivedKillSignal\<close> is set by a signal at any moment, so it is a function
  \<open>killed\<close> of the world. \<open>mem\<close> is the memory that a new \<^verbatim>\<open>SocketData\<close> is constructed in.
\<close>

section \<open>The class\<close>

abbreviation (input) SESSION_COUNT_MAX :: nat where "SESSION_COUNT_MAX \<equiv> 6"
abbreviation (input) SERV_SOCKET_BACKLOG :: nat where "SERV_SOCKET_BACKLOG \<equiv> 12"

record LocalServerSocket = GenericStreamSocket +
  m_IsMainFdListening :: bool
  m_SessionFdArray :: "pollfd list"
  m_FdIndex :: u32

definition empty_slot :: pollfd where
  "empty_slot = \<lparr>pfd_fd = -1, pfd_events = 0, pfd_revents = 0\<rparr>"

definition LocalServerSocket_new :: "'w os_api \<Rightarrow> 'w \<Rightarrow> LocalServerSocket \<times> 'w" where
  "LocalServerSocket_new os w =
     (let (s, w) = GenericStreamSocket_new os w in
      (\<lparr>m_Fd = m_Fd s, m_IsMainFdListening = False,
        m_SessionFdArray = replicate SESSION_COUNT_MAX empty_slot, m_FdIndex = 0\<rparr>, w))"

definition GetRequest ::
  "'w os_api \<Rightarrow> SocketData \<Rightarrow> int \<Rightarrow> 'w \<Rightarrow> ((int \<times> SocketData) \<times> 'w) outcome option" where
  "GetRequest os req fd w = read_message os fd req w"

definition SendResponse ::
  "'w os_api \<Rightarrow> SocketData \<Rightarrow> int \<Rightarrow> 'w \<Rightarrow> (int \<times> 'w) outcome option" where
  "SendResponse os rsp fd w = WriteData os fd (Some (encode rsp)) (int sizeof_SocketData) w"

definition SendKsvListData ::
  "'w os_api \<Rightarrow> u8 list option \<Rightarrow> int \<Rightarrow> int \<Rightarrow> 'w \<Rightarrow> (int \<times> 'w) outcome option" where
  "SendKsvListData os data dataSz fd w =
     (if data = None then ret (EINVAL, w)
      else if dataSz > int (KSV_SIZE * MAX_KSV_COUNT) then ret (EMSGSIZE, w)
      else WriteData os fd data dataSz w)"

definition GetSrmData ::
  "'w os_api \<Rightarrow> u8 list option \<Rightarrow> int \<Rightarrow> int \<Rightarrow> 'w \<Rightarrow>
     ((int \<times> u8 list option) \<times> 'w) outcome option" where
  "GetSrmData os data dataSz appId w =
     (if data = None then ret ((EINVAL, data), w)
      else if dataSz > MAX_SRM_DATA_SZ then ret ((EMSGSIZE, data), w)
      else ReadData os appId data dataSz w)"

definition Listen :: "'w os_api \<Rightarrow> LocalServerSocket \<Rightarrow> 'w \<Rightarrow> (int \<times> LocalServerSocket) \<times> 'w" where
  "Listen os s w =
     (let (r, w) = os_listen os (m_Fd s) SERV_SOCKET_BACKLOG w in
      if errno_of r \<noteq> SUCCESS then ((errno_of r, s), w) else
      ((SUCCESS, s\<lparr>m_SessionFdArray := (m_SessionFdArray s)
          [0 := (m_SessionFdArray s ! 0)\<lparr>pfd_fd := m_Fd s, pfd_events := POLLIN\<rparr>],
        m_IsMainFdListening := True\<rparr>), w))"

text \<open>The \<^verbatim>\<open>for\<close> loop that looks for a free slot from \<open>i\<close> on; six if there is none.\<close>

function find_slot :: "pollfd list \<Rightarrow> nat \<Rightarrow> nat" where
  "find_slot a i =
     (if i < SESSION_COUNT_MAX then if pfd_fd (a ! i) = -1 then i else find_slot a (Suc i) else i)"
  by pat_completeness auto
termination by (relation "measure (\<lambda>(a, i). SESSION_COUNT_MAX - i)") auto

declare find_slot.simps [simp del]

text \<open>
  \<^verbatim>\<open>ProcessNewConnections\<close>. The loop runs while the last accepted descriptor is not \<open>-1\<close>; so
  after an interrupted or aborted call, where \<^verbatim>\<open>accept\<close> returned \<open>-1\<close>, the \<^verbatim>\<open>continue\<close> ends it.
\<close>

partial_function (option) accept_loop ::
  "'w os_api \<Rightarrow> ('w \<Rightarrow> SocketData) \<Rightarrow> LocalServerSocket \<Rightarrow> int \<Rightarrow> nat \<Rightarrow> 'w \<Rightarrow>
     ((int \<times> LocalServerSocket) \<times> 'w) outcome option" where
  "accept_loop os mem s sts emptyIndex w =
     (let (r, w) = os_accept os (m_Fd s) w in
      case r of
        Inl e \<Rightarrow> if e = EAGAIN then ret ((SUCCESS, s), w) else ret ((e, s), w)
      | Inr incomingFd \<Rightarrow>
          let i = find_slot (m_SessionFdArray s) emptyIndex in
          if i = SESSION_COUNT_MAX then
            let (_, w) = os_close os incomingFd w in ret ((sts, s), w)
          else
            let s = s\<lparr>m_SessionFdArray := (m_SessionFdArray s)
                  [i := empty_slot\<lparr>pfd_fd := incomingFd, pfd_events := POLLIN\<rparr>]\<rparr>;
                response = (SocketData_new (mem w))\<lparr>sd_Size := of_nat sizeof_SocketData,
                  sd_Command := api HDCP_API_CREATE, sd_Status := st HDCP_STATUS_SUCCESSFUL\<rparr> in
            obind (SendResponse os response incomingFd w) (\<lambda>(_, w).
            accept_loop os mem s sts i w))"

definition ProcessNewConnections ::
  "'w os_api \<Rightarrow> ('w \<Rightarrow> SocketData) \<Rightarrow> LocalServerSocket \<Rightarrow> 'w \<Rightarrow>
     ((int \<times> LocalServerSocket) \<times> 'w) outcome option" where
  "ProcessNewConnections os mem s w = accept_loop os mem s EINVAL 0 w"

definition set_revents :: "u16 list \<Rightarrow> pollfd list \<Rightarrow> pollfd list" where
  "set_revents rs fds = map2 (\<lambda>r p. p\<lparr>pfd_revents := r\<rparr>) rs fds"

partial_function (option) poll_loop ::
  "'w os_api \<Rightarrow> ('w \<Rightarrow> bool) \<Rightarrow> LocalServerSocket \<Rightarrow> 'w \<Rightarrow>
     ((int \<times> LocalServerSocket) \<times> 'w) outcome option" where
  "poll_loop os killed s w =
     (if killed w then ret ((ECANCELED, s), w) else
      let (r, w) = os_poll os (m_SessionFdArray s) w in
      case r of
        Inl e \<Rightarrow> if e = EINTR then poll_loop os killed s w else ret ((e, s), w)
      | Inr (n, rs) \<Rightarrow>
          let s = s\<lparr>m_SessionFdArray := set_revents rs (m_SessionFdArray s)\<rparr> in
          if n = 0 then poll_loop os killed s w else ret ((SUCCESS, s), w))"

definition PollForEvent ::
  "'w os_api \<Rightarrow> ('w \<Rightarrow> bool) \<Rightarrow> LocalServerSocket \<Rightarrow> 'w \<Rightarrow>
     ((int \<times> LocalServerSocket) \<times> 'w) outcome option" where
  "PollForEvent os killed s w =
     (if \<not> m_IsMainFdListening s then ret ((EPROTO, s), w) else poll_loop os killed s w)"

text \<open>
  The \<^verbatim>\<open>for\<close> loop of \<^verbatim>\<open>GetTask\<close>: \<open>Scan_return\<close> is a \<^verbatim>\<open>return\<close> from within it, \<open>Scan_end\<close> the
  values of \<^verbatim>\<open>i\<close>, \<^verbatim>\<open>appId\<close> and \<^verbatim>\<open>req\<close> after it.
\<close>

datatype scan_result = Scan_return int | Scan_end u32 int SocketData

definition set_slot :: "nat \<Rightarrow> pollfd \<Rightarrow> LocalServerSocket \<Rightarrow> LocalServerSocket" where
  "set_slot i p s = s\<lparr>m_SessionFdArray := (m_SessionFdArray s)[i := p]\<rparr>"

definition read_task ::
  "'w os_api \<Rightarrow> LocalServerSocket \<Rightarrow> u32 \<Rightarrow> SocketData \<Rightarrow> 'w \<Rightarrow>
     ((scan_result \<times> LocalServerSocket) \<times> 'w) outcome option" where
  "read_task os s i req w =
     (let appId = pfd_fd (m_SessionFdArray s ! unat i) in
      obind (GetRequest os req appId w) (\<lambda>((sts, req), w).
      let (req, w) =
        (if sts \<noteq> SUCCESS
         then (req\<lparr>sd_Size := of_nat sizeof_SocketData, sd_Command := api HDCP_API_DESTROY\<rparr>,
               snd (os_close os appId w))
         else (req, w));
        s = (if sd_Command req = api HDCP_API_CREATE_CALLBACK \<or> sd_Command req = api HDCP_API_DESTROY
             then set_slot (unat i) empty_slot s else s) in
      ret ((Scan_end i appId req, s), w)))"

partial_function (option) scan ::
  "'w os_api \<Rightarrow> ('w \<Rightarrow> SocketData) \<Rightarrow> LocalServerSocket \<Rightarrow> u32 \<Rightarrow> SocketData \<Rightarrow> 'w \<Rightarrow>
     ((scan_result \<times> LocalServerSocket) \<times> 'w) outcome option" where
  "scan os mem s i req w =
     (if i = (m_FdIndex s + 5) mod 6 then ret ((Scan_end i (-1) req, s), w)
      else if m_FdIndex s \<ge> 6 \<or> i \<ge> 6 then ret ((Scan_return ERANGE, s), w)
      else
        let p = m_SessionFdArray s ! unat i; next = (i + 1) mod 6 in
        if pfd_fd p = -1 \<or> pfd_revents p = 0 then scan os mem s next req w
        else if POLLIN AND pfd_revents p = 0 \<and> POLLHUP AND pfd_revents p = 0
        then scan os mem s next req w
        else if m_Fd s = pfd_fd p then
          obind (ProcessNewConnections os mem s w) (\<lambda>((sts, s), w).
          if sts \<noteq> SUCCESS then ret ((Scan_return sts, s), w)
          else scan os mem s next req w)
        else read_task os s i req w)"

partial_function (option) GetTask ::
  "'w os_api \<Rightarrow> ('w \<Rightarrow> bool) \<Rightarrow> ('w \<Rightarrow> SocketData) \<Rightarrow> LocalServerSocket \<Rightarrow> SocketData \<Rightarrow> 'w \<Rightarrow>
     ((int \<times> int \<times> SocketData \<times> LocalServerSocket) \<times> 'w) outcome option" where
  "GetTask os killed mem s req w =
     obind (PollForEvent os killed s w) (\<lambda>((sts, s), w).
     if sts \<noteq> SUCCESS then ret ((sts, -1, req, s), w) else
     obind (scan os mem s (m_FdIndex s) req w) (\<lambda>((r, s), w).
     case r of
       Scan_return sts \<Rightarrow> ret ((sts, -1, req, s), w)
     | Scan_end i appId req \<Rightarrow>
         let s = s\<lparr>m_FdIndex := i\<rparr> in
         if appId = -1 then GetTask os killed mem s req w
         else ret ((SUCCESS, appId, req, s), w)))"

declare accept_loop.simps [code] poll_loop.simps [code] scan.simps [code] GetTask.simps [code]


section \<open>The slot table\<close>

text \<open>
  The invariant of a listening server: the table has its six slots, the first is the listener and
  none of the others names the listener's descriptor; descriptors are 32-bit and not below \<open>-1\<close>.
  \<open>accepts_fresh\<close>: a descriptor that \<^verbatim>\<open>accept\<close> returns is not negative and not the listener's; \<open>polls_all\<close>: \<^verbatim>\<open>poll\<close> fills in one result
  per slot, and has an error number when it fails.
\<close>

definition server_inv :: "LocalServerSocket \<Rightarrow> bool" where
  "server_inv s \<longleftrightarrow> length (m_SessionFdArray s) = SESSION_COUNT_MAX \<and> m_FdIndex s < 6 \<and>
     0 \<le> m_Fd s \<and> map pfd_fd (m_SessionFdArray s) ! 0 = m_Fd s \<and>
     m_Fd s \<notin> set (tl (map pfd_fd (m_SessionFdArray s))) \<and>
     (\<forall>x \<in> set (map pfd_fd (m_SessionFdArray s)). -1 \<le> x \<and> x < 2 ^ 31)"

definition accepts_fresh :: "'w os_api \<Rightarrow> bool" where
  "accepts_fresh os \<longleftrightarrow> (\<forall>fd w x. fst (os_accept os fd w) = Inr x \<longrightarrow> 0 \<le> x \<and> x \<noteq> fd \<and> x < 2 ^ 31)"

definition polls_all :: "'w os_api \<Rightarrow> bool" where
  "polls_all os \<longleftrightarrow> (\<forall>fds w. case fst (os_poll os fds w) of
     Inl e \<Rightarrow> e > 0 | Inr (n, rs) \<Rightarrow> length rs = length fds)"

lemma accepts_freshD: "accepts_fresh os \<Longrightarrow> os_accept os fd w = (Inr x, w') \<Longrightarrow>
    0 \<le> x \<and> x \<noteq> fd \<and> x < 2 ^ 31"
  by (metis accepts_fresh_def fst_conv)

lemma polls_allD:
  assumes "polls_all os"
  shows "os_poll os fds w = (Inr (n, rs), w') \<Longrightarrow> length rs = length fds"
    and "os_poll os fds w = (Inl e, w') \<Longrightarrow> e > 0"
  using assms [unfolded polls_all_def, THEN spec, of fds, THEN spec, of w] by auto

lemma find_slot_le: "i \<le> 6 \<Longrightarrow> find_slot a i \<le> 6 \<and> i \<le> find_slot a i"
  by (induction a i rule: find_slot.induct) (subst (1 2) find_slot.simps, auto)

lemma find_slot_free: "find_slot a i < 6 \<Longrightarrow> pfd_fd (a ! find_slot a i) = -1"
proof (induction a i rule: find_slot.induct)
  case (1 a i)
  from "1.prems" show ?case
    by (subst (asm) find_slot.simps, subst find_slot.simps) (auto simp: 1 split: if_splits)
qed

lemma set_revents_fds [simp]:
  "length rs = length fds \<Longrightarrow> map pfd_fd (set_revents rs fds) = map pfd_fd fds"
  by (induction rs fds rule: list_induct2) (simp_all add: set_revents_def)

lemma set_revents_length [simp]:
  "length rs = length fds \<Longrightarrow> length (set_revents rs fds) = length fds"
  by (simp add: set_revents_def)

lemma set_revents_nth [simp]:
  "length rs = length fds \<Longrightarrow> k < length fds \<Longrightarrow>
     set_revents rs fds ! k = (fds ! k)\<lparr>pfd_revents := rs ! k\<rparr>"
  by (simp add: set_revents_def)

lemma server_inv_same_fds:
  "server_inv s \<Longrightarrow> map pfd_fd a = map pfd_fd (m_SessionFdArray s) \<Longrightarrow>
     server_inv (s\<lparr>m_SessionFdArray := a\<rparr>)"
  unfolding server_inv_def by (auto dest: map_eq_imp_length_eq)

lemma server_inv_slot:
  assumes "server_inv s" "i < 6" "map pfd_fd (m_SessionFdArray s) ! i \<noteq> m_Fd s" "pfd_fd p \<noteq> m_Fd s"
    "-1 \<le> pfd_fd p" "pfd_fd p < 2 ^ 31"
  shows "server_inv (set_slot i p s)"
proof -
  obtain a as where a: "m_SessionFdArray s = a # as"
    using assms(1) by (cases "m_SessionFdArray s") (auto simp: server_inv_def)
  obtain j where "i = Suc j" using assms(1,3) a by (cases i) (auto simp: server_inv_def)
  with assms a show ?thesis
    by (auto simp: server_inv_def set_slot_def map_update dest!: set_update_subset_insert [THEN subsetD])
qed

text \<open>
  The books of the table: \<open>table_fds\<close> are the descriptors in it, the listener's among them, and
  \<open>booked os fd s s' left\<close> says that between \<open>s\<close> and \<open>s'\<close> exactly the descriptors \<open>left\<close> went out of
  it and only descriptors that \<^verbatim>\<open>accept\<close> returned on \<open>fd\<close> came in.
\<close>

definition table_fds :: "LocalServerSocket \<Rightarrow> int multiset" where
  "table_fds s = filter_mset (\<lambda>x. x \<noteq> -1) (mset (map pfd_fd (m_SessionFdArray s)))"

definition accepted :: "'w os_api \<Rightarrow> int \<Rightarrow> int multiset \<Rightarrow> bool" where
  "accepted os fd new \<longleftrightarrow> (\<forall>x \<in># new. \<exists>u. fst (os_accept os fd u) = Inr x)"

definition booked :: "'w os_api \<Rightarrow> int \<Rightarrow> LocalServerSocket \<Rightarrow> LocalServerSocket \<Rightarrow> int multiset \<Rightarrow> bool" where
  "booked os fd s s' left \<longleftrightarrow> (\<exists>new. accepted os fd new \<and> table_fds s' + left = table_fds s + new)"

lemma booked_same: "table_fds s' = table_fds s \<Longrightarrow> booked os fd s s' {#}"
  unfolding booked_def by (intro exI [of _ "{#}"]) (simp add: accepted_def)

lemma booked_trans:
  assumes "booked os fd s s1 {#}" "booked os fd s1 s2 left"
  shows "booked os fd s s2 left"
proof -
  obtain a b where "accepted os fd a" "accepted os fd b" "table_fds s1 = table_fds s + a"
    "table_fds s2 + left = table_fds s1 + b" using assms by (auto simp: booked_def)
  then show ?thesis unfolding booked_def
    by (intro exI [of _ "a + b"]) (auto simp: accepted_def add.assoc)
qed

lemma table_fds_fds: "map pfd_fd (m_SessionFdArray s') = map pfd_fd (m_SessionFdArray s) \<Longrightarrow> table_fds s' = table_fds s"
  by (simp only: table_fds_def)

lemma table_fds_slots [simp]: "table_fds (s\<lparr>m_FdIndex := i\<rparr>) = table_fds s"
  by (simp add: table_fds_def)

lemma table_fds_set:
  assumes "i < length (m_SessionFdArray s)"
  shows "table_fds (set_slot i p s) + filter_mset (\<lambda>x. x \<noteq> -1) {#pfd_fd (m_SessionFdArray s ! i)#} =
    table_fds s + filter_mset (\<lambda>x. x \<noteq> -1) {#pfd_fd p#}"
proof -
  let ?f = "map pfd_fd (m_SessionFdArray s)"
  have "mset (?f[i := pfd_fd p]) + {#?f ! i#} = mset ?f + {#pfd_fd p#}"
    using assms by (simp add: mset_update)
  then have "filter_mset (\<lambda>x. x \<noteq> -1) (mset (?f[i := pfd_fd p]) + {#?f ! i#}) =
      filter_mset (\<lambda>x. x \<noteq> -1) (mset ?f + {#pfd_fd p#})" by simp
  moreover have "map pfd_fd (m_SessionFdArray (set_slot i p s)) = ?f[i := pfd_fd p]"
    by (simp add: set_slot_def map_update)
  moreover have "pfd_fd (m_SessionFdArray s ! i) = ?f ! i" using assms by simp
  ultimately show ?thesis by (simp only: table_fds_def filter_union_mset)
qed

lemma in_table:
  "i < length (m_SessionFdArray s) \<Longrightarrow> pfd_fd (m_SessionFdArray s ! i) = x \<Longrightarrow> x \<noteq> -1 \<Longrightarrow> x \<in># table_fds s"
  by (auto simp: table_fds_def)

text \<open>What each part of the choice keeps.\<close>

lemma accept_loop_raw:
  assumes "accept_loop os mem s sts emptyIndex w = Some r" "accepts_fresh os" "server_inv s"
    "r = Ret ((sts', s'), w')" "emptyIndex \<le> 6"
  shows "server_inv s' \<and> m_Fd s' = m_Fd s \<and> m_FdIndex s' = m_FdIndex s \<and>
    m_IsMainFdListening s' = m_IsMainFdListening s \<and> booked os (m_Fd s) s s' {#}"
proof (rule accept_loop.raw_induct [where P = "\<lambda>os mem s sts emptyIndex w r.
      accepts_fresh os \<longrightarrow> server_inv s \<longrightarrow> emptyIndex \<le> 6 \<longrightarrow> (\<forall>sts' s' w'. r = Ret ((sts', s'), w') \<longrightarrow>
        server_inv s' \<and> m_Fd s' = m_Fd s \<and> m_FdIndex s' = m_FdIndex s \<and>
        m_IsMainFdListening s' = m_IsMainFdListening s \<and> booked os (m_Fd s) s s' {#})",
      rule_format, OF _ assms(1) assms(2,3,5,4)], goal_cases)
  case (1 f os mem s sts emptyIndex w r sts' s' w')
  let ?i = "find_slot (m_SessionFdArray s) emptyIndex"
  from 1(2) consider
      e w1 where "os_accept os (m_Fd s) w = (Inl e, w1)"
    | fd w1 where "os_accept os (m_Fd s) w = (Inr fd, w1)"
    by (metis surj_pair sum.exhaust)
  then show ?case
  proof cases
    case (1 e w1)
    with \<open>_ = Some r\<close> \<open>r = _\<close> \<open>server_inv s\<close> show ?thesis by (auto split: if_splits intro: booked_same)
  next
    case (2 fd w1)
    have i: "?i \<le> 6" using find_slot_le 1(5) by blast
    show ?thesis
    proof (cases "?i = 6")
      case True
      with 2 1(2,6) \<open>server_inv s\<close> show ?thesis by (auto split: prod.splits intro: booked_same)
    next
      case False
      then have lt: "?i < 6" using i by simp
      let ?s = "set_slot ?i (empty_slot\<lparr>pfd_fd := fd, pfd_events := 1\<rparr>) s"
      have free: "map pfd_fd (m_SessionFdArray s) ! ?i = -1"
        using find_slot_free [OF lt] lt 1(4) by (simp add: server_inv_def)
      then have inv: "server_inv ?s"
        using 1(4) accepts_freshD [OF 1(3) 2]
        by (intro server_inv_slot [OF 1(4) lt]) (auto simp: server_inv_def)
      from 1(2) 2 False obtain m w2 where "f os mem ?s sts ?i w2 = Some (Ret ((sts', s'), w'))"
        using 1(6) by (auto simp: Let_def set_slot_def elim!: hdcp_elims split: if_splits)
      from 1(1) [OF this 1(3) inv] lt have "server_inv s' \<and> m_Fd s' = m_Fd s \<and> m_FdIndex s' = m_FdIndex s \<and>
          m_IsMainFdListening s' = m_IsMainFdListening s" "booked os (m_Fd s) ?s s' {#}"
        by (auto simp: set_slot_def)
      moreover have "booked os (m_Fd s) s ?s {#}"
        unfolding booked_def accepted_def
        by (intro exI [of _ "{#fd#}"])
          (use table_fds_set [of ?i s "empty_slot\<lparr>pfd_fd := fd, pfd_events := 1\<rparr>"] lt 1(4) free 2
            accepts_freshD [OF 1(3) 2] in \<open>auto simp: server_inv_def intro: exI [of _ w]\<close>)
      ultimately show ?thesis using booked_trans by blast
    qed
  qed
qed

definition srv_same :: "LocalServerSocket \<Rightarrow> LocalServerSocket \<Rightarrow> bool" where
  "srv_same s s' \<longleftrightarrow> m_Fd s' = m_Fd s \<and> m_FdIndex s' = m_FdIndex s \<and>
     m_IsMainFdListening s' = m_IsMainFdListening s"

lemma srv_same_refl [simp]: "srv_same s s"
  by (simp add: srv_same_def)

lemma srv_same_trans: "srv_same a b \<Longrightarrow> srv_same b c \<Longrightarrow> srv_same a c"
  by (simp add: srv_same_def)

lemma srv_same_slots [simp]: "srv_same s (s\<lparr>m_SessionFdArray := a\<rparr>)" "srv_same s (set_slot i p s)"
  by (simp_all add: srv_same_def set_slot_def)

lemma ProcessNewConnections_inv:
  assumes "ProcessNewConnections os mem s w = ret ((sts, s'), w')" "accepts_fresh os" "server_inv s"
  shows "server_inv s' \<and> srv_same s s' \<and> booked os (m_Fd s) s s' {#}"
  using accept_loop_raw [OF assms(1) [unfolded ProcessNewConnections_def] assms(2,3)]
  by (simp add: srv_same_def)

lemma poll_loop_raw:
  assumes "poll_loop os killed s w = Some r" "polls_all os" "r = Ret ((sts, s'), w')"
  shows "srv_same s s' \<and> map pfd_fd (m_SessionFdArray s') = map pfd_fd (m_SessionFdArray s) \<and>
    (sts = SUCCESS \<longrightarrow> (\<exists>u u' n rs fds. os_poll os fds u = (Inr (n, rs), u') \<and> n \<noteq> 0 \<and>
       map pfd_fd fds = map pfd_fd (m_SessionFdArray s) \<and> m_SessionFdArray s' = set_revents rs fds))"
proof (rule poll_loop.raw_induct [where P = "\<lambda>os killed s w r. polls_all os \<longrightarrow>
      (\<forall>sts s' w'. r = Ret ((sts, s'), w') \<longrightarrow>
    srv_same s s' \<and> map pfd_fd (m_SessionFdArray s') = map pfd_fd (m_SessionFdArray s) \<and>
    (sts = SUCCESS \<longrightarrow> (\<exists>u u' n rs fds. os_poll os fds u = (Inr (n, rs), u') \<and> n \<noteq> 0 \<and>
       map pfd_fd fds = map pfd_fd (m_SessionFdArray s) \<and> m_SessionFdArray s' = set_revents rs fds)))",
      rule_format, OF _ assms(1) assms(2,3)], goal_cases)
  case (1 f os killed s w r sts s' w')
  obtain q w1 where q: "os_poll os (m_SessionFdArray s) w = (q, w1)" by fastforce
  show ?case
  proof (cases q)
    case (Inl e)
    show ?thesis
    proof (cases "killed w \<or> e \<noteq> EINTR")
      case True
      with 1(2,4) q Inl polls_allD(2) [OF 1(3), of "m_SessionFdArray s" w e w1] show ?thesis
        by (auto split: if_splits)
    next
      case False
      with 1(2) q Inl have "f os killed s w1 = Some r" by simp
      from 1(1) [OF this 1(3,4)] show ?thesis .
    qed
  next
    case (Inr p)
    obtain n rs where p: "p = (n, rs)" by fastforce
    let ?s = "s\<lparr>m_SessionFdArray := set_revents rs (m_SessionFdArray s)\<rparr>"
    have len: "length rs = length (m_SessionFdArray s)"
      using polls_allD(1) [OF 1(3)] q Inr p by blast
    show ?thesis
    proof (cases "killed w \<or> n \<noteq> 0")
      case True
      with 1(2,4) q Inr p len show ?thesis by (auto split: if_splits) blast+
    next
      case False
      with 1(2) q Inr p have "f os killed ?s w1 = Some r" by simp
      from 1(1) [OF this 1(3,4)] len show ?thesis
        by (auto simp: srv_same_def)
    qed
  qed
qed

text \<open>What the scan picks: a client's slot, which it frees if the client leaves the table.\<close>

definition leaves_table :: "SocketData \<Rightarrow> bool" where
  "leaves_table req \<longleftrightarrow>
     sd_Command req = api HDCP_API_CREATE_CALLBACK \<or> sd_Command req = api HDCP_API_DESTROY"

definition picked :: "LocalServerSocket \<Rightarrow> u32 \<Rightarrow> int \<Rightarrow> SocketData \<Rightarrow> bool" where
  "picked s i appId req \<longleftrightarrow> i < 6 \<and> appId \<noteq> m_Fd s \<and> 0 \<le> appId \<and> appId < 2 ^ 31 \<and>
     pfd_fd (m_SessionFdArray s ! unat i) = (if leaves_table req then -1 else appId)"

definition leaving :: "int \<Rightarrow> SocketData \<Rightarrow> int multiset" where
  "leaving appId req = (if leaves_table req \<and> appId \<noteq> -1 then {#appId#} else {#})"

lemma read_task_picks:
  assumes "read_task os s i req w = ret ((sr, s'), w')" "server_inv s" "i < 6"
    and "pfd_fd (m_SessionFdArray s ! unat i) \<noteq> m_Fd s" "pfd_fd (m_SessionFdArray s ! unat i) \<noteq> -1"
  obtains req' where "sr = Scan_end i (pfd_fd (m_SessionFdArray s ! unat i)) req'"
    "picked s' i (pfd_fd (m_SessionFdArray s ! unat i)) req'" "server_inv s'" "srv_same s s'"
    "\<And>fd. booked os fd s s' (leaving (pfd_fd (m_SessionFdArray s ! unat i)) req')"
proof -
  have lt: "unat i < 6" using assms(3) by (simp add: word_less_nat_alt)
  have len: "length (m_SessionFdArray s) = 6" "0 \<le> m_Fd s" using assms(2) by (auto simp: server_inv_def)
  from assms(1) obtain req' where
    r: "sr = Scan_end i (pfd_fd (m_SessionFdArray s ! unat i)) req'"
      "s' = (if leaves_table req' then set_slot (unat i) empty_slot s else s)"
    unfolding read_task_def leaves_table_def
    by (auto elim!: hdcp_elims simp: Let_def split: prod.splits if_splits)
  have "server_inv s'"
    using r(2) assms(2) server_inv_slot [OF assms(2) lt] lt len assms(4)
    by (auto simp: empty_slot_def)
  moreover have "pfd_fd (m_SessionFdArray s ! unat i) \<in> set (map pfd_fd (m_SessionFdArray s))"
    using lt len by simp
  then have "-1 \<le> pfd_fd (m_SessionFdArray s ! unat i)" "pfd_fd (m_SessionFdArray s ! unat i) < 2 ^ 31"
    using assms(2) unfolding server_inv_def by blast+
  then have "picked s' i (pfd_fd (m_SessionFdArray s ! unat i)) req'"
    using r(2) assms(3-5) lt len by (auto simp: picked_def set_slot_def empty_slot_def)
  moreover have "srv_same s s'" using r(2) by simp
  moreover have "booked os fd s s' (leaving (pfd_fd (m_SessionFdArray s ! unat i)) req')" for fd
    unfolding booked_def
    by (intro exI [of _ "{#}"])
      (use table_fds_set [of "unat i" s empty_slot] r(2) lt len assms(5) in
        \<open>auto simp: leaving_def accepted_def empty_slot_def\<close>)
  ultimately show ?thesis using that r(1) by blast
qed

definition scan_left :: "scan_result \<Rightarrow> int multiset" where
  "scan_left sr = (case sr of Scan_return _ \<Rightarrow> {#} | Scan_end _ appId req \<Rightarrow> leaving appId req)"

lemma leaving_none [simp]: "leaving (-1) req = {#}"
  by (simp add: leaving_def)

lemma scan_raw:
  assumes "scan os mem s i req w = Some r" "accepts_fresh os" "server_inv s" "r = Ret ((sr, s'), w')"
  shows "server_inv s' \<and> srv_same s s' \<and>
    sr \<noteq> Scan_return SUCCESS \<and> booked os (m_Fd s) s s' (scan_left sr) \<and>
    (\<forall>j appId req'. sr = Scan_end j appId req' \<longrightarrow> j < 6 \<and> (appId \<noteq> -1 \<longrightarrow> picked s' j appId req'))"
proof (rule scan.raw_induct [where P = "\<lambda>os mem s i req w r. accepts_fresh os \<longrightarrow> server_inv s \<longrightarrow>
      (\<forall>sr s' w'. r = Ret ((sr, s'), w') \<longrightarrow> server_inv s' \<and> srv_same s s' \<and>
    sr \<noteq> Scan_return SUCCESS \<and> booked os (m_Fd s) s s' (scan_left sr) \<and>
    (\<forall>j appId req'. sr = Scan_end j appId req' \<longrightarrow> j < 6 \<and> (appId \<noteq> -1 \<longrightarrow> picked s' j appId req')))",
      rule_format, OF _ assms(1) assms(2,3,4)], goal_cases)
  case (1 f os mem s i req w r sr s' w')
  note IH = 1(1) [rule_format]
  let ?p = "m_SessionFdArray s ! unat i" and ?n = "(i + 1) mod 6"
  have six: "x mod 6 < 6" for x :: u32 by (simp add: word_less_nat_alt unat_mod)
  show ?case
  proof (cases "i = (m_FdIndex s + 5) mod 6 \<or> m_FdIndex s \<ge> 6 \<or> i \<ge> 6")
    case True
    with 1(2,4,5) six show ?thesis by (auto split: if_splits simp: scan_left_def intro: booked_same)
  next
    case nend: False
    then have i6: "i < 6" by auto
    consider (skip) "pfd_fd ?p = -1 \<or> pfd_revents ?p = 0 \<or>
        (POLLIN AND pfd_revents ?p = 0 \<and> POLLHUP AND pfd_revents ?p = 0)"
      | (listener) "pfd_fd ?p = m_Fd s" | (client) "pfd_fd ?p \<noteq> -1" "pfd_fd ?p \<noteq> m_Fd s"
        "\<not> (pfd_revents ?p = 0 \<or> POLLIN AND pfd_revents ?p = 0 \<and> POLLHUP AND pfd_revents ?p = 0)"
      by blast
    then show ?thesis
    proof cases
      case skip
      with 1(2) nend have "f os mem s ?n req w = Some r" by (auto simp: Let_def split: if_splits)
      from IH [OF this 1(3,4,5)] show ?thesis by blast
    next
      case listener
      show ?thesis
      proof (cases "f os mem s ?n req w = Some r")
        case True
        from IH [OF this 1(3,4,5)] show ?thesis by blast
      next
        case False
        with 1(2) nend listener have "obind (ProcessNewConnections os mem s w) (\<lambda>((sts, s), w).
          if sts \<noteq> SUCCESS then ret ((Scan_return sts, s), w)
          else f os mem s ?n req w) = Some r" by (auto simp: Let_def split: if_splits)
        then obtain sts s1 w1 where p: "ProcessNewConnections os mem s w = ret ((sts, s1), w1)"
          and rest: "(if sts \<noteq> SUCCESS then ret ((Scan_return sts, s1), w1)
            else f os mem s1 ?n req w1) = Some r"
          using 1(5) by (auto elim!: hdcp_elims)
        from ProcessNewConnections_inv [OF p 1(3,4)] have s1: "server_inv s1" "srv_same s s1"
          "booked os (m_Fd s) s s1 {#}" by auto
        show ?thesis
        proof (cases "sts = SUCCESS")
          case True
          with rest have "f os mem s1 ?n req w1 = Some r" by simp
          from IH [OF this 1(3) s1(1) 1(5)] s1(2,3) show ?thesis
            using srv_same_trans booked_trans [OF s1(3)] unfolding srv_same_def by metis
        next
          case False
          with rest 1(5) s1 show ?thesis by (auto simp: scan_left_def)
        qed
      qed
    next
      case client
      with 1(2,5) nend have run: "read_task os s i req w = ret ((sr, s'), w')"
        by (auto simp: Let_def split: if_splits)
      show ?thesis
        by (rule read_task_picks [OF run 1(4) i6 client(2,1)]) (use i6 in \<open>auto simp: scan_left_def\<close>)
    qed
  qed
qed


lemma PollForEvent_ok:
  assumes "PollForEvent os killed s w = ret ((sts, s'), w')" "polls_all os" "server_inv s"
  shows "server_inv s' \<and> srv_same s s' \<and> map pfd_fd (m_SessionFdArray s') = map pfd_fd (m_SessionFdArray s)"
proof (cases "m_IsMainFdListening s")
  case False
  with assms show ?thesis by (auto simp: PollForEvent_def)
next
  case True
  with assms(1) have "poll_loop os killed s w = Some (Ret ((sts, s'), w'))"
    by (simp add: PollForEvent_def)
  from poll_loop_raw [OF this assms(2)] have s': "srv_same s s'"
    "map pfd_fd (m_SessionFdArray s') = map pfd_fd (m_SessionFdArray s)" by auto
  moreover have "server_inv s'"
    using assms(3) s' unfolding server_inv_def srv_same_def by (metis length_map)
  ultimately show ?thesis by simp
qed

lemma GetTask_raw:
  assumes "GetTask os killed mem s req w = Some r" "accepts_fresh os" "polls_all os" "server_inv s"
    "r = Ret ((sts, appId, req', s'), w')"
  shows "server_inv s' \<and> m_Fd s' = m_Fd s \<and> m_IsMainFdListening s' = m_IsMainFdListening s \<and>
    booked os (m_Fd s) s s' (if sts = SUCCESS then leaving appId req' else {#}) \<and>
    (sts = SUCCESS \<longrightarrow> picked s' (m_FdIndex s') appId req')"
proof (rule GetTask.raw_induct [where P = "\<lambda>os killed mem s req w r. accepts_fresh os \<longrightarrow>
      polls_all os \<longrightarrow> server_inv s \<longrightarrow>
      (\<forall>sts appId req' s' w'. r = Ret ((sts, appId, req', s'), w') \<longrightarrow>
    server_inv s' \<and> m_Fd s' = m_Fd s \<and> m_IsMainFdListening s' = m_IsMainFdListening s \<and>
    booked os (m_Fd s) s s' (if sts = SUCCESS then leaving appId req' else {#}) \<and>
    (sts = SUCCESS \<longrightarrow> picked s' (m_FdIndex s') appId req'))",
      rule_format, OF _ assms(1) assms(2-5)], goal_cases)
  case (1 f os killed mem s req w r sts appId req' s' w')
  from 1(2) 1(6) obtain ps s1 w1 where
    p: "PollForEvent os killed s w = ret ((ps, s1), w1)"
    and rest: "(if ps \<noteq> SUCCESS then ret ((ps, -1, req, s1), w1) else
     obind (scan os mem s1 (m_FdIndex s1) req w1) (\<lambda>((r, s), w).
     case r of
       Scan_return sts \<Rightarrow> ret ((sts, -1, req, s), w)
     | Scan_end i appId req \<Rightarrow>
         let s = s\<lparr>m_FdIndex := i\<rparr> in
         if appId = -1 then f os killed mem s req w
         else ret ((SUCCESS, appId, req, s), w))) = Some r"
    by (auto elim!: hdcp_elims)
  note p' = PollForEvent_ok [OF p 1(4,5)]
  have b1: "booked os (m_Fd s) s s1 {#}" using p' by (intro booked_same table_fds_fds) simp
  show ?case
  proof (cases "ps = SUCCESS")
    case False
    with rest p' b1 1(6) show ?thesis by (auto simp: srv_same_def)
  next
    case True
    with rest 1(6) obtain sr s2 w2 where
      sc: "scan os mem s1 (m_FdIndex s1) req w1 = ret ((sr, s2), w2)"
      and rest2: "(case sr of
       Scan_return sts \<Rightarrow> ret ((sts, -1, req, s2), w2)
     | Scan_end i appId req \<Rightarrow>
         let s = s2\<lparr>m_FdIndex := i\<rparr> in
         if appId = -1 then f os killed mem s req w2
         else ret ((SUCCESS, appId, req, s), w2)) = Some r"
      by (auto elim!: hdcp_elims)
    have s2: "server_inv s2" "srv_same s1 s2" "sr \<noteq> Scan_return SUCCESS"
      "\<And>j appId req'. sr = Scan_end j appId req' \<Longrightarrow> j < 6 \<and> (appId \<noteq> -1 \<longrightarrow> picked s2 j appId req')"
      "booked os (m_Fd s1) s1 s2 (scan_left sr)"
      using scan_raw [OF sc 1(3) _ refl] p' by auto
    have b2: "booked os (m_Fd s) s s2 (scan_left sr)"
      using booked_trans [OF b1] s2(5) p' by (simp add: srv_same_def)
    show ?thesis
    proof (cases sr)
      case (Scan_return e)
      with rest2 1(6) s2 b2 p' show ?thesis by (auto simp: srv_same_def scan_left_def)
    next
      case (Scan_end i a q)
      let ?s = "s2\<lparr>m_FdIndex := i\<rparr>"
      have inv: "server_inv ?s" using s2(1) s2(4) [OF Scan_end] by (simp add: server_inv_def)
      show ?thesis
      proof (cases "a = -1")
        case True
        with rest2 Scan_end have "f os killed mem ?s q w2 = Some r" by simp
        note IH = 1(1) [OF this 1(3,4) inv 1(6)]
        have "booked os (m_Fd s) s ?s {#}" using b2 True Scan_end by (simp add: scan_left_def booked_def)
        moreover have "m_Fd ?s = m_Fd s" using s2(2) p' by (simp add: srv_same_def)
        ultimately show ?thesis using IH booked_trans s2(2) p' by (fastforce simp: srv_same_def)
      next
        case False
        have "booked os (m_Fd s) s ?s (leaving a q)" using b2 Scan_end by (simp add: scan_left_def booked_def)
        with False rest2 Scan_end 1(6) s2(2) s2(4) [OF Scan_end] inv p' show ?thesis
          by (auto simp: srv_same_def picked_def)
      qed
    qed
  qed
qed

section \<open>Properties\<close>

text \<open>A listening server with one client in slot 1, for the witnesses.\<close>

definition example_mem :: SocketData where
  "example_mem = decode (replicate 100 0)"

definition example_server :: LocalServerSocket where
  "example_server = \<lparr>m_Fd = 3, m_IsMainFdListening = True,
     m_SessionFdArray = [\<lparr>pfd_fd = 3, pfd_events = 1, pfd_revents = 0\<rparr>,
       \<lparr>pfd_fd = 5, pfd_events = 1, pfd_revents = 0\<rparr>, \<lparr>pfd_fd = 7, pfd_events = 1, pfd_revents = 0\<rparr>,
       empty_slot, empty_slot, empty_slot], m_FdIndex = 0\<rparr>"

text \<open>Both clients always have a request waiting.\<close>

definition busy_os :: "unit os_api" where
  "busy_os = idle_os\<lparr>os_poll := (\<lambda>fds w. (Inr (2, map (\<lambda>p. if pfd_fd p \<in> {5, 7} then 1 else 0) fds), w)),
     os_read := (\<lambda>fd n w. (Inr (replicate n 8), w))\<rparr>"


lemma example_laws: "accepts_fresh busy_os" "polls_all busy_os" "server_inv example_server"
  by (simp_all add: accepts_fresh_def polls_all_def busy_os_def idle_simps server_inv_def
      example_server_def empty_slot_def)

definition busy_server :: LocalServerSocket where
  "busy_server = example_server\<lparr>m_SessionFdArray := [\<lparr>pfd_fd = 3, pfd_events = 1, pfd_revents = 0\<rparr>,
       \<lparr>pfd_fd = 5, pfd_events = 1, pfd_revents = 1\<rparr>, \<lparr>pfd_fd = 7, pfd_events = 1, pfd_revents = 1\<rparr>,
       empty_slot, empty_slot, empty_slot], m_FdIndex := 1\<rparr>"

lemma example_mem_wf: "sd_wf example_mem"
  unfolding example_mem_def by (rule decode_wf) simp

lemma busy_read: "read_message busy_os 5 example_mem () = ret ((SUCCESS, decode (replicate 100 8)), ())"
proof -
  have "length (encode example_mem) = 100" using example_mem_wf by simp
  then have "read_loop busy_os 5 (encode example_mem) 100 0 () = ret ((SUCCESS, replicate 100 8), ())"
    by (subst read_loop.simps, simp add: busy_os_def idle_simps,
        subst read_loop.simps, simp)
  then show ?thesis by (simp add: read_message_def ReadData_def)
qed

lemma busy_command: "sd_Command (decode (replicate 100 8)) = 0x08080808"
  by (simp add: decode_def chunk_def un32_def)

lemma busy_runs:
  "GetTask busy_os (\<lambda>w. False) (\<lambda>w. example_mem) example_server example_mem () =
     ret ((SUCCESS, 5, decode (replicate 100 8), busy_server), ())"
  "GetTask busy_os (\<lambda>w. False) (\<lambda>w. example_mem) busy_server example_mem () =
     ret ((SUCCESS, 5, decode (replicate 100 8), busy_server), ())"
proof -
  have [simp]: "\<not> (6 :: u32) \<le> 1" by (simp add: word_le_nat_alt)
  have poll: "PollForEvent busy_os (\<lambda>w. False) s () = ret ((SUCCESS, busy_server\<lparr>m_FdIndex := m_FdIndex s\<rparr>), ())"
    if "s = example_server \<or> s = busy_server" for s
    using that
    by (auto simp: PollForEvent_def example_server_def busy_server_def busy_os_def idle_simps
        set_revents_def empty_slot_def) (subst poll_loop.simps, simp add: set_revents_def)+
  have task: "read_task busy_os s 1 example_mem () = ret ((Scan_end 1 5 (decode (replicate 100 8)), s), ())"
    if "pfd_fd (m_SessionFdArray s ! 1) = 5" for s
    using that busy_command by (simp add: read_task_def GetRequest_def busy_read)
  show "GetTask busy_os (\<lambda>w. False) (\<lambda>w. example_mem) example_server example_mem () =
     ret ((SUCCESS, 5, decode (replicate 100 8), busy_server), ())"
    by (subst GetTask.simps, simp add: poll)
      (subst scan.simps, simp add: busy_server_def example_server_def Let_def, subst scan.simps,
        simp add: Let_def task)
  show "GetTask busy_os (\<lambda>w. False) (\<lambda>w. example_mem) busy_server example_mem () =
     ret ((SUCCESS, 5, decode (replicate 100 8), busy_server), ())"
    by (subst GetTask.simps, simp add: poll)
      (subst scan.simps, simp add: busy_server_def example_server_def Let_def task)
qed

text \<open>Client 5 of the example server has hung up.\<close>

definition hangup_os :: "nat os_api" where
  "hangup_os = idle_os\<lparr>os_poll := (\<lambda>fds w. (Inr (1, map (\<lambda>p. if pfd_fd p = 5 then POLLHUP else 0) fds), w)),
     os_read := (\<lambda>fd n w. (Inr [], w))\<rparr>"

definition hungup_server :: LocalServerSocket where
  "hungup_server = example_server\<lparr>m_SessionFdArray := [\<lparr>pfd_fd = 3, pfd_events = 1, pfd_revents = 0\<rparr>,
     empty_slot, \<lparr>pfd_fd = 7, pfd_events = 1, pfd_revents = 0\<rparr>, empty_slot, empty_slot, empty_slot],
     m_FdIndex := 1\<rparr>"

definition hangup_request :: SocketData where
  "hangup_request = (SocketData_new example_mem)\<lparr>sd_Size := 100, sd_Command := api HDCP_API_DESTROY\<rparr>"

lemma hangup_task:
  "GetTask hangup_os (\<lambda>w. False) (\<lambda>w. example_mem) example_server (SocketData_new example_mem) 0 =
     ret ((SUCCESS, 5, hangup_request, hungup_server), 0)"
proof -
  let ?os = hangup_os and ?m = "SocketData_new example_mem"
  let ?s = "example_server\<lparr>m_SessionFdArray := [\<lparr>pfd_fd = 3, pfd_events = 1, pfd_revents = 0\<rparr>,
     \<lparr>pfd_fd = 5, pfd_events = 1, pfd_revents = 16\<rparr>, \<lparr>pfd_fd = 7, pfd_events = 1, pfd_revents = 0\<rparr>,
     empty_slot, empty_slot, empty_slot]\<rparr>"
  have [simp]: "\<not> (6 :: u32) \<le> 1" by (simp add: word_le_nat_alt)
  have os: "os_read ?os = (\<lambda>fd n w. (Inr [], w))" "os_close ?os = (\<lambda>fd w. (Inr (), w))"
    "os_poll ?os = (\<lambda>fds w. (Inr (1, map (\<lambda>p. if pfd_fd p = 5 then POLLHUP else 0) fds), w))"
    by (simp_all add: hangup_os_def idle_simps)
  have wf: "sd_wf ?m" using SocketData_new_wf [OF example_mem_wf] .
  have "read_loop ?os 5 (encode ?m) 100 0 0 = ret ((ENOTCONN, encode ?m), 0)"
    by (subst read_loop.simps) (simp add: os)
  then have rd: "GetRequest ?os ?m 5 0 = ret ((ENOTCONN, ?m), 0)"
    using wf by (simp add: GetRequest_def read_message_def ReadData_def decode_encode)
  have poll: "PollForEvent ?os (\<lambda>w. False) example_server 0 = ret ((SUCCESS, ?s), 0)"
    by (auto simp: PollForEvent_def example_server_def)
      (subst poll_loop.simps, simp add: os set_revents_def empty_slot_def)
  have task: "read_task ?os ?s 1 ?m 0 = ret ((Scan_end 1 5 hangup_request, set_slot 1 empty_slot ?s), 0)"
    using rd by (simp add: read_task_def os hangup_request_def Let_def example_server_def)
  show ?thesis
    by (subst GetTask.simps, simp add: poll)
      (subst scan.simps, simp add: example_server_def Let_def, subst scan.simps,
        simp add: Let_def task [unfolded example_server_def, simplified] set_slot_def hungup_server_def example_server_def)
qed



text \<open>A descriptor whose requests never run out: every successful poll reports it readable.\<close>

definition always_readable :: "'w os_api \<Rightarrow> int \<Rightarrow> bool" where
  "always_readable os fd \<longleftrightarrow> (\<forall>fds w n rs w' k. os_poll os fds w = (Inr (n, rs), w') \<longrightarrow>
     k < length fds \<longrightarrow> pfd_fd (fds ! k) = fd \<longrightarrow> POLLIN AND rs ! k \<noteq> 0)"

text \<open>The choice of the next request is not round-robin: the index is left at the slot just
  served, not moved past it, so a client that always has a request waiting is served again at once,
  and while it is, no other client and no new connection is.\<close>

theorem busy_client_served_again:
  assumes laws: "accepts_fresh os" "polls_all os" "server_inv s"
    and first: "GetTask os killed mem s req w = ret ((SUCCESS, f, req1, s1), w1)" "\<not> leaves_table req1"
    and busy: "always_readable os f"
    and second: "GetTask os killed mem s1 req2 w2 = ret ((SUCCESS, f2, req3, s2), w3)"
  shows "f2 = f \<and> m_FdIndex s2 = m_FdIndex s1"
proof -
  let ?k = "m_FdIndex s1"
  from GetTask_raw [OF first(1) laws refl] first(2)
  have s1: "server_inv s1" "?k < 6" "f \<noteq> m_Fd s1" "f \<noteq> -1"
    "pfd_fd (m_SessionFdArray s1 ! unat ?k) = f" by (auto simp: picked_def)
  have kn: "unat ?k < 6" using s1(2) by (simp add: word_less_nat_alt)
  from second obtain p w4 where poll: "PollForEvent os killed s1 w2 = ret ((SUCCESS, p), w4)"
    and rest: "obind (scan os mem p (m_FdIndex p) req2 w4) (\<lambda>((r, s), w).
     case r of
       Scan_return sts \<Rightarrow> ret ((sts, -1, req2, s), w)
     | Scan_end i appId req \<Rightarrow>
         let s = s\<lparr>m_FdIndex := i\<rparr> in
         if appId = -1 then GetTask os killed mem s req w
         else ret ((SUCCESS, appId, req, s), w)) = ret ((SUCCESS, f2, req3, s2), w3)"
    by (subst (asm) GetTask.simps) (auto elim!: hdcp_elims split: if_splits)
  note p = PollForEvent_ok [OF poll laws(2) s1(1)]
  then have fds: "map pfd_fd (m_SessionFdArray p) = map pfd_fd (m_SessionFdArray s1)"
    and same: "m_FdIndex p = ?k" "m_Fd p = m_Fd s1" and inv: "server_inv p"
    by (auto simp: srv_same_def)
  have len: "length (m_SessionFdArray p) = 6" "length (m_SessionFdArray s1) = 6"
    using inv s1(1) by (auto simp: server_inv_def)
  have fk: "pfd_fd (m_SessionFdArray p ! unat ?k) = f"
    using arg_cong [OF fds, of "\<lambda>l. l ! unat ?k"] kn len s1(5) by simp
  have "poll_loop os killed s1 w2 = Some (Ret ((SUCCESS, p), w4))"
    using poll by (simp add: PollForEvent_def split: if_splits)
  from poll_loop_raw [OF this laws(2) refl] obtain u u' n rs fds' where
    q: "os_poll os fds' u = (Inr (n, rs), u')" "map pfd_fd fds' = map pfd_fd (m_SessionFdArray s1)"
      "m_SessionFdArray p = set_revents rs fds'" by auto
  have lf: "length rs = length fds'" "length fds' = 6"
    using polls_allD(1) [OF laws(2) q(1)] arg_cong [OF q(2), of length] len by simp_all
  have "pfd_fd (fds' ! unat ?k) = f"
    using arg_cong [OF q(2), of "\<lambda>l. l ! unat ?k"] kn lf len s1(5) by simp
  then have "POLLIN AND rs ! unat ?k \<noteq> 0"
    using busy [unfolded always_readable_def] q(1) kn lf(2) by metis
  then have ready: "POLLIN AND pfd_revents (m_SessionFdArray p ! unat ?k) \<noteq> 0"
    "pfd_revents (m_SessionFdArray p ! unat ?k) \<noteq> 0" using q(3) lf kn by auto
  have "?k \<noteq> (?k + 5) mod 6"
  proof -
    have "unat (?k + 5) = unat ?k + 5" using kn by (simp add: unat_word_ariths)
    then have "unat ((?k + 5) mod 6) = (unat ?k + 5) mod 6" by (simp add: unat_mod)
    moreover have "(unat ?k + 5) mod 6 \<noteq> unat ?k" using kn by presburger
    ultimately show ?thesis by metis
  qed
  moreover have "\<not> 6 \<le> ?k" using s1(2) by simp
  ultimately have sc: "scan os mem p ?k req2 w4 = read_task os p ?k req2 w4"
    using s1(3,4) ready fk same by (subst scan.simps) (simp add: Let_def)
  with rest same obtain sr s3 w5 where rt: "read_task os p ?k req2 w4 = ret ((sr, s3), w5)"
    and rest2: "(case sr of
       Scan_return sts \<Rightarrow> ret ((sts, -1, req2, s3), w5)
     | Scan_end i appId req \<Rightarrow>
         let s = s3\<lparr>m_FdIndex := i\<rparr> in
         if appId = -1 then GetTask os killed mem s req w5
         else ret ((SUCCESS, appId, req, s), w5)) = ret ((SUCCESS, f2, req3, s2), w3)"
    by (auto elim!: hdcp_elims)
  have "\<exists>q. sr = Scan_end ?k f q"
    by (rule read_task_picks [OF rt inv s1(2)]) (use fk same s1(3,4) in auto)
  with rest2 s1(4) show ?thesis by auto
qed

theorem busy_client_served_again_witness:
  "(5::int) = 5 \<and> m_FdIndex busy_server = m_FdIndex busy_server"
proof (rule busy_client_served_again [OF example_laws busy_runs(1) _ _ busy_runs(2)])
  show "\<not> leaves_table (decode (replicate 100 8))" by code_simp
  show "always_readable busy_os 5" by (auto simp: always_readable_def busy_os_def idle_simps)
qed

text \<open>A connection attempt that is interrupted or aborted is not tried again: the loop ends with
  the error number, and so GetTask gives up on the whole round; and when the table is full the new
  connection is closed and the result is EINVAL, not success.\<close>

theorem accept_gives_up:
  assumes "os_accept os (m_Fd s) w = (r, w1)"
  shows "(\<forall>e. r = Inl e \<longrightarrow> e \<noteq> EAGAIN \<longrightarrow> ProcessNewConnections os mem s w = ret ((e, s), w1)) \<and>
    (\<forall>fd. r = Inr fd \<longrightarrow> find_slot (m_SessionFdArray s) 0 = SESSION_COUNT_MAX \<longrightarrow>
      ProcessNewConnections os mem s w = ret ((EINVAL, s), snd (os_close os fd w1)))"
  using assms
  by (auto simp: ProcessNewConnections_def split: prod.split)
    (subst accept_loop.simps, simp split: prod.split)+

theorem accept_gives_up_witness:
  "ProcessNewConnections (idle_os\<lparr>os_accept := (\<lambda>fd w. (Inl ECONNABORTED, w))\<rparr>) (\<lambda>_. example_mem) example_server () =
     ret ((ECONNABORTED, example_server), ())"
  using accept_gives_up [of "idle_os\<lparr>os_accept := (\<lambda>fd w. (Inl ECONNABORTED, w))\<rparr>" example_server
      "()" "Inl ECONNABORTED" "()" "\<lambda>_. example_mem"] by simp

text \<open>C34: A message arrives as it was sent: if one side sent a message successfully and the bytes it
  sent are what the other side reads next, the other side's read terminates, and if it succeeds it has
  that message and the stream is left where the message ends.\<close>

theorem message_transfer:
  assumes send: "sends_in_order os out" "SendMessage os c req w = ret (SUCCESS, w1)" "sd_wf req"
    and read: "reads_in_order os inc" "finitely_stalled os stall" "fd \<noteq> -1" "sd_wf msg"
    and link: "inc w2 fd = drop (length (out w (m_Fd c))) (out w1 (m_Fd c)) @ rest"
  shows "\<exists>sts msg' w3. GetRequest os msg fd w2 = ret ((sts, msg'), w3) \<and> sd_wf msg' \<and>
    (sts = SUCCESS \<longrightarrow> msg' = req \<and> inc w3 fd = rest)"
proof -
  have sent: "out w1 (m_Fd c) = out w (m_Fd c) @ encode req"
    by (rule WriteData_partial [OF send(2) [unfolded SendMessage_def] send(1)])
      (use send(3) in auto)
  then have "inc w2 fd = encode req @ rest" using link by simp
  from read_message_total [OF read this send(3)] show ?thesis by (simp add: GetRequest_def)
qed

theorem message_transfer_witness:
  "\<exists>sts msg' w3. GetRequest pipe_os example_mem 5 (encode example_mem, []) = ret ((sts, msg'), w3) \<and>
    (sts = SUCCESS \<longrightarrow> msg' = example_mem)"
proof -
  have wf: "sd_wf example_mem" unfolding example_mem_def by (rule decode_wf) simp
  have "SendMessage pipe_os \<lparr>m_Fd = 4\<rparr> example_mem ([], []) = ret (SUCCESS, ([], encode example_mem))"
    by code_simp
  from message_transfer [OF pipe_laws(2) this wf pipe_laws(1,3) _ wf, of 5
      "(encode example_mem, [])" "[]"]
  show ?thesis by auto
qed

text \<open>A client that ends its session with a DESTROY request is taken out of the table without
  its descriptor being closed: the only call made is the read of the request, and afterwards no slot
  names the descriptor (which was in one slot only).\<close>

theorem destroy_leaves_descriptor_open:
  assumes "GetRequest os req (pfd_fd (m_SessionFdArray s ! unat i)) w = ret ((SUCCESS, req1), w1)"
    and "sd_Command req1 = api HDCP_API_DESTROY" "server_inv s" "i < 6"
    and "pfd_fd (m_SessionFdArray s ! unat i) = fd" "fd \<noteq> -1"
    and "\<And>j. j < 6 \<Longrightarrow> j \<noteq> unat i \<Longrightarrow> pfd_fd (m_SessionFdArray s ! j) \<noteq> fd"
  shows "read_task os s i req w =
      ret ((Scan_end i fd req1, set_slot (unat i) empty_slot s), w1) \<and>
    fd \<notin> pfd_fd ` set (m_SessionFdArray (set_slot (unat i) empty_slot s))"
proof -
  have len: "length (m_SessionFdArray s) = 6" "unat i < 6"
    using assms(3,4) by (simp_all add: word_less_nat_alt server_inv_def)
  have "read_task os s i req w = ret ((Scan_end i fd req1, set_slot (unat i) empty_slot s), w1)"
    using assms(1,2,5) by (simp add: read_task_def Let_def)
  moreover have "pfd_fd (m_SessionFdArray (set_slot (unat i) empty_slot s) ! j) \<noteq> fd" if "j < 6" for j
    using assms(6) assms(7) [OF that] len that
    by (cases "j = unat i") (simp_all add: set_slot_def empty_slot_def)
  then have "fd \<notin> pfd_fd ` set (m_SessionFdArray (set_slot (unat i) empty_slot s))"
    using len by (fastforce simp: in_set_conv_nth set_slot_def)
  ultimately show ?thesis ..
qed

definition whole_os :: "u8 list os_api" where
  "whole_os = idle_os\<lparr>os_read := (\<lambda>fd n w. (Inr (take n w), drop n w))\<rparr>"

lemma destroy_read:
  fixes m :: SocketData
  defines "m \<equiv> example_mem\<lparr>sd_Command := api HDCP_API_DESTROY\<rparr>"
  shows "GetRequest whole_os example_mem 5 (encode m) = ret ((SUCCESS, m), [])"
proof -
  have wf: "sd_wf m" using example_mem_wf by (simp add: m_def)
  then have len: "length (encode m) = 100" "length (encode example_mem) = 100" "encode m \<noteq> []"
    using example_mem_wf by (auto simp flip: length_greater_0_conv)
  then have "read_loop whole_os 5 (encode example_mem) 100 0 (encode m) =
      ret ((SUCCESS, encode m), [])"
    by (subst read_loop.simps, simp add: whole_os_def idle_simps,
        subst read_loop.simps, simp)
  then show ?thesis using wf len
    by (simp add: GetRequest_def read_message_def ReadData_def decode_encode)
qed

theorem destroy_leaves_descriptor_open_witness:
  "(5::int) \<notin> pfd_fd ` set (m_SessionFdArray (set_slot 1 empty_slot example_server))"
proof -
  have "j < 6 \<Longrightarrow> j \<noteq> 1 \<Longrightarrow> pfd_fd (m_SessionFdArray example_server ! j) \<noteq> 5" for j :: nat
    by (auto simp: example_server_def empty_slot_def less_Suc_eq numeral_eq_Suc)
  moreover have "pfd_fd (m_SessionFdArray example_server ! 1) = 5"
    by (simp add: example_server_def)
  ultimately show ?thesis
    using destroy_leaves_descriptor_open [of whole_os example_mem example_server 1 _ _ _ 5]
      destroy_read example_laws(3) by simp
qed

end
