(* ===== verification/CallBack.thy ===== *)
theory CallBack
  imports ServSock
begin

text \<open>
  The list of callback connections of \<^verbatim>\<open>HdcpDaemon\<close> and the report of a port event to all of them
  (\<^verbatim>\<open>HdcpDaemon::ReportStatus\<close>, the list handling of \<^verbatim>\<open>DispatchCommand\<close> and of the destructor in
  \<^verbatim>\<open>src/daemon/daemon.cpp\<close>). The list is shared by the three threads of the daemon and guarded by a
  mutex, which is kept as the flag that says whether it is held.
\<close>

record CallBacks =
  m_CallBackList :: "int list"
  m_CallBackListMutex :: bool

definition acquire_callbacks :: "CallBacks \<Rightarrow> CallBacks outcome option" where
  "acquire_callbacks cb =
     (if m_CallBackListMutex cb then None else ret (cb\<lparr>m_CallBackListMutex := True\<rparr>))"

definition release_callbacks :: "CallBacks \<Rightarrow> CallBacks outcome option" where
  "release_callbacks cb =
     (if m_CallBackListMutex cb then ret (cb\<lparr>m_CallBackListMutex := False\<rparr>) else Some Undef)"

text \<open>The case \<^verbatim>\<open>HDCP_API_CREATE_CALLBACK\<close> of \<^verbatim>\<open>DispatchCommand\<close>.\<close>

definition register_callback :: "int \<Rightarrow> CallBacks \<Rightarrow> CallBacks outcome option" where
  "register_callback appId cb =
     obind (acquire_callbacks cb) (\<lambda>cb.
     release_callbacks (cb\<lparr>m_CallBackList := filter (\<lambda>fd. fd \<noteq> appId) (m_CallBackList cb) @ [appId]\<rparr>))"

fun report_loop ::
  "'w os_api \<Rightarrow> SocketData \<Rightarrow> int list \<Rightarrow> 'w \<Rightarrow> (int list \<times> 'w) outcome option" where
  "report_loop os data [] w = ret ([], w)"
| "report_loop os data (fd # fds) w =
     obind (SendResponse os data fd w) (\<lambda>(sts, w).
     if sts \<noteq> SUCCESS then let (_, w) = os_close os fd w in report_loop os data fds w
     else obind (report_loop os data fds w) (\<lambda>(fds, w). ret (fd # fds, w)))"

definition status_message :: "SocketData \<Rightarrow> PORT_EVENT \<Rightarrow> u32 \<Rightarrow> SocketData" where
  "status_message mem event portId =
     set_SinglePort (\<lambda>p. p\<lparr>Port_Event := event_code event, Port_Id := portId\<rparr>)
       ((SocketData_new mem)\<lparr>sd_Size := of_nat sizeof_SocketData,
          sd_Command := api HDCP_API_REPORTSTATUS, sd_PortCount := 1\<rparr>)"

definition ReportStatus ::
  "'w os_api \<Rightarrow> ('w \<Rightarrow> SocketData) \<Rightarrow> CallBacks \<Rightarrow> PORT_EVENT \<Rightarrow> u32 \<Rightarrow> 'w \<Rightarrow>
     (CallBacks \<times> 'w) outcome option" where
  "ReportStatus os mem cb event portId w =
     (let data = status_message (mem w) event portId in
      obind (acquire_callbacks cb) (\<lambda>cb.
      obind (report_loop os data (m_CallBackList cb) w) (\<lambda>(fds, w).
      obind (release_callbacks (cb\<lparr>m_CallBackList := fds\<rparr>)) (\<lambda>cb. ret (cb, w)))))"

text \<open>The destructor closes what is left in the list.\<close>

definition CallBacks_delete :: "'w os_api \<Rightarrow> CallBacks \<Rightarrow> 'w \<Rightarrow> (CallBacks \<times> 'w) outcome option" where
  "CallBacks_delete os cb w =
     obind (acquire_callbacks cb) (\<lambda>cb.
     let w = fold (\<lambda>fd w. snd (os_close os fd w)) (m_CallBackList cb) w in
     obind (release_callbacks (cb\<lparr>m_CallBackList := []\<rparr>)) (\<lambda>cb. ret (cb, w)))"

section \<open>Delivery\<close>

lemma status_message_wf: "sd_wf mem \<Longrightarrow> sd_wf (status_message mem e p)"
  by (simp add: status_message_def SocketData_new_wf)

lemma status_message_fields:
  assumes "sd_wf mem"
  shows "sd_Command (status_message mem e p) = api HDCP_API_REPORTSTATUS"
    and "sd_PortCount (status_message mem e p) = 1"
    and "Port_Id (SinglePort (status_message mem e p)) = p"
    and "Port_Event (SinglePort (status_message mem e p)) = event_code e"
    and "sd_Size (status_message mem e p) = of_nat sizeof_SocketData"
  using assms
  by (auto elim!: sd_wf_obtains simp: status_message_def set_SinglePort_def SinglePort_def
      SocketData_new_def)

text \<open>
  \<open>sends_only\<close>: a send to one descriptor leaves what was sent to the others alone, and so does a
  close.
\<close>

definition sends_only :: "'w os_api \<Rightarrow> ('w \<Rightarrow> int \<Rightarrow> u8 list) \<Rightarrow> bool" where
  "sends_only os out \<longleftrightarrow> (\<forall>fd bs w fd'. fd' \<noteq> fd \<longrightarrow> out (snd (os_send os fd bs w)) fd' = out w fd') \<and>
     (\<forall>fd w fd'. out (snd (os_close os fd w)) fd' = out w fd')"

lemma write_loop_only:
  fixes os :: "'w os_api" and out :: "'w \<Rightarrow> int \<Rightarrow> u8 list"
  assumes "write_loop os fd data rem offset w = Some r" "sends_only os out" "fd' \<noteq> fd"
    "r = Ret (sts, w')"
  shows "out w' fd' = out w fd'"
proof (rule write_loop.raw_induct [where P = "\<lambda>os fd data rem offset w r.
      sends_only os out \<longrightarrow> fd' \<noteq> fd \<longrightarrow> (\<forall>sts w'. r = Ret (sts, w') \<longrightarrow> out w' fd' = out w fd')",
      rule_format, OF _ assms], goal_cases)
  case (1 f os fd data rem offset w r sts w')
  have only: "os_send os fd bs w = (q, w1) \<Longrightarrow> out w1 fd' = out w fd'" for bs q w1
    using 1(3,4) unfolding sends_only_def by (metis snd_conv)
  show ?case
  proof (cases "rem > 0")
    case False
    with 1(2,5) show ?thesis by auto
  next
    case True
    with 1(2,5) obtain bs where "rd_range data (unat offset) (nat rem) = Ret bs"
      and rest: "(let (r, w) = os_send os fd bs w in
        case r of
          Inl e \<Rightarrow> if e = EINTR \<or> e = EAGAIN then f os fd data rem offset w
                   else ret (e, w)
        | Inr n \<Rightarrow> f os fd data (rem - int n) (offset + of_nat n) w) = Some r"
      by (auto elim!: hdcp_elims)
    obtain q w1 where q: "os_send os fd bs w = (q, w1)" by fastforce
    show ?thesis
      using rest q only [OF q] 1(5) 1(1) [OF _ 1(3,4) 1(5)]
      by (auto split: sum.splits if_splits)
  qed
qed

lemma SendResponse_only:
  "SendResponse os d fd w = ret (sts, w') \<Longrightarrow> sends_only os out \<Longrightarrow> fd' \<noteq> fd \<Longrightarrow> out w' fd' = out w fd'"
  unfolding SendResponse_def WriteData_def
  by (auto split: if_splits dest: write_loop_only [OF _ _ _ refl])

lemma SendResponse_sent:
  assumes "SendResponse os d fd w = ret (sts, w')" "sends_in_order os out" "sd_wf d"
  shows "\<exists>k \<le> 100. out w' fd = out w fd @ take k (encode d) \<and> (sts = SUCCESS \<longrightarrow> k = 100)"
  by (rule WriteData_partial [OF assms(1) [unfolded SendResponse_def] assms(2)])
    (use assms(3) in auto)

lemma report_loop_subset: "report_loop os d fds w = ret (fds', w') \<Longrightarrow> set fds' \<subseteq> set fds"
  by (induction fds arbitrary: w fds')
    (auto elim!: hdcp_elims split: prod.splits if_splits, blast+)

lemma report_loop_ConsE:
  assumes "report_loop os d (a # fds) w = ret (fds', w')" "sends_only os out"
  obtains sts w1 w2 fds2 where "SendResponse os d a w = ret (sts, w1)"
    "report_loop os d fds w2 = ret (fds2, w')" "\<And>y. out w2 y = out w1 y"
    "fds' = (if sts = SUCCESS then a # fds2 else fds2)"
proof -
  have c: "os_close os x u = (r, v) \<Longrightarrow> out v y = out u y" for x u r v y
    using assms(2) unfolding sends_only_def by (metis snd_conv)
  from assms(1) obtain sts w1 where s: "SendResponse os d a w = ret (sts, w1)"
    and rest: "(if sts \<noteq> SUCCESS then let (_, w) = os_close os a w1 in report_loop os d fds w
     else obind (report_loop os d fds w1) (\<lambda>(fds, w). ret (a # fds, w))) = ret (fds', w')"
    by (auto elim!: hdcp_elims)
  show ?thesis
  proof (cases "sts = SUCCESS")
    case True
    with rest s that show ?thesis by (auto elim!: hdcp_elims)
  next
    case False
    obtain r v where v: "os_close os a w1 = (r, v)" by fastforce
    with rest False have "report_loop os d fds v = ret (fds', w')" by simp
    from that [OF s this c [OF v]] False show ?thesis by simp
  qed
qed

lemma report_loop_other:
  "report_loop os d fds w = ret (fds', w') \<Longrightarrow> sends_only os out \<Longrightarrow> fd \<notin> set fds \<Longrightarrow>
     out w' fd = out w fd"
proof (induction fds arbitrary: w fds')
  case (Cons a fds)
  from Cons.prems(1,2) show ?case
    by (rule report_loop_ConsE)
      (use Cons.IH Cons.prems(2,3) SendResponse_only in \<open>metis list.set_intros\<close>)
qed simp

text \<open>Each connection gets the message once: whole if it stays in the list, a prefix if not.\<close>

lemma report_loop_delivers:
  assumes "report_loop os d fds w = ret (fds', w')" "sends_in_order os out" "sends_only os out"
    "sd_wf d" "distinct fds" "fd \<in> set fds"
  shows "\<exists>k \<le> 100. out w' fd = out w fd @ take k (encode d) \<and> (fd \<in> set fds' \<longrightarrow> k = 100)"
  using assms(1,5,6)
proof (induction fds arbitrary: w fds')
  case (Cons a fds)
  obtain sts w1 w2 fds2 where s: "SendResponse os d a w = ret (sts, w1)"
    and t: "report_loop os d fds w2 = ret (fds2, w')" "\<And>y. out w2 y = out w1 y"
      "fds' = (if sts = SUCCESS then a # fds2 else fds2)"
    by (rule report_loop_ConsE [OF Cons.prems(1) assms(3)]) (rule that)
  show ?case
  proof (cases "fd = a")
    case True
    have "out w' fd = out w1 fd"
      using report_loop_other [OF t(1) assms(3)] Cons.prems(2) True t(2) by simp
    moreover have "fd \<notin> set fds2" using report_loop_subset [OF t(1)] Cons.prems(2) True by auto
    ultimately show ?thesis using SendResponse_sent [OF s assms(2,4)] True t(3) by auto
  next
    case False
    have "out w2 fd = out w fd" using t(2) SendResponse_only [OF s assms(3) False] by simp
    with Cons.IH [OF t(1)] Cons.prems(2,3) False t(3) show ?thesis by auto
  qed
qed simp

section \<open>What an operation owes to the callback connections\<close>

text \<open>
  An operation that reports a list of events, each with its port, to the connections of the callback
  list: one message per event, in the order of the events. A connection that is in the list at the end
  got all of them, whole. One that is not was sent the messages up to the one that could not be
  sent to it, and nothing after that one. Nobody else got anything, and no connection is added.
\<close>

definition report_of :: "PORT_EVENT \<times> u32 \<Rightarrow> SocketData \<Rightarrow> bool" where
  "report_of ev d \<longleftrightarrow> sd_wf d \<and> sd_Size d = of_nat sizeof_SocketData \<and> sd_Command d = api HDCP_API_REPORTSTATUS \<and> sd_PortCount d = 1 \<and>
     Port_Id (SinglePort d) = snd ev \<and> Port_Event (SinglePort d) = event_code (fst ev)"

definition undelivered ::
  "'w os_api \<Rightarrow> ('w \<Rightarrow> int \<Rightarrow> u8 list) \<Rightarrow> SocketData list \<Rightarrow> int \<Rightarrow> 'w \<Rightarrow> 'w \<Rightarrow> bool" where
  "undelivered os out ds fd w w' \<longleftrightarrow> (\<exists>k < length ds. \<exists>u sts u'.
     out u fd = out w fd @ concat (map encode (take k ds)) \<and>
     SendResponse os (ds ! k) fd u = ret (sts, u') \<and> sts \<noteq> SUCCESS \<and> out w' fd = out u' fd)"

definition reported ::
  "'w os_api \<Rightarrow> ('w \<Rightarrow> int \<Rightarrow> u8 list) \<Rightarrow> (PORT_EVENT \<times> u32) list \<Rightarrow> CallBacks \<Rightarrow> 'w \<Rightarrow> CallBacks \<Rightarrow> 'w \<Rightarrow> bool" where
  "reported os out evs cb w cb' w' \<longleftrightarrow> (\<exists>ds. list_all2 report_of evs ds \<and>
     m_CallBackList cb' = filter (\<lambda>fd. fd \<in> set (m_CallBackList cb')) (m_CallBackList cb) \<and>
     (\<forall>fd. if fd \<in> set (m_CallBackList cb') then out w' fd = out w fd @ concat (map encode ds)
       else if fd \<in> set (m_CallBackList cb) then undelivered os out ds fd w w'
       else out w' fd = out w fd))"

lemma reported_nothing:
  assumes "out w' = out w"
  shows "reported os out [] cb w cb w'"
  unfolding reported_def using assms
  by (intro exI [of _ "[]"]) (simp add: filter_id_conv)

lemma undelivered_mono:
  assumes "undelivered os out ds fd w w'" "out w'' fd = out w' fd"
  shows "undelivered os out (ds @ es) fd w w''"
proof -
  obtain k u sts u' where k: "k < length ds" "out u fd = out w fd @ concat (map encode (take k ds))"
    "SendResponse os (ds ! k) fd u = ret (sts, u')" "sts \<noteq> SUCCESS" "out w' fd = out u' fd"
    using assms(1) by (auto simp: undelivered_def)
  then show ?thesis unfolding undelivered_def
    by (intro exI [of _ k] conjI exI [of _ u] exI [of _ sts] exI [of _ u']) (simp_all add: nth_append assms(2))
qed

lemma undelivered_later:
  assumes "undelivered os out es fd w w'" "out w fd = out w0 fd @ concat (map encode ds)"
  shows "undelivered os out (ds @ es) fd w0 w'"
proof -
  obtain k u sts u' where k: "k < length es" "out u fd = out w fd @ concat (map encode (take k es))"
    "SendResponse os (es ! k) fd u = ret (sts, u')" "sts \<noteq> SUCCESS" "out w' fd = out u' fd"
    using assms(1) by (auto simp: undelivered_def)
  then show ?thesis unfolding undelivered_def
    by (intro exI [of _ "length ds + k"] conjI exI [of _ u] exI [of _ sts] exI [of _ u'])
      (simp_all add: nth_append assms(2))
qed

lemma reported_trans:
  assumes "reported os out evs cb w cb1 w1" "reported os out evs2 cb1 w1 cb2 w2"
  shows "reported os out (evs @ evs2) cb w cb2 w2"
proof -
  obtain ds where d: "list_all2 report_of evs ds"
      "m_CallBackList cb1 = filter (\<lambda>fd. fd \<in> set (m_CallBackList cb1)) (m_CallBackList cb)"
      "\<And>fd. if fd \<in> set (m_CallBackList cb1) then out w1 fd = out w fd @ concat (map encode ds)
       else if fd \<in> set (m_CallBackList cb) then undelivered os out ds fd w w1
       else out w1 fd = out w fd" using assms(1) unfolding reported_def by blast
  obtain es where e: "list_all2 report_of evs2 es"
      "m_CallBackList cb2 = filter (\<lambda>fd. fd \<in> set (m_CallBackList cb2)) (m_CallBackList cb1)"
      "\<And>fd. if fd \<in> set (m_CallBackList cb2) then out w2 fd = out w1 fd @ concat (map encode es)
       else if fd \<in> set (m_CallBackList cb1) then undelivered os out es fd w1 w2
       else out w2 fd = out w1 fd" using assms(2) unfolding reported_def by blast
  have sub1: "set (m_CallBackList cb1) \<subseteq> set (m_CallBackList cb)" by (subst d(2)) auto
  have sub2: "set (m_CallBackList cb2) \<subseteq> set (m_CallBackList cb1)" by (subst e(2)) auto
  have "m_CallBackList cb2 = filter (\<lambda>fd. fd \<in> set (m_CallBackList cb2)) (m_CallBackList cb)"
  proof -
    have "m_CallBackList cb2 = filter (\<lambda>fd. fd \<in> set (m_CallBackList cb2))
        (filter (\<lambda>fd. fd \<in> set (m_CallBackList cb1)) (m_CallBackList cb))" using d(2) e(2) by simp
    also have "\<dots> = filter (\<lambda>fd. fd \<in> set (m_CallBackList cb2)) (m_CallBackList cb)"
      using sub2 by (auto intro: filter_cong)
    finally show ?thesis .
  qed
  moreover have "if fd \<in> set (m_CallBackList cb2) then out w2 fd = out w fd @ concat (map encode (ds @ es))
       else if fd \<in> set (m_CallBackList cb) then undelivered os out (ds @ es) fd w w2
       else out w2 fd = out w fd" for fd
    using d(3) [of fd] e(3) [of fd] sub1 sub2
    by (auto split: if_splits intro: undelivered_mono undelivered_later)
  moreover have "list_all2 report_of (evs @ evs2) (ds @ es)" using d(1) e(1) by (rule list_all2_appendI)
  ultimately show ?thesis unfolding reported_def by blast
qed

text \<open>A call in between that sends nothing does not matter.\<close>

lemma reported_before:
  assumes "reported os out evs cb w1 cb' w'" "out w1 = out w"
  shows "reported os out evs cb w cb' w'"
  using reported_trans [OF reported_nothing [of out w1 w os cb] assms(1)] assms(2) by simp

lemma report_loop_filter:
  assumes "report_loop os d fds w = ret (fds', w')" "distinct fds"
  shows "fds' = filter (\<lambda>fd. fd \<in> set fds') fds"
  using assms
proof (induction fds arbitrary: w fds')
  case (Cons a fds)
  then obtain fds2 w2 where t: "report_loop os d fds w2 = ret (fds2, w')" "fds' = a # fds2 \<or> fds' = fds2"
    by (auto elim!: hdcp_elims split: prod.splits if_splits)
  have "a \<notin> set fds2" using report_loop_subset [OF t(1)] Cons.prems(2) by auto
  moreover have "filter (\<lambda>fd. fd = a \<or> fd \<in> set fds2) fds = filter (\<lambda>fd. fd \<in> set fds2) fds"
    using Cons.prems(2) by (auto intro: filter_cong)
  ultimately show ?case using Cons.IH [OF t(1)] Cons.prems(2) t(2) by auto
qed simp

text \<open>A connection leaves the list exactly if the message could not be sent to it.\<close>

lemma report_loop_dropped:
  assumes "report_loop os d fds w = ret (fds', w')" "sends_only os out" "distinct fds" "fd \<in> set fds" "fd \<notin> set fds'"
  shows "\<exists>u sts u'. out u fd = out w fd \<and> SendResponse os d fd u = ret (sts, u') \<and> sts \<noteq> SUCCESS \<and>
    out w' fd = out u' fd"
  using assms(1,3-5)
proof (induction fds arbitrary: w fds')
  case (Cons a fds)
  obtain sts w1 w2 fds2 where s: "SendResponse os d a w = ret (sts, w1)"
    and t: "report_loop os d fds w2 = ret (fds2, w')" "\<And>y. out w2 y = out w1 y"
      "fds' = (if sts = SUCCESS then a # fds2 else fds2)"
    by (rule report_loop_ConsE [OF Cons.prems(1) assms(2)]) (rule that)
  show ?case
  proof (cases "fd = a")
    case True
    have "out w' fd = out w1 fd"
      using report_loop_other [OF t(1) assms(2)] Cons.prems(2) True t(2) by simp
    with s True t(3) Cons.prems(4) show ?thesis by (auto split: if_splits)
  next
    case False
    have "out w2 fd = out w fd" using t(2) SendResponse_only [OF s assms(2) False] by simp
    moreover have "fd \<notin> set fds2" using t(3) Cons.prems(4) by (auto split: if_splits)
    ultimately show ?thesis using Cons.IH [OF t(1)] Cons.prems(2,3) False by auto
  qed
qed simp

lemma ReportStatus_reported:
  assumes "sends_in_order os out" "sends_only os out" "\<And>u. sd_wf (mem u)" "distinct (m_CallBackList cb)"
    and "ReportStatus os mem cb event portId w = ret (cb', w')"
  shows "reported os out [(event, portId)] cb w cb' w'" "distinct (m_CallBackList cb')" "\<not> m_CallBackListMutex cb'"
proof -
  let ?d = "status_message (mem w) event portId"
  have wf: "sd_wf ?d" using status_message_wf assms(3) by blast
  from assms(5) obtain fds where loop: "report_loop os ?d (m_CallBackList cb) w = ret (fds, w')"
    and cb': "m_CallBackList cb' = fds" "\<not> m_CallBackListMutex cb'"
    unfolding ReportStatus_def acquire_callbacks_def release_callbacks_def Let_def
    by (auto elim!: hdcp_elims split: if_splits)
  note f = report_loop_filter [OF loop assms(4)]
  have "if fd \<in> set fds then out w' fd = out w fd @ concat (map encode [?d])
        else if fd \<in> set (m_CallBackList cb) then undelivered os out [?d] fd w w'
        else out w' fd = out w fd" for fd
    using report_loop_delivers [OF loop assms(1,2) wf assms(4), of fd] report_loop_subset [OF loop]
      report_loop_other [OF loop assms(2), of fd] report_loop_dropped [OF loop assms(2,4), of fd] wf
    by (auto simp: undelivered_def)
  moreover have "list_all2 report_of [(event, portId)] [?d]"
    using wf status_message_fields [OF assms(3) [of w]] by (simp add: report_of_def)
  ultimately show "reported os out [(event, portId)] cb w cb' w'"
    unfolding reported_def cb'(1) using f by blast
  show "distinct (m_CallBackList cb')" unfolding cb'(1) by (subst f) (use assms(4) in simp)
  show "\<not> m_CallBackListMutex cb'" by (fact cb'(2))
qed

section \<open>Properties\<close>

text \<open>C27: An event is reported to every registered connection exactly once, and the mutex is released. A
  connection leaves the list exactly if the message could not be sent to it; one that stays got the
  whole message, which names the event and the port, one that is dropped got what the failing transfer
  put on it, at most a part; the order of the list does not change, and nobody else gets anything.\<close>

theorem report_reaches_every_callback:
  assumes laws: "sends_in_order os out" "sends_only os out" "\<And>u. sd_wf (mem u)"
    and cb: "distinct (m_CallBackList cb)"
    and run: "ReportStatus os mem cb event portId w = ret (cb', w')"
  shows "\<not> m_CallBackListMutex cb' \<and>
    m_CallBackList cb' = filter (\<lambda>fd. fd \<in> set (m_CallBackList cb')) (m_CallBackList cb) \<and>
    (\<exists>d. report_of (event, portId) d \<and>
       (\<forall>fd. if fd \<in> set (m_CallBackList cb') then out w' fd = out w fd @ encode d
             else if fd \<in> set (m_CallBackList cb)
             then \<exists>k \<le> 100. \<exists>u sts u'. out u fd = out w fd \<and> SendResponse os d fd u = ret (sts, u') \<and>
               sts \<noteq> SUCCESS \<and> out w' fd = out u' fd \<and> out w' fd = out w fd @ take k (encode d)
             else out w' fd = out w fd))"
proof -
  note r = ReportStatus_reported [OF laws cb run]
  obtain d where d: "report_of (event, portId) d"
    and f: "m_CallBackList cb' = filter (\<lambda>fd. fd \<in> set (m_CallBackList cb')) (m_CallBackList cb)"
    and all: "\<And>fd. if fd \<in> set (m_CallBackList cb') then out w' fd = out w fd @ encode d
       else if fd \<in> set (m_CallBackList cb) then undelivered os out [d] fd w w'
       else out w' fd = out w fd"
    using r(1) by (auto simp: reported_def list_all2_Cons1)
  have wf: "sd_wf d" using d by (simp add: report_of_def)
  have "\<exists>k \<le> 100. \<exists>u sts u'. out u fd = out w fd \<and> SendResponse os d fd u = ret (sts, u') \<and>
      sts \<noteq> SUCCESS \<and> out w' fd = out u' fd \<and> out w' fd = out w fd @ take k (encode d)"
    if dropped: "undelivered os out [d] fd w w'" for fd
  proof -
    obtain u sts u' where u: "out u fd = out w fd" "SendResponse os d fd u = ret (sts, u')" "sts \<noteq> SUCCESS"
      "out w' fd = out u' fd" using dropped by (auto simp: undelivered_def)
    then show ?thesis using SendResponse_sent [OF u(2) laws(1) wf] by metis
  qed
  then show ?thesis using r(3) f d all by (intro conjI exI [of _ d]) auto
qed

text \<open>Two connections, 5 and 7, each send taking everything; 7 is broken.\<close>

definition two_os :: "(int \<Rightarrow> u8 list) os_api" where
  "two_os = idle_os\<lparr>os_send := (\<lambda>fd bs w.
     if fd = 7 then (Inl 32, w) else (Inr (length bs), w(fd := w fd @ bs)))\<rparr>"

definition sent_plug_in :: "int \<Rightarrow> u8 list" where
  "sent_plug_in fd = (if fd = 5 then encode (status_message example_mem PORT_EVENT_PLUG_IN 2) else [])"

lemma two_sends:
  fixes d :: SocketData
  assumes "sd_wf d"
  shows "SendResponse two_os d 5 w = ret (SUCCESS, w(5 := w 5 @ encode d))" "SendResponse two_os d 7 w = ret (32, w)"
    "os_close two_os fd w = (Inr (), w)"
proof -
  show "SendResponse two_os d 5 w = ret (SUCCESS, w(5 := w 5 @ encode d))"
    using assms by (simp add: SendResponse_def WriteData_def)
      (subst write_loop.simps, simp add: two_os_def idle_simps, subst write_loop.simps, simp)
  show "SendResponse two_os d 7 w = ret (32, w)"
    using assms by (simp add: SendResponse_def WriteData_def) (subst write_loop.simps, simp add: two_os_def idle_simps)
  show "os_close two_os fd w = (Inr (), w)" by (simp add: two_os_def idle_simps)
qed

lemma two_laws: "sends_in_order two_os (\<lambda>w. w)" "sends_only two_os (\<lambda>w. w)"
  by (auto simp: sends_in_order_def sends_only_def two_os_def idle_simps)

lemma two_report:
  "ReportStatus two_os (\<lambda>w. example_mem) \<lparr>m_CallBackList = [5, 7], m_CallBackListMutex = False\<rparr> e p w =
     ret (\<lparr>m_CallBackList = [5], m_CallBackListMutex = False\<rparr>, w(5 := w 5 @ encode (status_message example_mem e p)))"
  using two_sends [OF status_message_wf [OF example_mem_wf]]
  by (simp add: ReportStatus_def acquire_callbacks_def release_callbacks_def)

theorem report_reaches_every_callback_witness:
  "\<exists>d. report_of (PORT_EVENT_PLUG_IN, 2) d \<and>
     (\<forall>fd. if fd = 5 then sent_plug_in fd = encode d
           else if fd = 7 then \<exists>k \<le> 100. sent_plug_in fd = take k (encode d)
           else sent_plug_in fd = [])"
proof -
  have run: "ReportStatus two_os (\<lambda>w. example_mem) \<lparr>m_CallBackList = [5, 7], m_CallBackListMutex = False\<rparr>
      PORT_EVENT_PLUG_IN 2 (\<lambda>_. []) = ret (\<lparr>m_CallBackList = [5], m_CallBackListMutex = False\<rparr>, sent_plug_in)"
    unfolding two_report by (simp add: sent_plug_in_def fun_eq_iff)
  let ?cb = "\<lparr>m_CallBackList = [5, 7 :: int], m_CallBackListMutex = False\<rparr>"
  have "distinct (m_CallBackList ?cb)" by simp
  note r = report_reaches_every_callback [OF two_laws example_mem_wf this run]
  obtain d where d: "report_of (PORT_EVENT_PLUG_IN, 2) d"
    and all: "\<And>fd. if fd \<in> set (m_CallBackList \<lparr>m_CallBackList = [5], m_CallBackListMutex = False\<rparr>)
        then sent_plug_in fd = [] @ encode d
        else if fd \<in> set (m_CallBackList ?cb)
        then \<exists>k \<le> 100. \<exists>u sts u'. u fd = [] \<and> SendResponse two_os d fd u = ret (sts, u') \<and>
          sts \<noteq> SUCCESS \<and> sent_plug_in fd = u' fd \<and> sent_plug_in fd = [] @ take k (encode d)
        else sent_plug_in fd = []"
    using r [THEN conjunct2, THEN conjunct2] by blast
  have "if fd = 5 then sent_plug_in fd = encode d
           else if fd = 7 then \<exists>k \<le> 100. sent_plug_in fd = take k (encode d)
           else sent_plug_in fd = []" for fd
    using all [of fd] by (cases "fd = 5"; cases "fd = 7") auto
  with d show ?thesis by blast
qed

end
