(* ===== verification/DisplayWindow.thy ===== *)
theory DisplayWindow
  imports Hdcp_Platform
begin

text \<open>
  The connection to the IAS compositor: \<^verbatim>\<open>src/daemon/display_window_util_wl.cpp\<close>. Its three global
  variables are the record below; the library it loads is a parameter. A member call on the
  library's object after the library was unloaded is undefined.
\<close>

datatype lib_handle = Lib_null | Lib_open | Lib_closed

record wl_state =
  wl_stage :: bool
  wl_gwl :: bool
  wl_lib :: lib_handle

definition wl_start :: wl_state where
  "wl_start = \<lparr>wl_stage = False, wl_gwl = False, wl_lib = Lib_null\<rparr>"

definition util_create_display :: "'w gwl_api \<Rightarrow> wl_state \<Rightarrow> 'w \<Rightarrow> (bool \<times> wl_state) \<times> 'w" where
  "util_create_display G g w =
     (let (ok, w) = gwl_dlopen G w in
      if \<not> ok then ((False, g\<lparr>wl_lib := Lib_null\<rparr>), w) else
      let g = g\<lparr>wl_lib := Lib_open\<rparr>; (init, w) = gwl_dlsym G ''init'' w in
      if \<not> init then ((False, g\<lparr>wl_lib := Lib_closed\<rparr>), gwl_dlclose G w) else
      let (obj, w) = gwl_construct G w; g = g\<lparr>wl_gwl := obj\<rparr> in
      if \<not> obj then ((False, g\<lparr>wl_lib := Lib_closed\<rparr>), gwl_dlclose G w) else
      let (r, w) = gwl_init G w in
      if \<not> r then ((False, g\<lparr>wl_lib := Lib_closed\<rparr>), gwl_dlclose G w) else
      let w = gwl_add_reg G w; w = gwl_dispatch_pending G w in
      ((True, g\<lparr>wl_stage := True\<rparr>), w))"

definition util_destroy_display :: "'w gwl_api \<Rightarrow> wl_state \<Rightarrow> 'w \<Rightarrow> (wl_state \<times> 'w) outcome" where
  "util_destroy_display G g w =
     (if wl_gwl g \<and> wl_lib g \<noteq> Lib_open then Undef else
      let w = (if wl_gwl g then gwl_deinit G w else w);
          (deinit, w) = gwl_dlsym G ''deinit'' w;
          w = (if deinit then gwl_destruct G (wl_gwl g) w else w) in
      Ret (g\<lparr>wl_lib := Lib_closed\<rparr>, gwl_dlclose G w))"

definition util_set_content_protection ::
  "'w gwl_api \<Rightarrow> wl_state \<Rightarrow> u32 \<Rightarrow> u8 \<Rightarrow> 'w \<Rightarrow> bool \<times> 'w" where
  "util_set_content_protection G g crtc cp w =
     (if \<not> wl_stage g then (False, w) else
      if \<not> wl_gwl g then (False, w) else
      let (retval, w) = gwl_set_content_protection G crtc cp w in
      if \<not> retval then (retval, w) else (True, w))"

section \<open>Properties\<close>

text \<open>The daemon destroys the display at its end whether or not creating it succeeded. When the
  compositor's object was made but its initialisation failed, creating unloads the library and leaves
  the object pointer set, so destroying calls into the unloaded library; in every other case it does
  not.\<close>

theorem display_destroy_after_create:
  assumes "util_create_display G wl_start w = ((r, g), w1)"
  shows "util_destroy_display G g w2 = Undef \<longleftrightarrow> \<not> r \<and> wl_gwl g"
  using assms
  by (auto simp: util_create_display_def util_destroy_display_def wl_start_def Let_def
      split: prod.splits if_splits)

theorem display_destroy_after_create_witness:
  "util_destroy_display (idle_gwl\<lparr>gwl_dlopen := Pair True, gwl_dlsym := (\<lambda>s. Pair True),
     gwl_construct := Pair True\<rparr>) \<lparr>wl_stage = False, wl_gwl = True, wl_lib = Lib_closed\<rparr> () = Undef"
proof -
  let ?G = "idle_gwl\<lparr>gwl_dlopen := Pair True, gwl_dlsym := (\<lambda>s. Pair True),
     gwl_construct := Pair True\<rparr> :: unit gwl_api"
  have "util_create_display ?G wl_start () =
      ((False, \<lparr>wl_stage = False, wl_gwl = True, wl_lib = Lib_closed\<rparr>), ())"
    by (simp add: util_create_display_def wl_start_def idle_simps)
  from display_destroy_after_create [OF this, of "()"] show ?thesis by simp
qed

end
