(* ===== verification/PortManager.thy ===== *)
theory PortManager
  imports Port CallBack DisplayWindow
begin

text \<open>
  The connectors of the graphics device and their content protection: the class \<^verbatim>\<open>PortManager\<close> and
  the functions of \<^verbatim>\<open>src/daemon/portmanager.{h,cpp}\<close> that wrap it. A \<^verbatim>\<open>DrmObject *\<close> is the position
  of the object in \<^verbatim>\<open>m_DrmObjects\<close>. libdrm, the system and the compositor are the parameters \<open>D\<close>,
  \<open>os\<close> and \<open>G\<close>; \<open>wl\<close> is the state of the compositor connection. The Android variant is not modelled.
\<close>

section \<open>The state\<close>

abbreviation (input) CP_VALUE_INVALID :: u8 where "CP_VALUE_INVALID \<equiv> 255"
abbreviation (input) CP_OFF :: u8 where "CP_OFF \<equiv> 0"
abbreviation (input) CP_DESIRED :: u8 where "CP_DESIRED \<equiv> 1"
abbreviation (input) CP_ENABLED :: u8 where "CP_ENABLED \<equiv> 2"
abbreviation (input) CP_TYPE_INVALID :: u8 where "CP_TYPE_INVALID \<equiv> 255"
abbreviation (input) CP_TYPE_0 :: u8 where "CP_TYPE_0 \<equiv> 0"
abbreviation (input) CP_TYPE_1 :: u8 where "CP_TYPE_1 \<equiv> 1"
abbreviation (input) AUTH_NUM_RETRY :: nat where "AUTH_NUM_RETRY \<equiv> 3"
abbreviation (input) AUTH_CHECK_DELAY_MS :: nat where "AUTH_CHECK_DELAY_MS \<equiv> 1000"

definition CONTENT_PROTECTION :: string where "CONTENT_PROTECTION = ''Content Protection''"
definition CP_CONTENT_TYPE :: string where "CP_CONTENT_TYPE = ''HDCP Content Type''"
definition CP_DOWNSTREAM_INFO :: string where "CP_DOWNSTREAM_INFO = ''CP_Downstream_Info''"
definition DISPLAY_SRM_STORAGE_FILE :: string where
  "DISPLAY_SRM_STORAGE_FILE = ''/lib/firmware/display_hdcp_srm.bin''"

record PortManager =
  pm_IsValid :: bool
  m_DrmFd :: int
  m_DrmObjects :: "DrmObject list"

fun find_by :: "(DrmObject \<Rightarrow> bool) \<Rightarrow> DrmObject list \<Rightarrow> nat option" where
  "find_by p [] = None"
| "find_by p (ob # obs) = (if p ob then Some 0 else map_option Suc (find_by p obs))"

definition GetDrmObjectByPortId :: "PortManager \<Rightarrow> u32 \<Rightarrow> nat option" where
  "GetDrmObjectByPortId pm pid = find_by (\<lambda>ob. m_PortId ob = pid) (m_DrmObjects pm)"

definition GetDrmObjectByDrmId :: "PortManager \<Rightarrow> u32 \<Rightarrow> nat option" where
  "GetDrmObjectByDrmId pm drmId = find_by (\<lambda>ob. m_DrmId ob = drmId) (m_DrmObjects pm)"

definition obj :: "PortManager \<Rightarrow> nat \<Rightarrow> DrmObject" where
  "obj pm i = m_DrmObjects pm ! i"

definition set_obj :: "nat \<Rightarrow> DrmObject \<Rightarrow> PortManager \<Rightarrow> PortManager" where
  "set_obj i ob pm = pm\<lparr>m_DrmObjects := (m_DrmObjects pm)[i := ob]\<rparr>"

section \<open>Reading and setting the properties of a connector\<close>

fun set_property_loop ::
  "'w drm_api \<Rightarrow> int \<Rightarrow> u32 \<Rightarrow> u32 \<Rightarrow> u64 \<Rightarrow> nat \<Rightarrow> int \<Rightarrow> 'w \<Rightarrow> int \<times> 'w" where
  "set_property_loop D fd drmId propId val 0 r w = (r, w)"
| "set_property_loop D fd drmId propId val (Suc n) r w =
     (let (r, w) = drmModeConnectorSetProperty D fd drmId propId val w in
      if r = SUCCESS then (r, w) else set_property_loop D fd drmId propId val n r w)"

definition SetPortProperty ::
  "'w os_api \<Rightarrow> 'w drm_api \<Rightarrow> 'w gwl_api \<Rightarrow> wl_state \<Rightarrow> PortManager \<Rightarrow> u32 \<Rightarrow> u32 \<Rightarrow> u8 list \<Rightarrow> nat \<Rightarrow>
     'w \<Rightarrow> (int \<times> 'w) outcome" where
  "SetPortProperty os D G wl pm drmId propId val numRetry w =
     (case GetDrmObjectByDrmId pm drmId of None \<Rightarrow> Ret (ENOENT, w) | Some i \<Rightarrow>
      if os_getenv os ''XDG_RUNTIME_DIR'' w = None then
        let (r, w) = drmSetMaster D (m_DrmFd pm) w in
        if r < 0 then Ret (EBUSY, w) else
        let ((r, propValue), w) =
          (if length val \<noteq> 1 then drmModeCreatePropertyBlob D (m_DrmFd pm) val w
           else ((SUCCESS, ucast (val ! 0)), w)) in
        if r \<noteq> SUCCESS then Ret (EBUSY, w) else
        let (r, w) = set_property_loop D (m_DrmFd pm) (m_DrmId (obj pm i)) propId (ucast propValue)
              numRetry (if length val \<noteq> 1 then r else EINVAL) w in
        if r \<noteq> SUCCESS then Ret (EBUSY, w) else
        let (r, w) = drmDropMaster D (m_DrmFd pm) w in
        if r < 0 then Ret (EBUSY, w) else Ret (SUCCESS, w)
      else
        ubind (rd val 0) (\<lambda>v.
        let (retval, w) = util_set_content_protection G wl drmId v w in
        if \<not> retval then Ret (-1, w) else Ret (SUCCESS, w)))"

text \<open>\<open>read_protection\<close> is the loop over the properties; a value is converted to 8 bits.\<close>

fun read_protection :: "DrmObject \<Rightarrow> (u32 \<times> u64) list \<Rightarrow> u8 \<Rightarrow> u8 \<Rightarrow> u8 \<times> u8" where
  "read_protection ob [] cpValue cpType = (cpValue, cpType)"
| "read_protection ob ((p, v) # ps) cpValue cpType =
     (if p = GetPropertyId CONTENT_PROTECTION ob then read_protection ob ps (ucast v) cpType
      else if p = GetPropertyId CP_CONTENT_TYPE ob then read_protection ob ps cpValue (ucast v)
      else read_protection ob ps cpValue cpType)"

definition GetProtectionInfo ::
  "'w drm_api \<Rightarrow> PortManager \<Rightarrow> DrmObject \<Rightarrow> 'w \<Rightarrow> (int \<times> u8 \<times> u8) \<times> 'w" where
  "GetProtectionInfo D pm ob w =
     (let (props, w) = drmModeObjectGetProperties D (m_DrmFd pm) (m_DrmId ob) w in
      case props of
        None \<Rightarrow> ((EBUSY, CP_VALUE_INVALID, CP_TYPE_INVALID), w)
      | Some ps \<Rightarrow>
          let (cpValue, cpType) = read_protection ob ps CP_VALUE_INVALID CP_TYPE_INVALID in
          ((SUCCESS, cpValue,
            if cpValue = CP_ENABLED \<and> cpType = CP_TYPE_INVALID then CP_TYPE_0 else cpType), w))"

section \<open>Construction\<close>

fun init_props ::
  "'w os_api \<Rightarrow> 'w drm_api \<Rightarrow> PortManager \<Rightarrow> u32 \<Rightarrow> (u32 \<times> u64) list \<Rightarrow> u32 \<Rightarrow> 'w \<Rightarrow>
     ((PortManager \<times> u32) \<times> 'w) outcome" where
  "init_props os D pm conn [] portIdx w = Ret ((pm, portIdx), w)"
| "init_props os D pm conn ((p, v) # ps) portIdx w =
     (let (property, w) = drmModeGetProperty D (m_DrmFd pm) p w in
      case property of None \<Rightarrow> init_props os D pm conn ps portIdx w | Some pname \<Rightarrow>
      if pname = CONTENT_PROTECTION \<or> pname = CP_CONTENT_TYPE \<or> pname = CP_DOWNSTREAM_INFO
      then
        (case GetDrmObjectByDrmId pm conn of
           Some i \<Rightarrow>
             init_props os D (set_obj i (AddDrmProperty pname p (ucast v) (obj pm i)) pm)
               conn ps portIdx w
         | None \<Rightarrow>
             let (ok, w) = os_new os 1 w in
             if \<not> ok then Undef
             else init_props os D (pm\<lparr>m_DrmObjects := m_DrmObjects pm @
               [AddDrmProperty pname p (ucast v) (DrmObject_new conn portIdx)]\<rparr>)
               conn ps (portIdx + 1) w)
      else init_props os D pm conn ps portIdx w)"

fun init_connectors ::
  "'w os_api \<Rightarrow> 'w drm_api \<Rightarrow> PortManager \<Rightarrow> u32 list \<Rightarrow> u32 \<Rightarrow> 'w \<Rightarrow> (PortManager \<times> 'w) outcome" where
  "init_connectors os D pm [] portIdx w = Ret (pm, w)"
| "init_connectors os D pm (c # cs) portIdx w =
     (let (props, w) = drmModeObjectGetProperties D (m_DrmFd pm) c w in
      case props of None \<Rightarrow> init_connectors os D pm cs portIdx w | Some ps \<Rightarrow>
      ubind (init_props os D pm c ps portIdx w) (\<lambda>((pm, portIdx), w).
      init_connectors os D pm cs portIdx w))"

definition InitDrmObjects ::
  "'w os_api \<Rightarrow> 'w drm_api \<Rightarrow> PortManager \<Rightarrow> 'w \<Rightarrow> ((int \<times> PortManager) \<times> 'w) outcome" where
  "InitDrmObjects os D pm w =
     (let (res, w) = drmModeGetResources D (m_DrmFd pm) w in
      case res of None \<Rightarrow> Ret ((EBUSY, pm), w) | Some connectors \<Rightarrow>
      ubind (init_connectors os D pm connectors 0 w) (\<lambda>(pm, w). Ret ((SUCCESS, pm), w)))"

text \<open>The two threads of the constructor: whether each of the two global handles names one.\<close>

record pm_threads =
  th_integrity :: bool
  th_uevent :: bool

definition PortManager_new ::
  "'w os_api \<Rightarrow> 'w drm_api \<Rightarrow> 'w \<Rightarrow> ((PortManager \<times> pm_threads) \<times> 'w) outcome" where
  "PortManager_new os D w =
     (let (fd, w) = drmOpen D ''i915'' w;
          pm = \<lparr>pm_IsValid = False, m_DrmFd = fd, m_DrmObjects = []\<rparr>;
          th = \<lparr>th_integrity = False, th_uevent = False\<rparr> in
      if fd < 0 then Ret ((pm, th), w) else
      ubind (InitDrmObjects os D pm w) (\<lambda>((sts, pm), w).
      if sts \<noteq> SUCCESS then Ret ((pm, th), w) else
      let (r, w) = os_barrier_init os 3 w in
      if r \<noteq> SUCCESS then Ret ((pm, th), w) else
      let (r, w) = os_thread_create os ''InitPeriodicIntegrityCheck'' w in
      if r \<noteq> SUCCESS then Ret ((pm, th), w) else
      let th = th\<lparr>th_integrity := True\<rparr>; (r, w) = os_thread_create os ''InitUEventHandler'' w in
      if r \<noteq> SUCCESS then Ret ((pm, th), w) else
      Ret ((pm\<lparr>pm_IsValid := True\<rparr>, th\<lparr>th_uevent := True\<rparr>), w)))"

text \<open>
  The destructor joins both threads. Joining a handle that names no thread is undefined; a thread
  that was created while the other was not waits for three parties at the barrier for ever. With both
  threads the definition ends before the join of the event thread (line 562): whether and when that
  thread ends is not a matter of the destructor's own state. \<open>PortManagerRelease\<close> adds the wait to it, and
  \<open>delete_step\<close> has both joins as steps of their own.
\<close>

definition PortManager_delete ::
  "'w os_api \<Rightarrow> PortManager \<Rightarrow> pm_threads \<Rightarrow> 'w \<Rightarrow> 'w outcome option" where
  "PortManager_delete os pm th w =
     (let w = (if m_DrmFd pm < 0 then w else snd (os_close os (m_DrmFd pm) w)) in
      if \<not> th_integrity th then Some Undef
      else if \<not> th_uevent th then None
      else ret (os_sleep_ms os 20 (os_sleep_ms os 20 w)))"

definition PortManagerInit ::
  "'w os_api \<Rightarrow> 'w drm_api \<Rightarrow> PortManager option \<Rightarrow> 'w \<Rightarrow>
     ((int \<times> PortManager option) \<times> 'w) outcome option" where
  "PortManagerInit os D g w =
     (if g \<noteq> None then ret ((EEXIST, g), w) else
      let (ok, w) = os_new os 1 w in
      if \<not> ok then ret ((ENOMEM, None), w) else
      obind (Some (PortManager_new os D w)) (\<lambda>((pm, th), w).
      if \<not> pm_IsValid pm
      then obind (PortManager_delete os pm th w) (\<lambda>w. ret ((ENODEV, None), w))
      else ret ((SUCCESS, Some pm), w)))"

section \<open>Operations on one port\<close>

definition EnablePort ::
  "'w os_api \<Rightarrow> 'w drm_api \<Rightarrow> 'w gwl_api \<Rightarrow> wl_state \<Rightarrow> PortManager \<Rightarrow> u32 \<Rightarrow> u32 \<Rightarrow> u8 \<Rightarrow> 'w \<Rightarrow>
     ((int \<times> PortManager) \<times> 'w) outcome option" where
  "EnablePort os D G wl pm portId appId level w =
     (case GetDrmObjectByPortId pm portId of None \<Rightarrow> ret ((ENOENT, pm), w) | Some i \<Rightarrow>
      let ob = obj pm i in
      if m_Connection ob = DRM_MODE_DISCONNECTED then ret ((ENOENT, pm), w) else
      let type1Capable = (GetPropertyId CP_CONTENT_TYPE ob \<noteq> UINT32_MAX) in
      if \<not> type1Capable \<and> level = HDCP_LEVEL2 then ret ((EINVAL, pm), w) else
      let currCpType = GetCpType ob in
      if currCpType \<noteq> CP_TYPE_INVALID \<and> (ucast level :: u32) - 1 \<le> ucast currCpType
      then ret ((SUCCESS, set_obj i (AddRefAppId appId ob) pm), w) else
      let cpType = (if level = HDCP_LEVEL1 then CP_TYPE_0 else if level = HDCP_LEVEL2 then CP_TYPE_1
            else CP_VALUE_INVALID) in
      obind (if type1Capable
             then Some (SetPortProperty os D G wl pm (m_DrmId ob) (GetPropertyId CP_CONTENT_TYPE ob)
               [cpType] AUTH_NUM_RETRY w)
             else ret (SUCCESS, w)) (\<lambda>(sts, w).
      if sts \<noteq> SUCCESS then ret ((EBUSY, pm), w) else
      obind (Some (SetPortProperty os D G wl pm (m_DrmId ob) (GetPropertyId CONTENT_PROTECTION ob)
               [CP_DESIRED] AUTH_NUM_RETRY w)) (\<lambda>(sts, w).
      if sts \<noteq> SUCCESS then ret ((EBUSY, pm), w) else
      let w = os_sleep_ms os AUTH_CHECK_DELAY_MS w in
      obind (CpTypeAtomicBegin ob) (\<lambda>ob.
      let ((sts, cpValue, cpType), w) = GetProtectionInfo D pm ob w in
      if sts \<noteq> SUCCESS \<or> cpValue \<noteq> CP_ENABLED
      then obind (CpTypeAtomicEnd ob) (\<lambda>ob. ret ((EBUSY, set_obj i ob pm), w)) else
      let ob = AddRefAppId appId (SetCpType cpType ob) in
      obind (CpTypeAtomicEnd ob) (\<lambda>ob. ret ((SUCCESS, set_obj i ob pm), w))))))"

definition DisablePort ::
  "'w os_api \<Rightarrow> 'w drm_api \<Rightarrow> 'w gwl_api \<Rightarrow> wl_state \<Rightarrow> PortManager \<Rightarrow> u32 \<Rightarrow> u32 \<Rightarrow> 'w \<Rightarrow>
     ((int \<times> PortManager) \<times> 'w) outcome option" where
  "DisablePort os D G wl pm portId appId w =
     (case GetDrmObjectByPortId pm portId of None \<Rightarrow> ret ((SUCCESS, pm), w) | Some i \<Rightarrow>
      let ob = obj pm i in
      if m_Connection ob = DRM_MODE_DISCONNECTED then ret ((SUCCESS, pm), w) else
      let ob = RemoveRefAppId appId ob; pm = set_obj i ob pm in
      if 1 \<le> GetRefAppCount ob then ret ((SUCCESS, pm), w) else
      obind (Some (SetPortProperty os D G wl pm (m_DrmId ob) (GetPropertyId CONTENT_PROTECTION ob)
               [CP_OFF] 1 w)) (\<lambda>(sts, w).
      if sts \<noteq> SUCCESS then ret ((EBUSY, pm), w) else
      obind (CpTypeAtomicBegin ob) (\<lambda>ob.
      let ((sts, cpValue, cpType), w) = GetProtectionInfo D pm ob w in
      if sts \<noteq> SUCCESS \<or> cpValue \<noteq> CP_OFF
      then obind (CpTypeAtomicEnd ob) (\<lambda>ob. ret ((EBUSY, set_obj i ob pm), w)) else
      obind (CpTypeAtomicEnd (SetCpType CP_TYPE_INVALID ob)) (\<lambda>ob.
      ret ((SUCCESS, set_obj i ob pm), w)))))"

text \<open>\<^verbatim>\<open>GetStatus\<close> returns a status and the port's status word, which it may leave as it is.\<close>

definition PM_GetStatus ::
  "'w drm_api \<Rightarrow> PortManager \<Rightarrow> u32 \<Rightarrow> u32 \<Rightarrow> 'w \<Rightarrow> (int \<times> u32) \<times> 'w" where
  "PM_GetStatus D pm portId portStatus w =
     (case GetDrmObjectByPortId pm portId of None \<Rightarrow> ((ENOENT, portStatus), w) | Some i \<Rightarrow>
      let (connector, w) = drmModeGetConnector D (m_DrmFd pm) (m_DrmId (obj pm i)) w in
      case connector of None \<Rightarrow> ((ENOENT, portStatus), w) | Some connection \<Rightarrow>
      if connection = DRM_MODE_DISCONNECTED then ((SUCCESS, PORT_STATUS_DISCONNECTED), w) else
      let ((sts, cpValue, cpType), w) = GetProtectionInfo D pm (obj pm i) w in
      if sts \<noteq> SUCCESS then ((EBUSY, PORT_STATUS_CONNECTED), w) else
      ((SUCCESS,
        if cpValue = CP_ENABLED
        then if cpType = CP_TYPE_0 then PORT_STATUS_CONNECTED OR PORT_STATUS_HDCP_TYPE0_ENABLED
             else if cpType = CP_TYPE_1 then PORT_STATUS_CONNECTED OR PORT_STATUS_HDCP_TYPE1_ENABLED
             else PORT_STATUS_CONNECTED
        else PORT_STATUS_CONNECTED), w))"


section \<open>The topology behind a port\<close>

text \<open>
  \<^verbatim>\<open>DownstreamInfo\<close> is filled from a property blob of the kernel; its 652 bytes are laid out with
  natural alignment: the sink's KSV at 5, the depth at 11, the device count at 12 and the 635 bytes of
  the KSV list at 16.
\<close>

record DownstreamInfo =
  ds_bksv :: "u8 list"
  ds_depth :: u8
  ds_deviceCount :: u32
  ds_ksvList :: "u8 list"

abbreviation (input) sizeof_DownstreamInfo :: nat where "sizeof_DownstreamInfo \<equiv> 652"

definition decode_downstream :: "u8 list \<Rightarrow> DownstreamInfo" where
  "decode_downstream bs = \<lparr>ds_bksv = chunk 5 KSV_SIZE bs, ds_depth = bs ! 11,
     ds_deviceCount = un32 (chunk 12 4 bs), ds_ksvList = chunk 16 (KSV_SIZE * MAX_KSV_COUNT) bs\<rparr>"

fun find_blob :: "DrmObject \<Rightarrow> (u32 \<times> u64) list \<Rightarrow> u32 \<Rightarrow> u32" where
  "find_blob ob [] blobId = blobId"
| "find_blob ob ((p, v) # ps) blobId =
     find_blob ob ps (if p = GetPropertyId CP_DOWNSTREAM_INFO ob then ucast v else blobId)"

definition GetDownstreamInfo ::
  "'w drm_api \<Rightarrow> PortManager \<Rightarrow> nat option \<Rightarrow> 'w \<Rightarrow> ((int \<times> u8 list option) \<times> 'w) outcome" where
  "GetDownstreamInfo D pm i w =
     (case i of None \<Rightarrow> Ret ((EINVAL, None), w) | Some i \<Rightarrow>
      let (props, w) = drmModeObjectGetProperties D (m_DrmFd pm) (m_DrmId (obj pm i)) w in
      case props of None \<Rightarrow> Ret ((EBUSY, None), w) | Some ps \<Rightarrow>
      let (blobInfo, w) =
        drmModeGetPropertyBlob D (m_DrmFd pm) (find_blob (obj pm i) ps UINT32_MAX) w in
      case blobInfo of Some (Some data) \<Rightarrow>
          ubind (rd_range data 0 sizeof_DownstreamInfo) (\<lambda>bs. Ret ((SUCCESS, Some bs), w))
      | _ \<Rightarrow> Ret ((EBUSY, None), w))"

text \<open>
  \<^verbatim>\<open>GetKsvList\<close> returns a status, the KSV count, the depth and the caller's buffer. The count is one
  more than the number of devices, converted to 8 bits, and as many KSVs are copied behind the sink's.
\<close>

definition PM_GetKsvList ::
  "'w drm_api \<Rightarrow> PortManager \<Rightarrow> u32 \<Rightarrow> u8 \<Rightarrow> u8 \<Rightarrow> u8 list \<Rightarrow> 'w \<Rightarrow>
     ((int \<times> u8 \<times> u8 \<times> u8 list) \<times> 'w) outcome" where
  "PM_GetKsvList D pm portId ksvCount depth ksvList w =
     ubind (GetDownstreamInfo D pm (GetDrmObjectByPortId pm portId) w) (\<lambda>((sts, info), w).
     if sts \<noteq> SUCCESS then Ret ((EBUSY, ksvCount, depth, ksvList), w) else
     let dsInfo = decode_downstream (the info);
         depth = ds_depth dsInfo + 1; ksvCount = ucast (ds_deviceCount dsInfo + 1) in
     ubind (wr_range ksvList 0 (ds_bksv dsInfo)) (\<lambda>ksvList.
     ubind (rd_range (ds_ksvList dsInfo) 0 (unat ksvCount * KSV_SIZE)) (\<lambda>ksvs.
     ubind (wr_range ksvList KSV_SIZE ksvs) (\<lambda>ksvList.
     Ret ((SUCCESS, ksvCount, depth, ksvList), w)))))"

section \<open>The SRM file of the display firmware\<close>

text \<open>
  The \<^verbatim>\<open>do\<close> loop of \<^verbatim>\<open>SendSRMData\<close>; it gives the number of bytes written. A \<^verbatim>\<open>continue\<close> goes to the
  loop's condition. After a \<^verbatim>\<open>write\<close> that returned 0, \<^verbatim>\<open>errno\<close> is what an earlier call left.
\<close>

partial_function (option) srm_write_loop ::
  "'w os_api \<Rightarrow> int \<Rightarrow> u8 list \<Rightarrow> nat \<Rightarrow> 'w \<Rightarrow> (nat \<times> 'w) outcome option" where
  "srm_write_loop os fd data written w =
     (let (r, w) = os_write os fd (drop written data) w;
          n = (case r of Inl _ \<Rightarrow> 0 | Inr n \<Rightarrow> n);
          e = (case r of Inl e \<Rightarrow> e | Inr _ \<Rightarrow> os_errno os w) in
      if n = 0 \<and> \<not> (e = EINTR \<or> e = EAGAIN) then ret (written, w)
      else if written + n = length data then ret (written + n, w)
      else srm_write_loop os fd data (written + n) w)"

definition PM_SendSRMData ::
  "'w os_api \<Rightarrow> u8 list \<Rightarrow> 'w \<Rightarrow> (int \<times> 'w) outcome option" where
  "PM_SendSRMData os data w =
     (let (r, w) = os_open os DISPLAY_SRM_STORAGE_FILE [O_WRONLY, O_CREAT] w in
      case r of Inl e \<Rightarrow> ret (- e, w) | Inr fd \<Rightarrow>
      obind (srm_write_loop os fd data 0 w) (\<lambda>(written, w).
      let (_, w) = os_close os fd w in
      ret (if written \<noteq> length data then - EIO else SUCCESS, w)))"

declare srm_write_loop.simps [code]

section \<open>Operations on all ports\<close>

text \<open>
  \<^verbatim>\<open>EnumeratePorts\<close> writes the connected ports to the five entries of \<^verbatim>\<open>portList\<close>; \<open>upd_range\<close> is an
  assignment to one of them.
\<close>

definition upd_range :: "nat \<Rightarrow> ('a \<Rightarrow> 'a) \<Rightarrow> 'a list \<Rightarrow> 'a list outcome" where
  "upd_range i f xs = (if i < length xs then Ret (xs[i := f (xs ! i)]) else Undef)"

fun enumerate_loop ::
  "'w drm_api \<Rightarrow> int \<Rightarrow> DrmObject list \<Rightarrow> Port list \<Rightarrow> u32 \<Rightarrow> 'w \<Rightarrow>
     ((int \<times> DrmObject list \<times> Port list \<times> u32) \<times> 'w) outcome option" where
  "enumerate_loop D fd [] portList portCount w = ret ((SUCCESS, [], portList, portCount), w)"
| "enumerate_loop D fd (ob # obs) portList portCount w =
     obind (ConnAtomicBegin ob) (\<lambda>ob.
     let (connector, w) = drmModeGetConnector D fd (m_DrmId ob) w in
     case connector of
       None \<Rightarrow> obind (ConnAtomicEnd ob) (\<lambda>ob. ret ((ENOENT, ob # obs, portList, portCount), w))
     | Some connection \<Rightarrow>
         obind (if connection = DRM_MODE_CONNECTED
                then obind (Some (upd_range (unat portCount)
                  (\<lambda>p. p\<lparr>Port_Id := m_PortId ob, Port_status := PORT_STATUS_CONNECTED\<rparr>) portList))
                  (\<lambda>portList. ret (portList, portCount + 1))
                else ret (portList, portCount)) (\<lambda>(portList, portCount).
         obind (ConnAtomicEnd (SetConnection connection ob)) (\<lambda>ob.
         obind (enumerate_loop D fd obs portList portCount w) (\<lambda>((sts, obs, portList, portCount), w).
         ret ((sts, ob # obs, portList, portCount), w)))))"

definition PM_EnumeratePorts ::
  "'w drm_api \<Rightarrow> PortManager \<Rightarrow> Port list \<Rightarrow> 'w \<Rightarrow>
     ((int \<times> PortManager \<times> Port list \<times> u32) \<times> 'w) outcome option" where
  "PM_EnumeratePorts D pm portList w =
     (let portList = map (\<lambda>p. p\<lparr>Port_Id := 0, Port_status := PORT_STATUS_DISCONNECTED\<rparr>) portList in
      if \<not> pm_IsValid pm then ret ((ENODEV, pm, portList, 0), w) else
      obind (enumerate_loop D (m_DrmFd pm) (m_DrmObjects pm) portList 0 w)
        (\<lambda>((sts, obs, portList, portCount), w).
      ret ((sts, pm\<lparr>m_DrmObjects := obs\<rparr>, portList, portCount), w)))"

text \<open>The loops over \<^verbatim>\<open>m_DrmObjects\<close> that call \<^verbatim>\<open>DisablePort\<close>, over positions.\<close>

fun remove_app_loop ::
  "'w os_api \<Rightarrow> 'w drm_api \<Rightarrow> 'w gwl_api \<Rightarrow> wl_state \<Rightarrow> u32 \<Rightarrow> nat list \<Rightarrow> PortManager \<Rightarrow> 'w \<Rightarrow>
     (PortManager \<times> 'w) outcome option" where
  "remove_app_loop os D G wl appId [] pm w = ret (pm, w)"
| "remove_app_loop os D G wl appId (i # is) pm w =
     obind (DisablePort os D G wl pm (m_PortId (obj pm i)) appId w) (\<lambda>((_, pm), w).
     remove_app_loop os D G wl appId is pm w)"

definition RemoveAppFromPorts ::
  "'w os_api \<Rightarrow> 'w drm_api \<Rightarrow> 'w gwl_api \<Rightarrow> wl_state \<Rightarrow> PortManager \<Rightarrow> u32 \<Rightarrow> 'w \<Rightarrow>
     (PortManager \<times> 'w) outcome option" where
  "RemoveAppFromPorts os D G wl pm appId w =
     remove_app_loop os D G wl appId [0..<length (m_DrmObjects pm)] pm w"

fun disable_all_loop ::
  "'w os_api \<Rightarrow> 'w drm_api \<Rightarrow> 'w gwl_api \<Rightarrow> wl_state \<Rightarrow> nat list \<Rightarrow> PortManager \<Rightarrow> 'w \<Rightarrow>
     (PortManager \<times> 'w) outcome option" where
  "disable_all_loop os D G wl [] pm w = ret (pm, w)"
| "disable_all_loop os D G wl (i # is) pm w =
     (let pm = set_obj i (AddRefAppId 0 (ClearRefAppId (obj pm i))) pm in
      obind (DisablePort os D G wl pm (m_PortId (obj pm i)) 0 w) (\<lambda>((_, pm), w).
      disable_all_loop os D G wl is pm w))"

definition DisableAllPorts ::
  "'w os_api \<Rightarrow> 'w drm_api \<Rightarrow> 'w gwl_api \<Rightarrow> wl_state \<Rightarrow> PortManager \<Rightarrow> 'w \<Rightarrow>
     (PortManager \<times> 'w) outcome option" where
  "DisableAllPorts os D G wl pm w = disable_all_loop os D G wl [0..<length (m_DrmObjects pm)] pm w"

text \<open>What the two event threads do for each connector; both hold one of its mutexes while they report.\<close>

fun hotplug_loop ::
  "'w os_api \<Rightarrow> 'w drm_api \<Rightarrow> ('w \<Rightarrow> SocketData) \<Rightarrow> int \<Rightarrow> DrmObject list \<Rightarrow> CallBacks \<Rightarrow> 'w \<Rightarrow>
     ((DrmObject list \<times> CallBacks) \<times> 'w) outcome option" where
  "hotplug_loop os D mem fd [] cb w = ret (([], cb), w)"
| "hotplug_loop os D mem fd (ob # obs) cb w =
     obind (ConnAtomicBegin ob) (\<lambda>ob.
     let (connector, w) = drmModeGetConnector D fd (m_DrmId ob) w in
     obind
       (case connector of None \<Rightarrow> ret ((ob, cb), w) | Some connection \<Rightarrow>
        if connection = m_Connection ob then ret ((ob, cb), w) else
        obind (if connection = DRM_MODE_DISCONNECTED
               then ReportStatus os mem cb PORT_EVENT_PLUG_OUT (m_PortId ob) w
               else if connection = DRM_MODE_CONNECTED
               then ReportStatus os mem cb PORT_EVENT_PLUG_IN (m_PortId ob) w
               else ret (cb, w)) (\<lambda>(cb, w).
        ret ((SetConnection connection ob, cb), w))) (\<lambda>((ob, cb), w).
     obind (ConnAtomicEnd ob) (\<lambda>ob.
     obind (hotplug_loop os D mem fd obs cb w) (\<lambda>((obs, cb), w).
     ret ((ob # obs, cb), w)))))"

definition ProcessHotPlug ::
  "'w os_api \<Rightarrow> 'w drm_api \<Rightarrow> ('w \<Rightarrow> SocketData) \<Rightarrow> PortManager \<Rightarrow> CallBacks \<Rightarrow> 'w \<Rightarrow>
     ((PortManager \<times> CallBacks) \<times> 'w) outcome option" where
  "ProcessHotPlug os D mem pm cb w =
     obind (hotplug_loop os D mem (m_DrmFd pm) (m_DrmObjects pm) cb w) (\<lambda>((obs, cb), w).
     ret ((pm\<lparr>m_DrmObjects := obs\<rparr>, cb), w))"

fun integrity_loop ::
  "'w os_api \<Rightarrow> 'w drm_api \<Rightarrow> ('w \<Rightarrow> SocketData) \<Rightarrow> PortManager \<Rightarrow> DrmObject list \<Rightarrow> CallBacks \<Rightarrow> 'w \<Rightarrow>
     ((DrmObject list \<times> CallBacks) \<times> 'w) outcome option" where
  "integrity_loop os D mem pm [] cb w = ret (([], cb), w)"
| "integrity_loop os D mem pm (ob # obs) cb w =
     obind (CpTypeAtomicBegin ob) (\<lambda>ob.
     obind
       (if GetCpType ob = CP_TYPE_INVALID then ret ((ob, cb), w) else
        let ((sts, cpValue, cpType), w) = GetProtectionInfo D pm ob w in
        if sts \<noteq> SUCCESS then ret ((ob, cb), w)
        else if cpValue \<noteq> CP_ENABLED
        then obind (ReportStatus os mem cb PORT_EVENT_LINK_LOST (m_PortId ob) w) (\<lambda>(cb, w).
             ret ((SetCpType CP_TYPE_INVALID ob, cb), w))
        else ret ((ob, cb), w)) (\<lambda>((ob, cb), w).
     obind (CpTypeAtomicEnd ob) (\<lambda>ob.
     obind (integrity_loop os D mem pm obs cb w) (\<lambda>((obs, cb), w).
     ret ((ob # obs, cb), w)))))"

definition CheckIntegrity ::
  "'w os_api \<Rightarrow> 'w drm_api \<Rightarrow> ('w \<Rightarrow> SocketData) \<Rightarrow> PortManager \<Rightarrow> CallBacks \<Rightarrow> 'w \<Rightarrow>
     ((PortManager \<times> CallBacks) \<times> 'w) outcome option" where
  "CheckIntegrity os D mem pm cb w =
     obind (integrity_loop os D mem pm (m_DrmObjects pm) cb w) (\<lambda>((obs, cb), w).
     ret ((pm\<lparr>m_DrmObjects := obs\<rparr>, cb), w))"

section \<open>The functions around the global port manager\<close>

text \<open>\<^verbatim>\<open>portMgr\<close> is the argument \<open>g\<close>, \<open>None\<close> when null.\<close>

definition PortManagerProcessHotPlug ::
  "'w os_api \<Rightarrow> 'w drm_api \<Rightarrow> ('w \<Rightarrow> SocketData) \<Rightarrow> PortManager option \<Rightarrow> CallBacks \<Rightarrow> 'w \<Rightarrow>
     ((PortManager option \<times> CallBacks) \<times> 'w) outcome option" where
  "PortManagerProcessHotPlug os D mem g cb w =
     (case g of None \<Rightarrow> Some Undef | Some pm \<Rightarrow>
      obind (ProcessHotPlug os D mem pm cb w) (\<lambda>((pm, cb), w). ret ((Some pm, cb), w)))"

definition PortManagerEnumeratePorts ::
  "'w drm_api \<Rightarrow> PortManager option \<Rightarrow> Port list \<Rightarrow> u32 \<Rightarrow> 'w \<Rightarrow>
     ((int \<times> PortManager option \<times> Port list \<times> u32) \<times> 'w) outcome option" where
  "PortManagerEnumeratePorts D g portList portCount w =
     (case g of None \<Rightarrow> ret ((ENODEV, None, portList, portCount), w) | Some pm \<Rightarrow>
      obind (PM_EnumeratePorts D pm portList w) (\<lambda>((sts, pm, portList, portCount), w).
      ret ((sts, Some pm, portList, portCount), w)))"

definition PortManagerEnablePort ::
  "'w os_api \<Rightarrow> 'w drm_api \<Rightarrow> 'w gwl_api \<Rightarrow> wl_state \<Rightarrow> PortManager option \<Rightarrow> u32 \<Rightarrow> u32 \<Rightarrow> u8 \<Rightarrow> 'w \<Rightarrow>
     ((int \<times> PortManager option) \<times> 'w) outcome option" where
  "PortManagerEnablePort os D G wl g portId appId level w =
     (case g of None \<Rightarrow> ret ((ENODEV, None), w) | Some pm \<Rightarrow>
      obind (EnablePort os D G wl pm portId appId level w) (\<lambda>((sts, pm), w). ret ((sts, Some pm), w)))"

definition PortManagerDisablePort ::
  "'w os_api \<Rightarrow> 'w drm_api \<Rightarrow> 'w gwl_api \<Rightarrow> wl_state \<Rightarrow> PortManager option \<Rightarrow> u32 \<Rightarrow> u32 \<Rightarrow> 'w \<Rightarrow>
     ((int \<times> PortManager option) \<times> 'w) outcome option" where
  "PortManagerDisablePort os D G wl g portId appId w =
     (case g of None \<Rightarrow> ret ((ENODEV, None), w) | Some pm \<Rightarrow>
      obind (DisablePort os D G wl pm portId appId w) (\<lambda>((sts, pm), w). ret ((sts, Some pm), w)))"

definition PortManagerGetStatus ::
  "'w drm_api \<Rightarrow> PortManager option \<Rightarrow> u32 \<Rightarrow> u32 \<Rightarrow> 'w \<Rightarrow> (int \<times> u32) \<times> 'w" where
  "PortManagerGetStatus D g portId portStatus w =
     (case g of None \<Rightarrow> ((ENODEV, portStatus), w) | Some pm \<Rightarrow> PM_GetStatus D pm portId portStatus w)"

definition PortManagerGetKsvList ::
  "'w drm_api \<Rightarrow> PortManager option \<Rightarrow> u32 \<Rightarrow> u8 \<Rightarrow> u8 \<Rightarrow> u8 list \<Rightarrow> 'w \<Rightarrow>
     ((int \<times> u8 \<times> u8 \<times> u8 list) \<times> 'w) outcome" where
  "PortManagerGetKsvList D g portId ksvCount depth ksvList w =
     (case g of None \<Rightarrow> Ret ((ENODEV, ksvCount, depth, ksvList), w)
      | Some pm \<Rightarrow> PM_GetKsvList D pm portId ksvCount depth ksvList w)"

definition PortManagerSendSRMDdata ::
  "'w os_api \<Rightarrow> PortManager option \<Rightarrow> u8 list \<Rightarrow> 'w \<Rightarrow> (int \<times> 'w) outcome option" where
  "PortManagerSendSRMDdata os g data w =
     (if g = None then ret (ENODEV, w) else PM_SendSRMData os data w)"

definition PortManagerHandleAppExit ::
  "'w os_api \<Rightarrow> 'w drm_api \<Rightarrow> 'w gwl_api \<Rightarrow> wl_state \<Rightarrow> PortManager option \<Rightarrow> u32 \<Rightarrow> 'w \<Rightarrow>
     (PortManager option \<times> 'w) outcome option" where
  "PortManagerHandleAppExit os D G wl g appId w =
     (case g of None \<Rightarrow> ret (None, w) | Some pm \<Rightarrow>
      obind (RemoveAppFromPorts os D G wl pm appId w) (\<lambda>(pm, w). ret (Some pm, w)))"

definition PortManagerDisableAllPorts ::
  "'w os_api \<Rightarrow> 'w drm_api \<Rightarrow> 'w gwl_api \<Rightarrow> wl_state \<Rightarrow> PortManager option \<Rightarrow> 'w \<Rightarrow>
     (PortManager option \<times> 'w) outcome option" where
  "PortManagerDisableAllPorts os D G wl g w =
     (case g of None \<Rightarrow> ret (None, w) | Some pm \<Rightarrow>
      obind (DisableAllPorts os D G wl pm w) (\<lambda>(pm, w). ret (Some pm, w)))"

end
