(* ===== verification/PortSafety.thy ===== *)
theory PortSafety
  imports PortManager
begin

text \<open>
  The port manager's invariant and what each of its operations does to it: port ids number the
  connectors from 0, the connectors' ids differ, no application is counted twice, and no mutex is
  held when an operation returns (\<^verbatim>\<open>src/daemon/portmanager.cpp\<close>, \<^verbatim>\<open>src/daemon/port.cpp\<close>).
\<close>

section \<open>The invariant\<close>

definition pm_inv :: "PortManager \<Rightarrow> bool" where
  "pm_inv pm \<longleftrightarrow> map m_PortId (m_DrmObjects pm) = map of_nat [0..<length (m_DrmObjects pm)] \<and>
     distinct (map m_DrmId (m_DrmObjects pm)) \<and>
     (\<forall>ob \<in> set (m_DrmObjects pm). app_ok ob \<and> unlocked ob)"

text \<open>A change of one connector that keeps its identity and leaves no mutex held.\<close>

definition touched :: "DrmObject \<Rightarrow> DrmObject \<Rightarrow> bool" where
  "touched ob ob' \<longleftrightarrow> m_PortId ob' = m_PortId ob \<and> m_DrmId ob' = m_DrmId ob \<and>
     m_PropertyList ob' = m_PropertyList ob \<and> (app_ok ob \<longrightarrow> app_ok ob') \<and>
     (unlocked ob \<longrightarrow> unlocked ob')"

lemma touched_refl [simp]: "touched ob ob"
  by (simp add: touched_def)

lemma touched_trans: "touched a b \<Longrightarrow> touched b c \<Longrightarrow> touched a c"
  by (simp add: touched_def)

definition pm_touched :: "PortManager \<Rightarrow> PortManager \<Rightarrow> bool" where
  "pm_touched pm pm' \<longleftrightarrow> pm_IsValid pm' = pm_IsValid pm \<and> m_DrmFd pm' = m_DrmFd pm \<and>
     list_all2 touched (m_DrmObjects pm) (m_DrmObjects pm')"

lemma pm_touched_refl [simp]: "pm_touched pm pm"
  by (simp add: pm_touched_def list_all2_refl)

lemma pm_touched_trans: "pm_touched a b \<Longrightarrow> pm_touched b c \<Longrightarrow> pm_touched a c"
  unfolding pm_touched_def using list_all2_trans [of touched touched touched] touched_trans by metis

lemma list_all2_touched_ids:
  "list_all2 touched obs obs' \<Longrightarrow> map m_PortId obs' = map m_PortId obs \<and>
     map m_DrmId obs' = map m_DrmId obs \<and> length obs' = length obs"
  by (induction rule: list_all2_induct) (auto simp: touched_def)

lemma pm_touched_inv: "pm_touched pm pm' \<Longrightarrow> pm_inv pm \<Longrightarrow> pm_inv pm'"
proof -
  assume t: "pm_touched pm pm'" and inv: "pm_inv pm"
  then have all: "list_all2 touched (m_DrmObjects pm) (m_DrmObjects pm')" by (simp add: pm_touched_def)
  have "app_ok ob \<and> unlocked ob" if ob: "ob \<in> set (m_DrmObjects pm')" for ob
  proof -
    from ob obtain k where "k < length (m_DrmObjects pm')" "ob = m_DrmObjects pm' ! k"
      by (auto simp: in_set_conv_nth)
    with all have "k < length (m_DrmObjects pm)" "touched (m_DrmObjects pm ! k) ob"
      by (auto simp: list_all2_conv_all_nth)
    with inv show ?thesis by (auto simp: pm_inv_def touched_def)
  qed
  with list_all2_touched_ids [OF all] inv show ?thesis by (simp add: pm_inv_def)
qed

lemma pm_touched_set: "i < length (m_DrmObjects pm) \<Longrightarrow> touched (obj pm i) ob \<Longrightarrow> pm_touched pm (set_obj i ob pm)"
  by (simp add: pm_touched_def set_obj_def obj_def list_all2_conv_all_nth nth_list_update)

lemma find_by_Some: "find_by p obs = Some i \<Longrightarrow> i < length obs \<and> p (obs ! i) \<and> (\<forall>j < i. \<not> p (obs ! j))"
proof (induction obs arbitrary: i)
  case (Cons ob obs)
  then show ?case by (cases i) (auto split: if_splits simp: less_Suc_eq_0_disj)
qed simp

lemma find_by_None: "find_by p obs = None \<longleftrightarrow> (\<forall>ob \<in> set obs. \<not> p ob)"
  by (induction obs) auto

lemma by_port_id: "GetDrmObjectByPortId pm pid = Some i \<Longrightarrow>
    i < length (m_DrmObjects pm) \<and> m_PortId (obj pm i) = pid"
  using find_by_Some by (auto simp: GetDrmObjectByPortId_def obj_def)

text \<open>The operations of a connector keep its identity.\<close>

lemma touched_ops [simp]:
  "touched ob (SetCpType t ob)" "touched ob (SetConnection c ob)"
  "touched ob (RemoveRefAppId a ob)" "touched ob (ClearRefAppId ob)"
  "app_id a \<Longrightarrow> touched ob (AddRefAppId a ob)"
proof -
  have ok: "app_ok (SetCpType t ob) = app_ok ob" "app_ok (SetConnection c ob) = app_ok ob"
    by (simp_all add: app_ok_def)
  show "touched ob (SetCpType t ob)" "touched ob (SetConnection c ob)"
    "touched ob (RemoveRefAppId a ob)" "touched ob (ClearRefAppId ob)"
    by (simp_all add: touched_def unlocked_def ok apps.remove_ok apps.clear_ok)
  show "touched ob (AddRefAppId a ob)" if "app_id a"
    using that by (simp add: touched_def unlocked_def apps.add_ok)
qed

lemma obj_set_obj [simp]: "i < length (m_DrmObjects pm) \<Longrightarrow> obj (set_obj i ob pm) i = ob"
  by (simp add: obj_def set_obj_def)

lemma set_obj_set_obj [simp]: "set_obj i a (set_obj i b pm) = set_obj i a pm"
  by (simp add: set_obj_def)

text \<open>Taking and releasing a mutex, and what does not depend on it.\<close>

lemma lock_ret [simp]:
  "CpTypeAtomicBegin ob = ret ob' \<longleftrightarrow> \<not> m_CpTypeMutex ob \<and> ob' = ob\<lparr>m_CpTypeMutex := True\<rparr>"
  "CpTypeAtomicEnd ob = ret ob' \<longleftrightarrow> m_CpTypeMutex ob \<and> ob' = ob\<lparr>m_CpTypeMutex := False\<rparr>"
  "ConnAtomicBegin ob = ret ob' \<longleftrightarrow> \<not> m_ConnectionMutex ob \<and> ob' = ob\<lparr>m_ConnectionMutex := True\<rparr>"
  "ConnAtomicEnd ob = ret ob' \<longleftrightarrow> m_ConnectionMutex ob \<and> ob' = ob\<lparr>m_ConnectionMutex := False\<rparr>"
  by (auto simp: CpTypeAtomicBegin_def CpTypeAtomicEnd_def ConnAtomicBegin_def ConnAtomicEnd_def)

lemma set_mutex_same [simp]:
  "\<not> m_CpTypeMutex ob \<Longrightarrow> ob\<lparr>m_CpTypeMutex := False\<rparr> = ob"
  "\<not> m_ConnectionMutex ob \<Longrightarrow> ob\<lparr>m_ConnectionMutex := False\<rparr> = ob"
  by simp_all

lemma mutex_commutes [simp]:
  "SetCpType t (ob\<lparr>m_CpTypeMutex := b\<rparr>) = (SetCpType t ob)\<lparr>m_CpTypeMutex := b\<rparr>"
  "AddRefAppId a (ob\<lparr>m_CpTypeMutex := b\<rparr>) = (AddRefAppId a ob)\<lparr>m_CpTypeMutex := b\<rparr>"
  "SetConnection c (ob\<lparr>m_ConnectionMutex := b\<rparr>) = (SetConnection c ob)\<lparr>m_ConnectionMutex := b\<rparr>"
  "GetPropertyId n (ob\<lparr>m_CpTypeMutex := b\<rparr>) = GetPropertyId n ob"
  "GetCpType (ob\<lparr>m_CpTypeMutex := b\<rparr>) = GetCpType ob"
  by (simp_all add: SetCpType_def AddRefAppId_def SetConnection_def GetPropertyId_def GetCpType_def)

lemma property_ids [simp]:
  "GetPropertyId n (AddRefAppId a ob) = GetPropertyId n ob"
  "GetPropertyId n (RemoveRefAppId a ob) = GetPropertyId n ob"
  "GetPropertyId n (ClearRefAppId ob) = GetPropertyId n ob"
  "GetPropertyId n (SetCpType t ob) = GetPropertyId n ob"
  "GetPropertyId n (SetConnection c ob) = GetPropertyId n ob"
  by (simp_all add: GetPropertyId_def)

lemma read_protection_cong:
  "(\<And>n. GetPropertyId n a = GetPropertyId n b) \<Longrightarrow> read_protection a ps v t = read_protection b ps v t"
  by (induction a ps v t rule: read_protection.induct) simp_all

lemma GetProtectionInfo_cong:
  "m_DrmId a = m_DrmId b \<Longrightarrow> (\<And>n. GetPropertyId n a = GetPropertyId n b) \<Longrightarrow>
     GetProtectionInfo D pm a w = GetProtectionInfo D pm b w"
  using read_protection_cong [of a b] by (simp add: GetProtectionInfo_def split: prod.split option.split)

lemma GetProtectionInfo_frame [simp]:
  "GetProtectionInfo D pm (ob\<lparr>m_CpTypeMutex := b\<rparr>) w = GetProtectionInfo D pm ob w"
  "GetProtectionInfo D pm (RemoveRefAppId a ob) w = GetProtectionInfo D pm ob w"
  "GetProtectionInfo D (set_obj i ob' pm) ob w = GetProtectionInfo D pm ob w"
proof -
  show "GetProtectionInfo D pm (ob\<lparr>m_CpTypeMutex := b\<rparr>) w = GetProtectionInfo D pm ob w"
    "GetProtectionInfo D pm (RemoveRefAppId a ob) w = GetProtectionInfo D pm ob w"
    by (rule GetProtectionInfo_cong; simp)+
  show "GetProtectionInfo D (set_obj i ob' pm) ob w = GetProtectionInfo D pm ob w"
    by (simp add: GetProtectionInfo_def set_obj_def)
qed

section \<open>Every operation keeps it\<close>

text \<open>
  What enabling does: it fails and changes nothing; or the port is protected well enough already and
  the application is counted; or the port was set up and the driver reports it enabled.
\<close>

lemma EnablePort_cases:
  assumes "EnablePort os D G wl pm portId appId level w = ret ((sts, pm'), w')"
  obtains (failed) "sts \<noteq> SUCCESS" "pm' = pm"
  | (already) i where "GetDrmObjectByPortId pm portId = Some i" "sts = SUCCESS" "w' = w"
      "GetCpType (obj pm i) \<noteq> CP_TYPE_INVALID" "(ucast level :: u32) - 1 \<le> ucast (GetCpType (obj pm i))"
      "pm' = set_obj i (AddRefAppId appId (obj pm i)) pm"
      "m_Connection (obj pm i) \<noteq> DRM_MODE_DISCONNECTED"
  | (enabled) i t w1 where "GetDrmObjectByPortId pm portId = Some i" "sts = SUCCESS"
      "GetProtectionInfo D pm (obj pm i) w1 = ((SUCCESS, CP_ENABLED, t), w')"
      "pm' = set_obj i (AddRefAppId appId (SetCpType t (obj pm i))) pm"
      "m_Connection (obj pm i) \<noteq> DRM_MODE_DISCONNECTED"
proof (cases "GetDrmObjectByPortId pm portId")
  case None
  with assms that(1) show ?thesis by (simp add: EnablePort_def)
next
  case (Some i)
  have same: "set_obj i (obj pm i) pm = pm" by (simp add: set_obj_def obj_def)
  let ?ob = "obj pm i"
  show ?thesis
  proof (cases "m_Connection ?ob = DRM_MODE_DISCONNECTED \<or>
      GetPropertyId CP_CONTENT_TYPE ?ob = UINT32_MAX \<and> level = HDCP_LEVEL2")
    case True
    with Some have "EnablePort os D G wl pm portId appId level w = ret ((ENOENT, pm), w) \<or>
        EnablePort os D G wl pm portId appId level w = ret ((EINVAL, pm), w)"
      by (cases "m_Connection ?ob = DRM_MODE_DISCONNECTED") (simp_all add: EnablePort_def Let_def)
    with assms that(1) show ?thesis by auto
  next
    case ok: False
    show ?thesis
    proof (cases "GetCpType ?ob \<noteq> CP_TYPE_INVALID \<and> (ucast level :: u32) - 1 \<le> ucast (GetCpType ?ob)")
      case True
      with Some ok have "EnablePort os D G wl pm portId appId level w =
          ret ((SUCCESS, set_obj i (AddRefAppId appId ?ob) pm), w)"
        by (simp add: EnablePort_def Let_def)
      with assms ok True that(2) [OF Some] show ?thesis by simp
    next
      case False
      with assms Some ok obtain s1 w1 s2 w2 where
        rest: "(if s1 \<noteq> SUCCESS then ret ((EBUSY, pm), w1) else
          obind (Some (SetPortProperty os D G wl pm (m_DrmId ?ob) (GetPropertyId CONTENT_PROTECTION ?ob)
               [CP_DESIRED] AUTH_NUM_RETRY w1)) (\<lambda>(sts, w).
          if sts \<noteq> SUCCESS then ret ((EBUSY, pm), w) else
          let w = os_sleep_ms os AUTH_CHECK_DELAY_MS w in
          obind (CpTypeAtomicBegin ?ob) (\<lambda>ob.
          let ((sts, cpValue, cpType), w) = GetProtectionInfo D pm ob w in
          if sts \<noteq> SUCCESS \<or> cpValue \<noteq> CP_ENABLED
          then obind (CpTypeAtomicEnd ob) (\<lambda>ob. ret ((EBUSY, set_obj i ob pm), w)) else
          let ob = AddRefAppId appId (SetCpType cpType ob) in
          obind (CpTypeAtomicEnd ob) (\<lambda>ob. ret ((SUCCESS, set_obj i ob pm), w))))) =
          ret ((sts, pm'), w')"
        unfolding EnablePort_def Let_def by (auto elim!: hdcp_elims)
      show ?thesis
      proof (cases "sts = SUCCESS")
        case False
        with rest same that(1) show ?thesis
          by (auto elim!: hdcp_elims simp: Let_def split: if_splits prod.splits)
      next
        case True
        with rest that(3) [OF Some True] ok show ?thesis
          by (auto elim!: hdcp_elims simp: Let_def split: if_splits prod.splits)
      qed
    qed
  qed
qed

lemma EnablePort_touched:
  assumes "EnablePort os D G wl pm portId appId level w = ret ((sts, pm'), w')" "app_id appId"
  shows "pm_touched pm pm'"
  using assms(1)
proof (cases rule: EnablePort_cases)
  case (already i)
  with by_port_id [of pm portId i] assms(2) show ?thesis by (simp add: pm_touched_set)
next
  case (enabled i t w1)
  have "touched (obj pm i) (AddRefAppId appId (SetCpType t (obj pm i)))"
    using touched_trans [OF touched_ops(1) touched_ops(5) [OF assms(2)]] .
  with enabled by_port_id [of pm portId i] show ?thesis by (simp add: pm_touched_set)
qed simp

text \<open>
  What disabling does: nothing for a port that is unknown or not connected; otherwise the application
  is no longer counted, and if it was the last one the driver has to report the port off.
\<close>

lemma DisablePort_cases:
  assumes "DisablePort os D G wl pm portId appId w = ret ((sts, pm'), w')"
  obtains (absent) "GetDrmObjectByPortId pm portId = None" "sts = SUCCESS" "pm' = pm" "w' = w"
  | (disconnected) i where "GetDrmObjectByPortId pm portId = Some i" "sts = SUCCESS" "pm' = pm" "w' = w"
      "m_Connection (obj pm i) = DRM_MODE_DISCONNECTED"
  | (shared) i where "GetDrmObjectByPortId pm portId = Some i" "sts = SUCCESS" "w' = w"
      "m_Connection (obj pm i) \<noteq> DRM_MODE_DISCONNECTED"
      "\<not> no_apps (RemoveRefAppId appId (obj pm i))" "pm' = set_obj i (RemoveRefAppId appId (obj pm i)) pm"
  | (failed) i where "GetDrmObjectByPortId pm portId = Some i" "sts = EBUSY"
      "m_Connection (obj pm i) \<noteq> DRM_MODE_DISCONNECTED"
      "no_apps (RemoveRefAppId appId (obj pm i))" "pm' = set_obj i (RemoveRefAppId appId (obj pm i)) pm"
  | (off) i t w1 where "GetDrmObjectByPortId pm portId = Some i" "sts = SUCCESS"
      "m_Connection (obj pm i) \<noteq> DRM_MODE_DISCONNECTED"
      "no_apps (RemoveRefAppId appId (obj pm i))"
      "GetProtectionInfo D pm (obj pm i) w1 = ((SUCCESS, CP_OFF, t), w')"
      "pm' = set_obj i (SetCpType CP_TYPE_INVALID (RemoveRefAppId appId (obj pm i))) pm"
proof (cases "GetDrmObjectByPortId pm portId")
  case None
  then have "DisablePort os D G wl pm portId appId w = ret ((SUCCESS, pm), w)"
    by (simp add: DisablePort_def)
  then have eq: "sts = SUCCESS" "pm' = pm" "w' = w" using assms by simp_all
  show ?thesis by (rule that(1) [OF None eq])
next
  case (Some i)
  let ?ob = "RemoveRefAppId appId (obj pm i)"
  have len: "i < length (m_DrmObjects pm)" using by_port_id [OF Some] by simp
  show ?thesis
  proof (cases "m_Connection (obj pm i) = DRM_MODE_DISCONNECTED")
    case True
    with Some have "DisablePort os D G wl pm portId appId w = ret ((SUCCESS, pm), w)"
      by (simp add: DisablePort_def Let_def)
    then have eq: "sts = SUCCESS" "pm' = pm" "w' = w" using assms by simp_all
    show ?thesis by (rule that(2) [OF Some eq True])
  next
    case conn: False
    show ?thesis
    proof (cases "no_apps ?ob")
      case False
      then have "1 \<le> GetRefAppCount ?ob" by (simp only: no_apps_def not_not)
      with Some conn have "DisablePort os D G wl pm portId appId w = ret ((SUCCESS, set_obj i ?ob pm), w)"
        by (simp add: DisablePort_def)
      then have eq: "sts = SUCCESS" "pm' = set_obj i ?ob pm" "w' = w" using assms by simp_all
      show ?thesis by (rule that(3) [OF Some eq(1,3) conn False eq(2)])
    next
      case True
      with assms Some conn have rest: "obind (Some (SetPortProperty os D G wl (set_obj i ?ob pm) (m_DrmId ?ob)
            (GetPropertyId CONTENT_PROTECTION ?ob) [CP_OFF] 1 w)) (\<lambda>(sts, w).
          if sts \<noteq> SUCCESS then ret ((EBUSY, set_obj i ?ob pm), w) else
          obind (CpTypeAtomicBegin ?ob) (\<lambda>ob.
          let ((sts, cpValue, cpType), w) = GetProtectionInfo D (set_obj i ?ob pm) ob w in
          if sts \<noteq> SUCCESS \<or> cpValue \<noteq> CP_OFF
          then obind (CpTypeAtomicEnd ob) (\<lambda>ob. ret ((EBUSY, set_obj i ob (set_obj i ?ob pm)), w)) else
          obind (CpTypeAtomicEnd (SetCpType CP_TYPE_INVALID ob)) (\<lambda>ob.
          ret ((SUCCESS, set_obj i ob (set_obj i ?ob pm)), w)))) = ret ((sts, pm'), w')"
        unfolding DisablePort_def Let_def by (simp add: no_apps_def)
      show ?thesis
      proof (cases "sts = SUCCESS")
        case False
        with rest that(4) [OF Some _ conn True] show ?thesis
          by (auto elim!: hdcp_elims simp: Let_def split: if_splits prod.splits)
      next
        case s: True
        with rest that(5) [OF Some s conn True] show ?thesis
          by (auto elim!: hdcp_elims simp: Let_def split: if_splits prod.splits)
      qed
    qed
  qed
qed

lemma DisablePort_touched:
  assumes "DisablePort os D G wl pm portId appId w = ret ((sts, pm'), w')"
  shows "pm_touched pm pm'"
  using assms
proof (cases rule: DisablePort_cases)
  case (off i t w1)
  have "touched (obj pm i) (SetCpType 255 (RemoveRefAppId appId (obj pm i)))"
    using touched_trans [OF touched_ops(3) touched_ops(1)] .
  with off by_port_id [of pm portId i] show ?thesis by (simp add: pm_touched_set)
qed (use by_port_id in \<open>auto simp: pm_touched_set\<close>)


lemma list_all2_touched_refl [simp]: "list_all2 touched obs obs"
  by (simp add: list_all2_refl)

lemma enumerate_touched:
  "enumerate_loop D fd obs ps n w = ret ((sts, obs', ps', n'), w') \<Longrightarrow> list_all2 touched obs obs'"
  by (induction obs arbitrary: ps n w obs' ps' n' w')
    (auto elim!: hdcp_elims split: prod.splits option.splits if_splits)

lemma remove_app_touched:
  "remove_app_loop os D G wl appId is pm w = ret (pm', w') \<Longrightarrow> pm_touched pm pm'"
proof (induction "is" arbitrary: pm w)
  case (Cons i "is")
  from Cons.prems obtain sts pm1 w1 where
    d: "DisablePort os D G wl pm (m_PortId (obj pm i)) appId w = ret ((sts, pm1), w1)"
    and r: "remove_app_loop os D G wl appId is pm1 w1 = ret (pm', w')" by (auto elim!: hdcp_elims)
  show ?case by (rule pm_touched_trans [OF DisablePort_touched [OF d] Cons.IH [OF r]])
qed simp

lemma app_id_0 [simp]: "app_id 0"
  by (simp add: app_id_def)

lemma disable_all_touched:
  "disable_all_loop os D G wl is pm w = ret (pm', w') \<Longrightarrow>
     \<forall>i \<in> set is. i < length (m_DrmObjects pm) \<Longrightarrow> pm_touched pm pm'"
proof (induction "is" arbitrary: pm w)
  case (Cons i "is")
  let ?pm = "set_obj i (AddRefAppId 0 (ClearRefAppId (obj pm i))) pm"
  from Cons.prems(1) obtain sts pm1 w1 where
    d: "DisablePort os D G wl ?pm (m_PortId (obj ?pm i)) 0 w = ret ((sts, pm1), w1)"
    "disable_all_loop os D G wl is pm1 w1 = ret (pm', w')" by (auto elim!: hdcp_elims simp: Let_def)
  have t: "pm_touched pm ?pm"
    using Cons.prems(2) touched_trans [OF touched_ops(4) touched_ops(5) [OF app_id_0]]
    by (intro pm_touched_set) auto
  have t1: "pm_touched pm pm1" using pm_touched_trans [OF t DisablePort_touched [OF d(1)]] .
  then have "length (m_DrmObjects pm1) = length (m_DrmObjects pm)"
    by (auto simp: pm_touched_def dest: list_all2_lengthD)
  with Cons.IH [OF d(2)] Cons.prems(2) t1 show ?case using pm_touched_trans by auto
qed simp

lemma ReportStatus_unlocks:
  "ReportStatus os mem cb e p w = ret (cb', w') \<Longrightarrow> \<not> m_CallBackListMutex cb'"
  unfolding ReportStatus_def acquire_callbacks_def release_callbacks_def Let_def
  by (auto elim!: hdcp_elims split: if_splits)

lemma hotplug_ConsE:
  assumes "hotplug_loop os D mem fd (ob # obs) cb w = ret ((obs', cb'), w')"
  obtains ob1 cb1 w1 obs1 where "touched ob ob1"
    "\<not> m_CallBackListMutex cb \<longrightarrow> \<not> m_CallBackListMutex cb1"
    "hotplug_loop os D mem fd obs cb1 w1 = ret ((obs1, cb'), w')" "obs' = ob1 # obs1"
proof -
  let ?ob = "ob\<lparr>m_ConnectionMutex := True\<rparr>"
  from assms obtain connector w0 ob1 cb1 w1 obs1 where lk: "\<not> m_ConnectionMutex ob"
    and step: "(case connector of None \<Rightarrow> ret ((?ob, cb), w0) | Some connection \<Rightarrow>
        if connection = m_Connection ?ob then ret ((?ob, cb), w0) else
        obind (if connection = DRM_MODE_DISCONNECTED
               then ReportStatus os mem cb PORT_EVENT_PLUG_OUT (m_PortId ?ob) w0
               else if connection = DRM_MODE_CONNECTED
               then ReportStatus os mem cb PORT_EVENT_PLUG_IN (m_PortId ?ob) w0
               else ret (cb, w0)) (\<lambda>(cb, w).
        ret ((SetConnection connection ?ob, cb), w))) = ret ((ob1, cb1), w1)"
    and rest: "m_ConnectionMutex ob1" "hotplug_loop os D mem fd obs cb1 w1 = ret ((obs1, cb'), w')"
      "obs' = ob1\<lparr>m_ConnectionMutex := False\<rparr> # obs1"
    by (auto elim!: hdcp_elims simp del: mutex_commutes split: prod.splits)
  have "touched ob (ob1\<lparr>m_ConnectionMutex := False\<rparr>)"
    using step lk by (auto elim!: hdcp_elims split: option.splits if_splits)
  moreover have "\<not> m_CallBackListMutex cb \<longrightarrow> \<not> m_CallBackListMutex cb1"
    using step by (auto elim!: hdcp_elims split: option.splits if_splits dest: ReportStatus_unlocks)
  ultimately show ?thesis using that rest by blast
qed

lemma hotplug_touched:
  "hotplug_loop os D mem fd obs cb w = ret ((obs', cb'), w') \<Longrightarrow>
     list_all2 touched obs obs' \<and> (\<not> m_CallBackListMutex cb \<longrightarrow> \<not> m_CallBackListMutex cb')"
proof (induction obs arbitrary: cb w obs')
  case (Cons ob obs)
  from Cons.prems show ?case
    by (rule hotplug_ConsE) (use Cons.IH in auto)
qed simp

lemma integrity_ConsE:
  assumes "integrity_loop os D mem pm (ob # obs) cb w = ret ((obs', cb'), w')"
  obtains ob1 cb1 w1 obs1 where "touched ob ob1"
    "\<not> m_CallBackListMutex cb \<longrightarrow> \<not> m_CallBackListMutex cb1"
    "integrity_loop os D mem pm obs cb1 w1 = ret ((obs1, cb'), w')" "obs' = ob1 # obs1"
proof -
  let ?ob = "ob\<lparr>m_CpTypeMutex := True\<rparr>"
  from assms obtain ob1 cb1 w1 obs1 where lk: "\<not> m_CpTypeMutex ob"
    and step: "(if GetCpType ?ob = CP_TYPE_INVALID then ret ((?ob, cb), w) else
        let ((sts, cpValue, cpType), w) = GetProtectionInfo D pm ?ob w in
        if sts \<noteq> SUCCESS then ret ((?ob, cb), w)
        else if cpValue \<noteq> CP_ENABLED
        then obind (ReportStatus os mem cb PORT_EVENT_LINK_LOST (m_PortId ?ob) w) (\<lambda>(cb, w).
             ret ((SetCpType CP_TYPE_INVALID ?ob, cb), w))
        else ret ((?ob, cb), w)) = ret ((ob1, cb1), w1)"
    and rest: "m_CpTypeMutex ob1" "integrity_loop os D mem pm obs cb1 w1 = ret ((obs1, cb'), w')"
      "obs' = ob1\<lparr>m_CpTypeMutex := False\<rparr> # obs1"
    by (auto elim!: hdcp_elims simp del: mutex_commutes GetProtectionInfo_frame)
  have "touched ob (ob1\<lparr>m_CpTypeMutex := False\<rparr>)"
    using step lk by (auto elim!: hdcp_elims simp: Let_def split: prod.splits if_splits)
  moreover have "\<not> m_CallBackListMutex cb \<longrightarrow> \<not> m_CallBackListMutex cb1"
    using step by (auto elim!: hdcp_elims simp: Let_def split: prod.splits if_splits dest: ReportStatus_unlocks)
  ultimately show ?thesis using that rest by blast
qed

lemma integrity_touched:
  "integrity_loop os D mem pm obs cb w = ret ((obs', cb'), w') \<Longrightarrow>
     list_all2 touched obs obs' \<and> (\<not> m_CallBackListMutex cb \<longrightarrow> \<not> m_CallBackListMutex cb')"
proof (induction obs arbitrary: cb w obs')
  case (Cons ob obs)
  from Cons.prems show ?case
    by (rule integrity_ConsE) (use Cons.IH in auto)
qed simp

section \<open>Histories of operations\<close>

datatype pm_op = Op_Enumerate "Port list" | Op_Enable u32 u32 u8 | Op_Disable u32 u32
  | Op_AppExit u32 | Op_DisableAll | Op_HotPlug | Op_Integrity

primrec pm_exec ::
  "'w os_api \<Rightarrow> 'w drm_api \<Rightarrow> 'w gwl_api \<Rightarrow> wl_state \<Rightarrow> ('w \<Rightarrow> SocketData) \<Rightarrow> pm_op \<Rightarrow>
     PortManager \<times> CallBacks \<Rightarrow> 'w \<Rightarrow> ((int \<times> PortManager \<times> CallBacks) \<times> 'w) outcome option" where
  "pm_exec os D G wl mem (Op_Enumerate ps) s w =
     obind (PM_EnumeratePorts D (fst s) ps w) (\<lambda>((sts, pm, _), w). ret ((sts, pm, snd s), w))"
| "pm_exec os D G wl mem (Op_Enable portId appId level) s w =
     obind (EnablePort os D G wl (fst s) portId appId level w) (\<lambda>((sts, pm), w). ret ((sts, pm, snd s), w))"
| "pm_exec os D G wl mem (Op_Disable portId appId) s w =
     obind (DisablePort os D G wl (fst s) portId appId w) (\<lambda>((sts, pm), w). ret ((sts, pm, snd s), w))"
| "pm_exec os D G wl mem (Op_AppExit appId) s w =
     obind (RemoveAppFromPorts os D G wl (fst s) appId w) (\<lambda>(pm, w). ret ((SUCCESS, pm, snd s), w))"
| "pm_exec os D G wl mem Op_DisableAll s w =
     obind (DisableAllPorts os D G wl (fst s) w) (\<lambda>(pm, w). ret ((SUCCESS, pm, snd s), w))"
| "pm_exec os D G wl mem Op_HotPlug s w =
     obind (ProcessHotPlug os D mem (fst s) (snd s) w) (\<lambda>((pm, cb), w). ret ((SUCCESS, pm, cb), w))"
| "pm_exec os D G wl mem Op_Integrity s w =
     obind (CheckIntegrity os D mem (fst s) (snd s) w) (\<lambda>((pm, cb), w). ret ((SUCCESS, pm, cb), w))"

definition pm_admissible :: "pm_op \<Rightarrow> bool" where
  "pm_admissible x = (case x of Op_Enable _ appId _ \<Rightarrow> app_id appId | _ \<Rightarrow> True)"

definition pm_state_inv :: "PortManager \<times> CallBacks \<Rightarrow> bool" where
  "pm_state_inv s \<longleftrightarrow> pm_inv (fst s) \<and> \<not> m_CallBackListMutex (snd s)"

lemma pm_exec_touched:
  assumes "pm_exec os D G wl mem x s w = ret ((r, pm, cb), w')" "pm_admissible x"
  shows "pm_touched (fst s) pm \<and> (\<not> m_CallBackListMutex (snd s) \<longrightarrow> \<not> m_CallBackListMutex cb)"
proof (cases x)
  case (Op_Enumerate ps)
  with assms(1) show ?thesis 
    by (auto elim!: hdcp_elims simp: PM_EnumeratePorts_def Let_def pm_touched_def split: if_splits
        dest: enumerate_touched)
next
  case (Op_Enable portId appId level)
  with assms show ?thesis by (auto elim!: hdcp_elims simp: pm_admissible_def dest: EnablePort_touched)
next
  case (Op_Disable portId appId)
  with assms(1) show ?thesis by (auto elim!: hdcp_elims dest: DisablePort_touched)
next
  case (Op_AppExit appId)
  with assms(1) show ?thesis
    by (auto elim!: hdcp_elims dest: remove_app_touched simp: RemoveAppFromPorts_def)
next
  case Op_DisableAll
  with assms(1) show ?thesis
    by (auto elim!: hdcp_elims dest: disable_all_touched simp: DisableAllPorts_def)
next
  case Op_HotPlug
  with assms(1) show ?thesis
    by (auto elim!: hdcp_elims dest: hotplug_touched simp: ProcessHotPlug_def pm_touched_def)
next
  case Op_Integrity
  with assms(1) show ?thesis
    by (auto elim!: hdcp_elims dest: integrity_touched simp: CheckIntegrity_def pm_touched_def)
qed

interpretation pm: inv_system "pm_exec os D G wl mem" pm_admissible pm_state_inv
  for os :: "'w os_api" and D :: "'w drm_api" and G :: "'w gwl_api" and wl :: wl_state
    and mem :: "'w \<Rightarrow> SocketData"
proof
  fix x s w r s' w'
  assume "pm_admissible x" "pm_state_inv s" "pm_exec os D G wl mem x s w = ret ((r, s'), w')"
  then show "pm_state_inv s'"
    using pm_exec_touched [of os D G wl mem x s w r "fst s'" "snd s'" w'] pm_touched_inv
    by (auto simp: pm_state_inv_def)
qed

end
