(* ===== verification/PortProperties.thy ===== *)
theory PortProperties
  imports PortSafety
begin

text \<open>
  The properties of the port manager (\<^verbatim>\<open>src/daemon/portmanager.cpp\<close>): construction, enabling and
  disabling, the exit of an application, enumeration, the list of KSVs, and the two event threads.
\<close>

section \<open>Construction establishes the invariant\<close>

lemma obj_cong: "m_DrmObjects pm = m_DrmObjects pm' \<Longrightarrow> obj pm i = obj pm' i"
  by (simp add: obj_def)

lemma AddDrmProperty_touched_ids:
  "app_ok (AddDrmProperty n p v ob) = app_ok ob" "unlocked (AddDrmProperty n p v ob) = unlocked ob"
  by (simp_all add: AddDrmProperty_def app_ok_def unlocked_def)

lemma DrmObject_new_ok: "app_ok (DrmObject_new d p)" "unlocked (DrmObject_new d p)"
  by (simp_all add: DrmObject_new_def app_ok_def unlocked_def)

lemma pm_inv_add_property:
  assumes "pm_inv pm" "i < length (m_DrmObjects pm)"
  shows "pm_inv (set_obj i (AddDrmProperty n p v (obj pm i)) pm)"
proof -
  have "map m_PortId ((m_DrmObjects pm)[i := AddDrmProperty n p v (m_DrmObjects pm ! i)]) =
      map m_PortId (m_DrmObjects pm)" "map m_DrmId ((m_DrmObjects pm)[i := AddDrmProperty n p v
      (m_DrmObjects pm ! i)]) = map m_DrmId (m_DrmObjects pm)"
    using assms(2) by (simp_all add: map_update list_update_id [of "map m_PortId (m_DrmObjects pm)" i, simplified]
        list_update_same_conv)
  then show ?thesis
    using assms by (auto simp: pm_inv_def set_obj_def obj_def AddDrmProperty_touched_ids
        dest!: set_update_subset_insert [THEN subsetD])
qed

lemma init_props_inv:
  assumes "init_props os D pm conn ps portIdx w = Ret ((pm', portIdx'), w')"
    "pm_inv pm" "portIdx = of_nat (length (m_DrmObjects pm))"
  shows "pm_inv pm' \<and> portIdx' = of_nat (length (m_DrmObjects pm')) \<and>
    pm_IsValid pm' = pm_IsValid pm \<and> m_DrmFd pm' = m_DrmFd pm"
  using assms
proof (induction ps arbitrary: pm portIdx w)
  case (Cons pv ps)
  obtain p v where pv: "pv = (p, v)" by fastforce
  note prems = Cons.prems [unfolded pv] and IH = Cons.IH
  obtain q w1 where q: "drmModeGetProperty D (m_DrmFd pm) p w = (q, w1)" by fastforce
  show ?case
  proof (cases q)
    case None
    with IH [of pm portIdx w1] prems q show ?thesis by simp
  next
    case (Some pname)
    show ?thesis
    proof (cases "pname = CONTENT_PROTECTION \<or> pname = CP_CONTENT_TYPE \<or> pname = CP_DOWNSTREAM_INFO")
      case False
      with IH [of pm portIdx w1] prems q Some show ?thesis by simp
    next
      case known: True
      show ?thesis
      proof (cases "GetDrmObjectByDrmId pm conn")
        case found: (Some i)
        then have i: "i < length (m_DrmObjects pm)"
          using find_by_Some by (auto simp: GetDrmObjectByDrmId_def)
        let ?pm = "set_obj i (AddDrmProperty pname p (ucast v) (obj pm i)) pm"
        have "init_props os D ?pm conn ps portIdx w1 = Ret ((pm', portIdx'), w')"
          using prems(1) q Some known found by simp
        moreover have "portIdx = of_nat (length (m_DrmObjects ?pm))"
          using prems(3) by (simp add: set_obj_def)
        ultimately show ?thesis
          using IH [of ?pm portIdx w1] pm_inv_add_property [OF prems(2) i]
          by (simp add: set_obj_def)
      next
        case new: None
        let ?ob = "AddDrmProperty pname p (ucast v) (DrmObject_new conn portIdx)"
        let ?pm = "pm\<lparr>m_DrmObjects := m_DrmObjects pm @ [?ob]\<rparr>"
        obtain ok w2 where ok: "os_new os 1 w1 = (ok, w2)" by fastforce
        with prems(1) q Some known new have okT: "ok" by (cases ok) auto
        have run: "init_props os D ?pm conn ps (portIdx + 1) w2 = Ret ((pm', portIdx'), w')"
          using prems(1) q Some known new ok okT by simp
        have "conn \<notin> m_DrmId ` set (m_DrmObjects pm)"
          using new by (auto simp: GetDrmObjectByDrmId_def find_by_None)
        then have "pm_inv ?pm"
          using prems(2,3) DrmObject_new_ok
          by (simp add: pm_inv_def AddDrmProperty_touched_ids) (simp add: DrmObject_new_def)
        moreover have "portIdx + 1 = of_nat (length (m_DrmObjects ?pm))" using prems(3) by simp
        ultimately show ?thesis
          using IH [OF run] by simp
      qed
    qed
  qed
qed simp


lemma init_connectors_inv:
  assumes "init_connectors os D pm cs portIdx w = Ret (pm', w')"
    "pm_inv pm" "portIdx = of_nat (length (m_DrmObjects pm))"
  shows "pm_inv pm' \<and> pm_IsValid pm' = pm_IsValid pm \<and> m_DrmFd pm' = m_DrmFd pm"
  using assms
proof (induction cs arbitrary: pm portIdx w)
  case (Cons c cs)
  obtain q w1 where q: "drmModeObjectGetProperties D (m_DrmFd pm) c w = (q, w1)" by fastforce
  show ?case
  proof (cases q)
    case None
    with Cons q show ?thesis by simp
  next
    case (Some ps)
    with Cons.prems(1) q obtain pm1 portIdx1 w2 where
      "init_props os D pm c ps portIdx w1 = Ret ((pm1, portIdx1), w2)"
      "init_connectors os D pm1 cs portIdx1 w2 = Ret (pm', w')" by (auto elim!: hdcp_elims)
    with init_props_inv [OF this(1) Cons.prems(2,3)] Cons.IH show ?thesis by metis
  qed
qed simp

lemma PortManager_new_inv:
  assumes "PortManager_new os D w = Ret ((pm, th), w')"
  shows "pm_inv pm"
proof -
  have e: "pm_inv \<lparr>pm_IsValid = False, m_DrmFd = fd, m_DrmObjects = []\<rparr>" for fd
    by (simp add: pm_inv_def)
  have v: "pm_inv (pm\<lparr>pm_IsValid := b\<rparr>) = pm_inv pm" for pm b by (simp add: pm_inv_def)
  have ic: "pm_inv pm'"
    if "init_connectors os D \<lparr>pm_IsValid = False, m_DrmFd = fd, m_DrmObjects = []\<rparr> cs 0 w = Ret (pm', w')"
    for fd cs w pm' w'
    using init_connectors_inv [OF that e] by simp
  show ?thesis
    using assms unfolding PortManager_new_def InitDrmObjects_def Let_def
    by (auto elim!: hdcp_elims split: prod.splits if_splits option.splits simp: e v)
      (erule ic)+
qed

section \<open>The ports of a manager\<close>

lemma pm_ids: "pm_inv pm \<Longrightarrow> length (m_DrmObjects pm) \<le> 2 ^ 32"
proof -
  assume "pm_inv pm"
  then have "length (m_DrmObjects pm) = card (set (map m_DrmId (m_DrmObjects pm)))"
    by (metis distinct_card length_map pm_inv_def)
  also have "\<dots> \<le> card (UNIV :: u32 set)" by (rule card_mono) auto
  finally show ?thesis by (simp add: card_word)
qed

lemma port_id_of:
  assumes "pm_inv pm" "i < length (m_DrmObjects pm)"
  shows "m_PortId (obj pm i) = of_nat i"
proof -
  have "map m_PortId (m_DrmObjects pm) ! i = map of_nat [0..<length (m_DrmObjects pm)] ! i"
    using assms(1) by (simp add: pm_inv_def)
  with assms(2) show ?thesis by (simp add: obj_def)
qed

lemma find_own_port:
  assumes "pm_inv pm" "i < length (m_DrmObjects pm)"
  shows "GetDrmObjectByPortId pm (m_PortId (obj pm i)) = Some i"
proof -
  have "GetDrmObjectByPortId pm (m_PortId (obj pm i)) \<noteq> None"
    using assms(2) by (auto simp: GetDrmObjectByPortId_def find_by_None obj_def)
  then obtain k where k: "GetDrmObjectByPortId pm (m_PortId (obj pm i)) = Some k" by blast
  from by_port_id [OF k] have kk: "k < length (m_DrmObjects pm)" "m_PortId (obj pm k) = m_PortId (obj pm i)"
    by auto
  then have "(of_nat k :: u32) = of_nat i" using port_id_of [OF assms(1)] assms(2) by simp
  then have "unat (of_nat k :: u32) = unat (of_nat i :: u32)" by simp
  moreover have "k < 2 ^ 32" "i < 2 ^ 32" using pm_ids [OF assms(1)] kk(1) assms(2) by simp_all
  ultimately have "k = i" by (simp add: unsigned_of_nat take_bit_eq_mod)
  with k show ?thesis by simp
qed

lemma obj_set_other [simp]: "j \<noteq> i \<Longrightarrow> obj (set_obj i ob pm) j = obj pm j"
  by (simp add: obj_def set_obj_def)

lemma app_refs_frame [simp]:
  "app_refs (SetCpType t ob) = app_refs ob" "app_refs (SetConnection c ob) = app_refs ob"
  by (simp_all add: app_refs_def)

text \<open>What disabling its own port does to the counted applications.\<close>

lemma DisablePort_at:
  assumes "DisablePort os D G wl pm (m_PortId (obj pm i)) appId w = ret ((sts, pm'), w')"
    "pm_inv pm" "i < length (m_DrmObjects pm)"
  shows "(\<forall>j. j \<noteq> i \<longrightarrow> obj pm' j = obj pm j) \<and> m_Connection (obj pm' i) = m_Connection (obj pm i) \<and>
    app_refs (obj pm' i) = (if m_Connection (obj pm i) = DRM_MODE_DISCONNECTED then app_refs (obj pm i)
       else app_refs (obj pm i) - {appId})"
  using assms(1)
proof (cases rule: DisablePort_cases)
  case (off k t w1)
  with find_own_port [OF assms(2,3)] assms(3) show ?thesis by (simp add: apps.remove_refs)
qed (use find_own_port [OF assms(2,3)] assms(3) in \<open>simp_all add: apps.remove_refs\<close>)

lemma remove_app_refs:
  assumes "remove_app_loop os D G wl appId is pm w = ret (pm', w')" "pm_inv pm" "distinct is"
    "\<forall>i \<in> set is. i < length (m_DrmObjects pm)" "j < length (m_DrmObjects pm)"
  shows "app_refs (obj pm' j) =
      (if j \<notin> set is \<or> m_Connection (obj pm j) = DRM_MODE_DISCONNECTED then app_refs (obj pm j)
       else app_refs (obj pm j) - {appId})"
  using assms
proof (induction "is" arbitrary: pm w)
  case (Cons i "is")
  from Cons.prems(1) obtain sts pm1 w1 where
    d: "DisablePort os D G wl pm (m_PortId (obj pm i)) appId w = ret ((sts, pm1), w1)"
    and r: "remove_app_loop os D G wl appId is pm1 w1 = ret (pm', w')" by (auto elim!: hdcp_elims)
  have t: "pm_touched pm pm1" by (rule DisablePort_touched [OF d])
  have inv: "pm_inv pm1" by (rule pm_touched_inv [OF t Cons.prems(2)])
  have len: "length (m_DrmObjects pm1) = length (m_DrmObjects pm)"
    using t by (auto simp: pm_touched_def dest: list_all2_lengthD)
  have i: "i < length (m_DrmObjects pm)" using Cons.prems(4) by simp
  note at = DisablePort_at [OF d Cons.prems(2) i]
  have IH: "app_refs (obj pm' j) =
      (if j \<notin> set is \<or> m_Connection (obj pm1 j) = DRM_MODE_DISCONNECTED then app_refs (obj pm1 j)
       else app_refs (obj pm1 j) - {appId})"
    using Cons.prems(3-5) len by (intro Cons.IH [OF r inv]) auto
  show ?case using IH at Cons.prems(3) by (cases "j = i") (auto split: if_splits)
qed simp


section \<open>Properties\<close>

text \<open>
  A device for the witnesses: one connector, 77, with the three properties of the code, whose driver
  reports content protection enabled with type 0; the world counts the property changes.
\<close>

definition demo_drm :: "nat drm_api" where
  "demo_drm = idle_drm\<lparr>drmOpen := (\<lambda>s. Pair 3), drmSetMaster := (\<lambda>fd. Pair 0),
     drmDropMaster := (\<lambda>fd. Pair 0), drmModeGetResources := (\<lambda>fd. Pair (Some [77])),
     drmModeObjectGetProperties := (\<lambda>fd i. Pair (Some [(1, 2), (2, 0), (3, 9)])),
     drmModeGetProperty := (\<lambda>fd i. Pair (if i = 1 then Some CONTENT_PROTECTION
        else if i = 2 then Some CP_CONTENT_TYPE else if i = 3 then Some CP_DOWNSTREAM_INFO else None)),
     drmModeGetConnector := (\<lambda>fd i. Pair (Some 1)),
     drmModeConnectorSetProperty := (\<lambda>fd c p v n. (0, Suc n))\<rparr>"

definition demo_object :: DrmObject where
  "demo_object = (DrmObject_new 77 0)\<lparr>m_PropertyList :=
     [\<lparr>prop_name = CONTENT_PROTECTION, propertyId = 1, propertyValue = 2\<rparr>,
      \<lparr>prop_name = CP_CONTENT_TYPE, propertyId = 2, propertyValue = 0\<rparr>,
      \<lparr>prop_name = CP_DOWNSTREAM_INFO, propertyId = 3, propertyValue = 9\<rparr>]\<rparr>"

definition demo_pm :: PortManager where
  "demo_pm = \<lparr>pm_IsValid = True, m_DrmFd = 3, m_DrmObjects = [demo_object]\<rparr>"

lemma demo_new:
  "PortManager_new idle_os demo_drm 0 = Ret ((demo_pm, \<lparr>th_integrity = True, th_uevent = True\<rparr>), 0)"
  by code_simp

lemma demo_inv: "pm_inv demo_pm"
  by (rule PortManager_new_inv [OF demo_new])

lemma demo_enable:
  "EnablePort idle_os demo_drm idle_gwl wl_start demo_pm 0 5 1 0 =
     ret ((SUCCESS, set_obj 0 (AddRefAppId 5 (SetCpType 0 demo_object)) demo_pm), 2)"
  by code_simp

text \<open>From its construction on, after any sequence of requests, hot plug events, integrity checks
  and application exits, whatever the driver answers: the ports are numbered from 0 in the order of
  the connectors, each connector has one port, no application is counted twice for a port, and every
  mutex has been released.\<close>

theorem port_manager_invariant:
  assumes "PortManager_new os D w0 = Ret ((pm, th), w1)" "\<not> m_CallBackListMutex cb"
    and "list_all pm_admissible ops"
    and "run_ops (pm_exec os D G wl mem) ops (pm, cb) w1 = ret ((rs, pm', cb'), w2)"
  shows "pm_inv pm' \<and> \<not> m_CallBackListMutex cb'"
proof -
  have "pm_state_inv (pm, cb)" using PortManager_new_inv [OF assms(1)] assms(2) by (simp add: pm_state_inv_def)
  from pm.run_inv [OF assms(3) this assms(4)] show ?thesis by (simp add: pm_state_inv_def)
qed

theorem port_manager_invariant_witness:
  "pm_inv (set_obj 0 (AddRefAppId 5 (SetCpType 0 demo_object)) demo_pm)"
proof -
  have "run_ops (pm_exec idle_os demo_drm idle_gwl wl_start (\<lambda>w. example_mem)) [Op_Enable 0 5 1]
      (demo_pm, \<lparr>m_CallBackList = [], m_CallBackListMutex = False\<rparr>) 0 =
    ret (([SUCCESS], set_obj 0 (AddRefAppId 5 (SetCpType 0 demo_object)) demo_pm,
      \<lparr>m_CallBackList = [], m_CallBackListMutex = False\<rparr>), 2)" by (simp add: demo_enable)
  from port_manager_invariant [OF demo_new _ _ this] show ?thesis
    by (simp add: pm_admissible_def app_id_def)
qed

text \<open>C3: If enabling a port succeeds, the port exists and is not known to be disconnected, the
  application is counted for it, and it is recorded with the type the driver reported together with
  'enabled', or was already recorded with a type high enough for the level; the other ports are as
  before. If it fails, nothing has changed in the manager.\<close>

theorem enable_port_effect:
  assumes "EnablePort os D G wl pm portId appId level w = ret ((sts, pm'), w')"
  shows "if sts \<noteq> SUCCESS then pm' = pm else
    \<exists>i t. GetDrmObjectByPortId pm portId = Some i \<and> m_Connection (obj pm i) \<noteq> DRM_MODE_DISCONNECTED \<and>
      app_refs (obj pm' i) = insert appId (app_refs (obj pm i)) \<and>
      GetCpType (obj pm' i) = t \<and> t \<noteq> CP_TYPE_INVALID \<and> (\<forall>j. j \<noteq> i \<longrightarrow> obj pm' j = obj pm j) \<and>
      ((t = GetCpType (obj pm i) \<and> (ucast level :: u32) - 1 \<le> ucast t \<and> w' = w) \<or>
       (\<exists>w1. GetProtectionInfo D pm (obj pm i) w1 = ((SUCCESS, CP_ENABLED, t), w')))"
  using assms
proof (cases rule: EnablePort_cases)
  case (already i)
  have "GetCpType (AddRefAppId appId (obj pm i)) = GetCpType (obj pm i)" by (simp add: GetCpType_def)
  with already by_port_id [OF already(1)] show ?thesis by (auto simp: apps.add_refs)
next
  case (enabled i t w1)
  have "GetCpType (AddRefAppId appId (SetCpType t (obj pm i))) = t"
    using GetCpType_SetCpType [of t "obj pm i"] by (simp add: GetCpType_def)
  moreover have "t \<noteq> 255"
    using enabled(3) by (auto simp: GetProtectionInfo_def split: prod.splits option.splits if_splits)
  ultimately show ?thesis using enabled by_port_id [OF enabled(1)]
    by (auto simp: apps.add_refs)
qed simp

theorem enable_port_effect_witness:
  "\<exists>i t. GetDrmObjectByPortId demo_pm 0 = Some i \<and>
     GetCpType (obj (set_obj 0 (AddRefAppId 5 (SetCpType 0 demo_object)) demo_pm) i) = t \<and> t \<noteq> 255"
  using enable_port_effect [OF demo_enable] by auto

text \<open>C4: Disabling never disturbs another application: if one is still counted for the port, the
  request succeeds without any call to the system and only forgets the caller. Otherwise success means
  that the driver reported the port off and no type is recorded any more; on failure the caller is
  forgotten and the recorded type stays. For a port that is unknown or known to be disconnected the
  request succeeds and does nothing, so the caller stays counted.\<close>

theorem disable_port_effect:
  assumes run: "DisablePort os D G wl pm (m_PortId (obj pm i)) appId w = ret ((sts, pm'), w')"
    and inv: "pm_inv pm" "i < length (m_DrmObjects pm)"
  shows "(\<forall>j. j \<noteq> i \<longrightarrow> obj pm' j = obj pm j) \<and>
    (if m_Connection (obj pm i) = DRM_MODE_DISCONNECTED then sts = SUCCESS \<and> pm' = pm \<and> w' = w else
       app_refs (obj pm' i) = app_refs (obj pm i) - {appId} \<and>
       (if app_refs (obj pm i) - {appId} \<noteq> {}
        then sts = SUCCESS \<and> w' = w \<and> GetCpType (obj pm' i) = GetCpType (obj pm i)
        else if sts = SUCCESS
        then GetCpType (obj pm' i) = CP_TYPE_INVALID \<and>
          (\<exists>w1 t. GetProtectionInfo D pm (obj pm i) w1 = ((SUCCESS, CP_OFF, t), w'))
        else GetCpType (obj pm' i) = GetCpType (obj pm i)))"
proof -
  let ?ob = "obj pm i"
  note own = find_own_port [OF inv]
  have ok: "app_ok ?ob" using inv by (auto simp: pm_inv_def obj_def)
  have none: "no_apps (RemoveRefAppId appId ?ob) \<longleftrightarrow> app_refs ?ob - {appId} = {}"
    using apps.none_iff [OF apps.remove_ok [OF ok]] by (simp add: apps.remove_refs)
  have cp: "GetCpType (RemoveRefAppId appId ?ob) = GetCpType ?ob" by (simp add: GetCpType_def)
  have rr: "app_refs (RemoveRefAppId appId ?ob) = app_refs ?ob - {appId}" by (rule apps.remove_refs)
  from run show ?thesis
  proof (cases rule: DisablePort_cases)
    case (shared k)
    with own inv(2) none cp rr show ?thesis by simp
  next
    case (failed k)
    with own inv(2) none cp rr show ?thesis by simp
  next
    case (off k t w1)
    with own inv(2) none rr show ?thesis by auto
  qed (use own in simp_all)
qed

theorem disable_port_effect_witness:
  "\<exists>sts pm' w'. DisablePort idle_os demo_drm idle_gwl wl_start demo_pm 0 5 0 = ret ((sts, pm'), w') \<and>
     sts = EBUSY \<and> app_refs (obj pm' 0) = {}"
proof -
  have run: "DisablePort idle_os demo_drm idle_gwl wl_start demo_pm (m_PortId (obj demo_pm 0)) 5 0 =
      ret ((EBUSY, demo_pm), 1)" by code_simp
  have "m_PortId (obj demo_pm 0) = 0" "m_Connection (obj demo_pm 0) = UINT32_MAX" "app_refs (obj demo_pm 0) = {}"
    by (simp_all add: demo_pm_def demo_object_def DrmObject_new_def obj_def app_refs_def)
  with run disable_port_effect [OF run demo_inv] show ?thesis by (auto simp: demo_pm_def)
qed

text \<open>When an application's connection ends, its id is taken off every port except those that are
  known to be disconnected: there it stays counted, although the interface promises to purge it from
  all ports.\<close>

theorem app_exit_leaves_disconnected_ports:
  assumes "RemoveAppFromPorts os D G wl pm appId w = ret (pm', w')" "pm_inv pm"
    and "i < length (m_DrmObjects pm)"
  shows "app_refs (obj pm' i) = (if m_Connection (obj pm i) = DRM_MODE_DISCONNECTED
    then app_refs (obj pm i) else app_refs (obj pm i) - {appId})"
  using remove_app_refs [OF assms(1) [unfolded RemoveAppFromPorts_def] assms(2) _ _ assms(3)] assms(3)
  by (simp split: if_splits)

theorem app_exit_leaves_disconnected_ports_witness:
  "5 \<in> app_refs (obj (set_obj 0 (SetConnection 2 (AddRefAppId 5 demo_object)) demo_pm) 0)"
proof -
  let ?pm = "set_obj 0 (SetConnection 2 (AddRefAppId 5 demo_object)) demo_pm"
  have run: "RemoveAppFromPorts idle_os demo_drm idle_gwl wl_start ?pm 5 0 = ret (?pm, 0)" by code_simp
  have o: "obj demo_pm 0 = demo_object" "0 < length (m_DrmObjects demo_pm)"
    by (simp_all add: demo_pm_def obj_def)
  have "touched demo_object (SetConnection 2 (AddRefAppId 5 demo_object))"
    by (rule touched_trans [OF touched_ops(5) touched_ops(2)]) (simp add: app_id_def)
  then have "pm_inv ?pm" using o by (intro pm_touched_inv [OF pm_touched_set demo_inv]) simp_all
  then have "app_refs (obj ?pm 0) = (if m_Connection (obj ?pm 0) = DRM_MODE_DISCONNECTED
      then app_refs (obj ?pm 0) else app_refs (obj ?pm 0) - {5})"
    by (rule app_exit_leaves_disconnected_ports [OF run]) (simp add: set_obj_def demo_pm_def)
  moreover have "app_refs (obj ?pm 0) = insert 5 (app_refs demo_object)" using o by (simp add: apps.add_refs)
  moreover have "m_Connection (obj ?pm 0) = 2" using o by simp
  ultimately show ?thesis by (metis insertI1)
qed

end
