(* ===== verification/PortEvents.thy ===== *)
theory PortEvents
  imports PortProperties
begin

text \<open>
  Further properties of the port manager (\<^verbatim>\<open>src/daemon/portmanager.cpp\<close>): enumeration, the topology
  of a port, the DRM master privilege, the two event threads, and that no operation waits for itself.
\<close>

section \<open>Enumeration\<close>

text \<open>
  \<open>connectors D out conn\<close>: the state of the connectors is \<open>conn\<close> while the operation runs, and asking
  for it sends nothing to anybody.
\<close>

definition connectors ::
  "'w drm_api \<Rightarrow> ('w \<Rightarrow> int \<Rightarrow> u8 list) \<Rightarrow> (u32 \<Rightarrow> u32 option) \<Rightarrow> bool" where
  "connectors D out conn \<longleftrightarrow> (\<forall>fd i w. fst (drmModeGetConnector D fd i w) = conn i \<and>
     out (snd (drmModeGetConnector D fd i w)) = out w)"

lemma connectorsD:
  "connectors D out conn \<Longrightarrow> drmModeGetConnector D fd i w = (c, w') \<Longrightarrow> c = conn i \<and> out w' = out w"
  by (metis connectors_def fst_conv snd_conv)

definition connected_ports :: "(u32 \<Rightarrow> u32 option) \<Rightarrow> DrmObject list \<Rightarrow> u32 list" where
  "connected_ports conn obs = map m_PortId (filter (\<lambda>ob. conn (m_DrmId ob) = Some DRM_MODE_CONNECTED) obs)"

definition set_connections :: "(u32 \<Rightarrow> u32 option) \<Rightarrow> DrmObject list \<Rightarrow> DrmObject list" where
  "set_connections conn obs = map (\<lambda>ob. case conn (m_DrmId ob) of None \<Rightarrow> ob
     | Some c \<Rightarrow> SetConnection c ob) obs"

text \<open>The port list after the loop: the connected ports from position \<open>n\<close> on.\<close>

definition filled :: "nat \<Rightarrow> u32 list \<Rightarrow> Port list \<Rightarrow> Port list \<Rightarrow> bool" where
  "filled n ids ps ps' \<longleftrightarrow> length ps' = length ps \<and>
     (\<forall>k < length ps. if n \<le> k \<and> k < n + length ids
        then Port_Id (ps' ! k) = ids ! (k - n) \<and> Port_status (ps' ! k) = PORT_STATUS_CONNECTED
        else ps' ! k = ps ! k)"

lemma filled_Nil: "filled n [] ps ps"
  by (auto simp: filled_def)

lemma filled_Cons:
  assumes "filled (Suc n) ids (ps[n := p]) ps'" "Port_Id p = i" "Port_status p = PORT_STATUS_CONNECTED"
    "n < length ps"
  shows "filled n (i # ids) ps ps'"
  unfolding filled_def
proof (intro conjI allI impI)
  show "length ps' = length ps" using assms(1) by (simp add: filled_def)
  fix k assume k: "k < length ps"
  show "if n \<le> k \<and> k < n + length (i # ids)
        then Port_Id (ps' ! k) = (i # ids) ! (k - n) \<and> Port_status (ps' ! k) = PORT_STATUS_CONNECTED
        else ps' ! k = ps ! k"
    using assms k unfolding filled_def
    by (cases "k = n") (auto simp: nth_Cons' dest: spec [of _ k])
qed

lemma enumerate_loop_all:
  assumes "connectors D out conn" "\<forall>ob \<in> set obs. unlocked ob \<and> conn (m_DrmId ob) \<noteq> None"
    "length ps = NUM_PHYSICAL_PORTS_MAX" "unat n \<le> NUM_PHYSICAL_PORTS_MAX"
  shows "if unat n + length (connected_ports conn obs) \<le> NUM_PHYSICAL_PORTS_MAX
    then \<exists>ps' w'. enumerate_loop D fd obs ps n w =
        ret ((SUCCESS, set_connections conn obs, ps', n + of_nat (length (connected_ports conn obs))), w') \<and>
      filled (unat n) (connected_ports conn obs) ps ps'
    else enumerate_loop D fd obs ps n w = Some Undef"
  using assms(2-4)
proof (induction obs arbitrary: ps n w)
  case Nil
  then show ?case by (simp add: connected_ports_def set_connections_def filled_Nil)
next
  case (Cons ob obs)
  obtain c w1 where c: "drmModeGetConnector D fd (m_DrmId ob) w = (Some c, w1)" "conn (m_DrmId ob) = Some c"
    using Cons.prems(1) connectorsD [OF assms(1)] by (metis list.set_intros(1) option.exhaust surj_pair)
  have lk: "\<not> m_ConnectionMutex ob" using Cons.prems(1) by (simp add: unlocked_def)
  have sc: "set_connections conn (ob # obs) = SetConnection c ob # set_connections conn obs"
    using c(2) by (simp add: set_connections_def)
  show ?case
  proof (cases "c = DRM_MODE_CONNECTED")
    case False
    then have "connected_ports conn (ob # obs) = connected_ports conn obs"
      using c(2) by (simp add: connected_ports_def)
    with Cons.IH [of ps n w1] Cons.prems False c(1) lk sc show ?thesis
      by (auto simp: ConnAtomicBegin_def ConnAtomicEnd_def split: if_splits)
  next
    case True
    then have ids: "connected_ports conn (ob # obs) = m_PortId ob # connected_ports conn obs"
      using c(2) by (simp add: connected_ports_def)
    show ?thesis
    proof (cases "unat n < NUM_PHYSICAL_PORTS_MAX")
      case False
      with Cons.prems(2) c(1) lk True ids show ?thesis
        by (simp add: ConnAtomicBegin_def upd_range_def)
    next
      case lt: True
      let ?p = "(ps ! unat n)\<lparr>Port_Id := m_PortId ob, Port_status := PORT_STATUS_CONNECTED\<rparr>"
      have n1: "unat (n + 1) = Suc (unat n)" using lt by (simp add: unat_word_ariths)
      have run: "enumerate_loop D fd (ob # obs) ps n w =
          obind (enumerate_loop D fd obs (ps[unat n := ?p]) (n + 1) w1)
            (\<lambda>((sts, obs, portList, portCount), w).
              ret ((sts, SetConnection c ob # obs, portList, portCount), w))"
        using c(1) lk True lt Cons.prems(2)
        by (simp add: ConnAtomicBegin_def ConnAtomicEnd_def upd_range_def)
      have IH: "if unat (n + 1) + length (connected_ports conn obs) \<le> NUM_PHYSICAL_PORTS_MAX
        then \<exists>ps' w'. enumerate_loop D fd obs (ps[unat n := ?p]) (n + 1) w1 =
          ret ((SUCCESS, set_connections conn obs, ps',
            n + 1 + of_nat (length (connected_ports conn obs))), w') \<and>
          filled (unat (n + 1)) (connected_ports conn obs) (ps[unat n := ?p]) ps'
        else enumerate_loop D fd obs (ps[unat n := ?p]) (n + 1) w1 = Some Undef"
        using Cons.prems lt n1 by (intro Cons.IH) auto
      show ?thesis
        using IH lt Cons.prems(2) filled_Cons [of "unat n" "connected_ports conn obs" ps ?p]
        unfolding n1 run ids sc by (auto split: if_splits simp: algebra_simps)
    qed
  qed
qed

text \<open>Enumerating the ports lists exactly the connected ones, in the order of their ids, with the
  rest of the caller's list cleared, and records the state of every connector; but with more than
  five connected ports it writes behind the end of the caller's list.\<close>

theorem enumerate_lists_connected:
  assumes "connectors D out conn" "pm_inv pm" "pm_IsValid pm" "length ps = NUM_PHYSICAL_PORTS_MAX"
    and "\<forall>ob \<in> set (m_DrmObjects pm). conn (m_DrmId ob) \<noteq> None"
  defines "ids \<equiv> connected_ports conn (m_DrmObjects pm)"
  shows "if length ids \<le> NUM_PHYSICAL_PORTS_MAX
    then \<exists>ps' w'. PM_EnumeratePorts D pm ps w =
        ret ((SUCCESS, pm\<lparr>m_DrmObjects := set_connections conn (m_DrmObjects pm)\<rparr>, ps',
          of_nat (length ids)), w') \<and> length ps' = NUM_PHYSICAL_PORTS_MAX \<and>
      (\<forall>k < NUM_PHYSICAL_PORTS_MAX. if k < length ids
         then Port_Id (ps' ! k) = ids ! k \<and> Port_status (ps' ! k) = PORT_STATUS_CONNECTED
         else Port_Id (ps' ! k) = 0 \<and> Port_status (ps' ! k) = PORT_STATUS_DISCONNECTED)
    else PM_EnumeratePorts D pm ps w = Some Undef"
proof -
  let ?ps = "map (\<lambda>p. p\<lparr>Port_Id := 0, Port_status := PORT_STATUS_DISCONNECTED\<rparr>) ps"
  have "\<forall>ob \<in> set (m_DrmObjects pm). unlocked ob \<and> conn (m_DrmId ob) \<noteq> None"
    using assms(2,5) by (simp add: pm_inv_def)
  from enumerate_loop_all [OF assms(1) this, of ?ps 0 "m_DrmFd pm" w] assms(3,4) show ?thesis
    unfolding ids_def PM_EnumeratePorts_def filled_def by (auto split: if_splits)
qed

theorem enumerate_lists_connected_witness:
  "\<exists>ps' w'. PM_EnumeratePorts demo_drm demo_pm (replicate 5 \<lparr>Port_Id = 9, Port_status = 9, Port_Event = 0\<rparr>) 0 =
     ret ((SUCCESS, demo_pm\<lparr>m_DrmObjects := [SetConnection 1 demo_object]\<rparr>, ps', 1), w') \<and>
     Port_status (ps' ! 0) = 1 \<and> Port_status (ps' ! 1) = 0"
proof -
  let ?ps = "replicate 5 \<lparr>Port_Id = 9, Port_status = 9, Port_Event = 0\<rparr>"
  have law: "connectors demo_drm (\<lambda>w fd. []) (\<lambda>i. Some 1)"
    by (simp add: connectors_def demo_drm_def idle_simps)
  have pm: "pm_IsValid demo_pm" "m_DrmObjects demo_pm = [demo_object]" by (simp_all add: demo_pm_def)
  have ids: "connected_ports (\<lambda>i. Some 1) [demo_object] = [0]"
    "set_connections (\<lambda>i. Some 1) [demo_object] = [SetConnection 1 demo_object]"
    by (simp_all add: connected_ports_def set_connections_def demo_object_def DrmObject_new_def)
  have "\<exists>ps' w'. PM_EnumeratePorts demo_drm demo_pm ?ps 0 =
      ret ((SUCCESS, demo_pm\<lparr>m_DrmObjects := [SetConnection 1 demo_object]\<rparr>, ps', 1), w') \<and>
      length ps' = 5 \<and> (\<forall>k < 5. if k < Suc 0
         then Port_Id (ps' ! k) = [0] ! k \<and> Port_status (ps' ! k) = 1
         else Port_Id (ps' ! k) = 0 \<and> Port_status (ps' ! k) = 0)"
    using enumerate_lists_connected [OF law demo_inv pm(1), of ?ps 0] unfolding pm(2) ids by simp
  then obtain ps' w' where r: "PM_EnumeratePorts demo_drm demo_pm ?ps 0 =
      ret ((SUCCESS, demo_pm\<lparr>m_DrmObjects := [SetConnection 1 demo_object]\<rparr>, ps', 1), w')"
    and all: "\<forall>k < 5. if k < Suc 0
         then Port_Id (ps' ! k) = [0] ! k \<and> Port_status (ps' ! k) = 1
         else Port_Id (ps' ! k) = 0 \<and> Port_status (ps' ! k) = 0" by blast
  from all have "Port_status (ps' ! 0) = 1" "Port_status (ps' ! 1) = 0"
    by (auto dest: spec [of _ 0] spec [of _ 1])
  with r show ?thesis by blast
qed

section \<open>The list of KSVs\<close>

text \<open>C36: The KSV list of a port is the sink's KSV followed by those of its downstream devices, and the
  count is one more than the number of devices; but as many KSVs as the count says are copied behind
  the first one, so a count of 127, which the limits of the protocol allow, or more writes behind the
  caller's buffer, before the daemon compares the count with the limit.\<close>

theorem ksv_list_overflow:
  assumes "GetDownstreamInfo D pm (GetDrmObjectByPortId pm portId) w = Ret ((SUCCESS, Some bs), w1)"
    and "length bs = sizeof_DownstreamInfo" "length buf = MAX_KSV_COUNT * KSV_SIZE"
  defines "n \<equiv> ucast (un32 (chunk 12 4 bs) + 1) :: u8"
  shows "PM_GetKsvList D pm portId c d buf w =
    (if unat n \<ge> MAX_KSV_COUNT then Undef
     else Ret ((SUCCESS, n, bs ! 11 + 1, chunk 5 KSV_SIZE bs @ take (KSV_SIZE * unat n) (drop 16 bs) @
       drop (KSV_SIZE * Suc (unat n)) buf), w1))"
proof -
  have len: "length (chunk 16 635 bs) = 635" "length (chunk 5 5 bs) = 5" using assms(2) by simp_all
  have w0: "wr_range buf 0 (chunk 5 5 bs) = Ret (chunk 5 5 bs @ drop 5 buf)"
    using assms(3) len by simp
  have run: "PM_GetKsvList D pm portId c d buf w =
      ubind (rd_range (chunk 16 635 bs) 0 (unat n * 5)) (\<lambda>ksvs.
      ubind (wr_range (chunk 5 5 bs @ drop 5 buf) 5 ksvs) (\<lambda>ksvList.
      Ret ((SUCCESS, n, bs ! 11 + 1, ksvList), w1)))"
    using assms(1) w0 by (simp add: PM_GetKsvList_def decode_downstream_def n_def Let_def)
  consider "unat n \<le> 126" | "unat n = 127" | "128 \<le> unat n" by linarith
  then show ?thesis
  proof cases
    case 1
    let ?ksvs = "take (5 * unat n) (drop 16 bs)"
    have "rd_range (chunk 16 635 bs) 0 (unat n * 5) = Ret ?ksvs"
      using 1 len by (subst rd_range_in) (simp_all add: chunk_def min_def mult.commute)
    moreover have "length ?ksvs = 5 * unat n" using 1 assms(2) by simp
    then have "wr_range (chunk 5 5 bs @ drop 5 buf) 5 ?ksvs =
        Ret (chunk 5 5 bs @ ?ksvs @ drop (5 * Suc (unat n)) buf)"
      using 1 len assms(3) by (subst wr_range_in) (simp_all add: add.commute)
    ultimately show ?thesis using run 1 by simp
  next
    case 2
    have "wr_range (chunk 5 5 bs @ drop 5 buf) 5 (take 635 (chunk 16 635 bs)) = Undef"
      using assms(3) len by (intro wr_range_out) simp
    then show ?thesis using run 2 len by simp
  next
    case 3
    then have "rd_range (chunk 16 635 bs) 0 (unat n * 5) = Undef"
      using len by (intro rd_range_out) simp
    with run 3 show ?thesis by simp
  qed
qed

text \<open>A blob that names 126 devices behind the sink.\<close>

definition full_blob :: "u8 list" where
  "full_blob = replicate 11 0 @ [6] @ [126, 0, 0, 0] @ replicate 636 0"

theorem ksv_list_overflow_witness:
  "PM_GetKsvList (demo_drm\<lparr>drmModeGetPropertyBlob := (\<lambda>fd i. Pair (Some (Some full_blob)))\<rparr>)
     demo_pm 0 0 0 (replicate 635 0) 0 = Undef"
proof -
  have len: "length full_blob = 652" by (simp add: full_blob_def)
  then have g: "GetDownstreamInfo (demo_drm\<lparr>drmModeGetPropertyBlob := (\<lambda>fd i. Pair (Some (Some full_blob)))\<rparr>)
      demo_pm (GetDrmObjectByPortId demo_pm 0) 0 = Ret ((SUCCESS, Some full_blob), 0)"
    by (simp add: GetDownstreamInfo_def GetDrmObjectByPortId_def demo_pm_def demo_object_def
        DrmObject_new_def demo_drm_def idle_simps)
  have n: "unat (ucast (un32 (chunk 12 4 full_blob) + 1) :: u8) = 127"
    by (simp add: full_blob_def chunk_def un32_def)
  show ?thesis
    using ksv_list_overflow [OF g len, of "replicate 635 0" 0 0] unfolding n by simp
qed

section \<open>The DRM master privilege\<close>

text \<open>
  \<open>master_law\<close>: the process is master exactly from a successful \<^verbatim>\<open>drmSetMaster\<close> to a successful
  \<^verbatim>\<open>drmDropMaster\<close>.
\<close>

definition master_law :: "'w drm_api \<Rightarrow> ('w \<Rightarrow> bool) \<Rightarrow> bool" where
  "master_law D master \<longleftrightarrow>
     (\<forall>fd w r w'. drmSetMaster D fd w = (r, w') \<longrightarrow> master w' = (if r < 0 then master w else True)) \<and>
     (\<forall>fd w r w'. drmDropMaster D fd w = (r, w') \<longrightarrow> master w' = (if r < 0 then master w else False)) \<and>
     (\<forall>fd c p v w. master (snd (drmModeConnectorSetProperty D fd c p v w)) = master w) \<and>
     (\<forall>fd bs w. master (snd (drmModeCreatePropertyBlob D fd bs w)) = master w)"

lemma set_property_master:
  "master_law D master \<Longrightarrow> set_property_loop D fd c p v n r w = (r', w') \<Longrightarrow> master w' = master w"
proof (induction n arbitrary: r w)
  case (Suc n)
  obtain q w1 where q: "drmModeConnectorSetProperty D fd c p v w = (q, w1)" by fastforce
  have "master w1 = master w" using Suc.prems(1) q unfolding master_law_def by (metis snd_conv)
  with Suc q show ?case by (auto split: if_splits)
qed simp

text \<open>Setting a property as DRM master gives the privilege back only on the way of success: once it
  was obtained, the process is no longer master exactly if the function succeeds, so every failure to
  set the property keeps the privilege, and with it locks every other client out.\<close>

theorem set_property_keeps_master:
  assumes law: "master_law D master" and env: "os_getenv os ''XDG_RUNTIME_DIR'' w = None"
    and own: "GetDrmObjectByDrmId pm drmId \<noteq> None" "drmSetMaster D (m_DrmFd pm) w = (r, w1)" "0 \<le> r"
    and run: "SetPortProperty os D G wl pm drmId propId val numRetry w = Ret (sts, w')"
  shows "master w' \<longleftrightarrow> sts \<noteq> SUCCESS"
proof -
  obtain i where i: "GetDrmObjectByDrmId pm drmId = Some i" using own(1) by blast
  have m1: "master w1" using law own(2,3) unfolding master_law_def by fastforce
  obtain b v w2 where blob: "(if length val \<noteq> 1 then drmModeCreatePropertyBlob D (m_DrmFd pm) val w1
      else ((SUCCESS, ucast (val ! 0)), w1)) = ((b, v), w2)" by (metis surj_pair)
  have m2: "master w2"
  proof (cases "length val = 1")
    case True
    with blob m1 show ?thesis by simp
  next
    case False
    with blob have "drmModeCreatePropertyBlob D (m_DrmFd pm) val w1 = ((b, v), w2)" by simp
    then have "master w2 = master w1" using law unfolding master_law_def by (metis snd_conv)
    with m1 show ?thesis by simp
  qed
  show ?thesis
  proof (cases "b = SUCCESS")
    case False
    with run env i own(2,3) blob m2 show ?thesis by (simp add: SetPortProperty_def Let_def)
  next
    case True
    obtain q w3 where q: "set_property_loop D (m_DrmFd pm) (m_DrmId (obj pm i)) propId (ucast v) numRetry
        (if length val \<noteq> 1 then b else EINVAL) w2 = (q, w3)" by fastforce
    have m3: "master w3" using set_property_master [OF law q] m2 by simp
    obtain d w4 where d: "drmDropMaster D (m_DrmFd pm) w3 = (d, w4)" by fastforce
    have m4: "master w4 = (d < 0)" using law d m3 unfolding master_law_def by auto
    show ?thesis
      using run env i own(2,3) blob True q d m3 m4
      by (auto simp: SetPortProperty_def Let_def split: if_splits)
  qed
qed

text \<open>A driver that refuses every change; the world says whether the process is master.\<close>

definition refusing_drm :: "bool drm_api" where
  "refusing_drm = idle_drm\<lparr>drmSetMaster := (\<lambda>fd w. (0, True)), drmDropMaster := (\<lambda>fd w. (0, False)),
     drmModeConnectorSetProperty := (\<lambda>fd c p v. Pair (-13))\<rparr>"

theorem set_property_keeps_master_witness:
  "\<exists>w'. SetPortProperty idle_os refusing_drm idle_gwl wl_start demo_pm 77 1 [1] 3 False = Ret (EBUSY, w') \<and>
     (w' \<longleftrightarrow> EBUSY \<noteq> SUCCESS)"
proof -
  have run: "SetPortProperty idle_os refusing_drm idle_gwl wl_start demo_pm 77 1 [1] 3 False = Ret (EBUSY, True)"
    by code_simp
  have "(True \<longleftrightarrow> EBUSY \<noteq> SUCCESS)"
    by (rule set_property_keeps_master [of refusing_drm "\<lambda>w. w", OF _ _ _ _ _ run])
      (auto simp: master_law_def refusing_drm_def idle_simps demo_pm_def GetDrmObjectByDrmId_def
        demo_object_def DrmObject_new_def)
  with run show ?thesis by (intro exI [of _ True]) (rule conjI)
qed


section \<open>The event threads\<close>

lemma touched_identity:
  "m_ConnectionMutex ob = False \<Longrightarrow> (SetConnection c (ob\<lparr>m_ConnectionMutex := True\<rparr>))\<lparr>m_ConnectionMutex := False\<rparr>
     = SetConnection c ob"
  by (simp add: SetConnection_def)

text \<open>After a hot plug event the recorded state of each connector is its state.\<close>

lemma hotplug_sync:
  assumes "connectors D out conn" "hotplug_loop os D mem fd obs cb w = ret ((obs', cb'), w')"
  shows "obs' = set_connections conn obs"
  using assms(2)
proof (induction obs arbitrary: cb w obs')
  case Nil
  then show ?case by (simp add: set_connections_def)
next
  case (Cons ob obs)
  obtain c w1 where c: "drmModeGetConnector D fd (m_DrmId ob) w = (c, w1)" "c = conn (m_DrmId ob)"
    using connectorsD [OF assms(1)] by (metis surj_pair)
  have lk: "\<not> m_ConnectionMutex ob" using Cons.prems by (auto elim!: hdcp_elims)
  have same: "SetConnection (m_Connection ob) ob = ob" by (simp add: SetConnection_def)
  from Cons.prems c(1) lk obtain cb1 w2 obs1 where
    rest: "hotplug_loop os D mem fd obs cb1 w2 = ret ((obs1, cb'), w')"
    and "obs' = (case c of None \<Rightarrow> ob | Some k \<Rightarrow> SetConnection k ob) # obs1"
    by (auto elim!: hdcp_elims split: option.splits if_splits simp: same)
  with Cons.IH [OF rest] c(2) show ?case by (simp add: set_connections_def)
qed

lemma hotplug_quiet:
  assumes "connectors D out conn" "hotplug_loop os D mem fd obs cb w = ret ((obs', cb'), w')"
    "\<forall>ob \<in> set obs. conn (m_DrmId ob) \<in> {None, Some (m_Connection ob)}"
  shows "cb' = cb \<and> out w' = out w"
  using assms(2,3)
proof (induction obs arbitrary: cb w obs')
  case (Cons ob obs)
  obtain c w1 where c: "drmModeGetConnector D fd (m_DrmId ob) w = (c, w1)" "c = conn (m_DrmId ob)"
    "out w1 = out w" using connectorsD [OF assms(1)] by (metis surj_pair)
  have lk: "\<not> m_ConnectionMutex ob" using Cons.prems by (auto elim!: hdcp_elims)
  from Cons.prems c lk obtain obs1 where
    "hotplug_loop os D mem fd obs cb w1 = ret ((obs1, cb'), w')"
    by (auto elim!: hdcp_elims split: option.splits if_splits)
  with Cons.IH Cons.prems(2) c(3) show ?case by simp
qed simp

text \<open>The events a hot plug owes to the callback connections: one per connector whose state is known, is
  not the recorded one, and says whether something is plugged in.\<close>

definition plug_events :: "(u32 \<Rightarrow> u32 option) \<Rightarrow> DrmObject list \<Rightarrow> (PORT_EVENT \<times> u32) list" where
  "plug_events conn obs = concat (map (\<lambda>ob. case conn (m_DrmId ob) of None \<Rightarrow> [] | Some k \<Rightarrow>
     if k = m_Connection ob then []
     else if k = DRM_MODE_DISCONNECTED then [(PORT_EVENT_PLUG_OUT, m_PortId ob)]
     else if k = DRM_MODE_CONNECTED then [(PORT_EVENT_PLUG_IN, m_PortId ob)] else []) obs)"

lemma hotplug_reported:
  assumes "connectors D out conn" "sends_in_order os out" "sends_only os out" "\<And>u. sd_wf (mem u)"
    and "hotplug_loop os D mem fd obs cb w = ret ((obs', cb'), w')" "distinct (m_CallBackList cb)"
  shows "reported os out (plug_events conn obs) cb w cb' w'"
  using assms(5,6)
proof (induction obs arbitrary: cb w obs')
  case Nil
  then show ?case by (simp add: plug_events_def reported_nothing)
next
  case (Cons ob obs)
  obtain c w1 where c: "drmModeGetConnector D fd (m_DrmId ob) w = (c, w1)" "c = conn (m_DrmId ob)"
    "out w1 = out w" using connectorsD [OF assms(1)] by (metis surj_pair)
  have lk: "\<not> m_ConnectionMutex ob" using Cons.prems(1) by (auto elim!: hdcp_elims)
  note rep = ReportStatus_reported [OF assms(2-4) Cons.prems(2)]
  have "\<exists>cb1 w2 obs1. reported os out (plug_events conn [ob]) cb w1 cb1 w2 \<and> distinct (m_CallBackList cb1) \<and>
      hotplug_loop os D mem fd obs cb1 w2 = ret ((obs1, cb'), w')"
  proof (cases c)
    case None
    with Cons.prems c lk obtain obs1 where "hotplug_loop os D mem fd obs cb w1 = ret ((obs1, cb'), w')"
      by (auto elim!: hdcp_elims)
    with None c(2) Cons.prems(2) reported_nothing [of out w1 w1] show ?thesis by (auto simp: plug_events_def)
  next
    case (Some k)
    show ?thesis
    proof (cases "k = m_Connection ob \<or> k \<noteq> DRM_MODE_DISCONNECTED \<and> k \<noteq> DRM_MODE_CONNECTED")
      case True
      with Some Cons.prems(1) c lk obtain obs1 where "hotplug_loop os D mem fd obs cb w1 = ret ((obs1, cb'), w')"
        by (auto elim!: hdcp_elims split: if_splits)
      with True Some c(2) Cons.prems(2) reported_nothing [of out w1 w1] show ?thesis by (auto simp: plug_events_def)
    next
      case False
      with Some Cons.prems(1) c lk obtain cb1 w2 obs1 where
        r: "ReportStatus os mem cb (if k = DRM_MODE_DISCONNECTED then PORT_EVENT_PLUG_OUT else PORT_EVENT_PLUG_IN)
          (m_PortId ob) w1 = ret (cb1, w2)"
        and rest: "hotplug_loop os D mem fd obs cb1 w2 = ret ((obs1, cb'), w')"
        by (auto elim!: hdcp_elims split: if_splits)
      from rep [OF r] rest False Some c(2) show ?thesis by (auto simp: plug_events_def split: if_splits)
    qed
  qed
  then obtain cb1 w2 obs1 where one: "reported os out (plug_events conn [ob]) cb w1 cb1 w2"
    "distinct (m_CallBackList cb1)" "hotplug_loop os D mem fd obs cb1 w2 = ret ((obs1, cb'), w')" by blast
  have "plug_events conn (ob # obs) = plug_events conn [ob] @ plug_events conn obs" by (simp add: plug_events_def)
  with reported_trans [OF reported_before [OF one(1) c(3)] Cons.IH [OF one(3,2)]] show ?case by simp
qed

text \<open>C32: After a hot plug event the manager's record of every connector agrees with the connector, and
  nothing else in it has changed; each change of a connector to connected or to disconnected was
  reported to the callback connections, in the order of the ports, and nothing else was. A change is
  reported once: if the event is raised again while the connectors stay as they are, nothing is sent to
  anybody and the callback list is untouched.\<close>

theorem hotplug_reports_once:
  assumes "connectors D out conn" "sends_in_order os out" "sends_only os out" "\<And>u. sd_wf (mem u)"
    and "distinct (m_CallBackList cb)"
    and "ProcessHotPlug os D mem pm cb w = ret ((pm1, cb1), w1)"
    and "ProcessHotPlug os D mem pm1 cb1 w2 = ret ((pm2, cb2), w3)"
  shows "pm1 = pm\<lparr>m_DrmObjects := set_connections conn (m_DrmObjects pm)\<rparr> \<and>
    reported os out (plug_events conn (m_DrmObjects pm)) cb w cb1 w1 \<and>
    pm2 = pm1 \<and> cb2 = cb1 \<and> out w3 = out w2"
proof -
  have p1: "pm1 = pm\<lparr>m_DrmObjects := set_connections conn (m_DrmObjects pm)\<rparr>"
    using assms(6) unfolding ProcessHotPlug_def
    by (auto elim!: hdcp_elims dest: hotplug_sync [OF assms(1)])
  have r1: "reported os out (plug_events conn (m_DrmObjects pm)) cb w cb1 w1"
    using assms(6) unfolding ProcessHotPlug_def
    by (auto elim!: hdcp_elims intro: hotplug_reported [OF assms(1-4) _ assms(5)])
  have twice: "set_connections conn (set_connections conn obs) = set_connections conn obs" for obs
    by (induction obs) (auto simp: set_connections_def SetConnection_def split: option.split)
  from assms(7) obtain obs2 where
    run: "hotplug_loop os D mem (m_DrmFd pm1) (m_DrmObjects pm1) cb1 w2 = ret ((obs2, cb2), w3)"
    and p2: "pm2 = pm1\<lparr>m_DrmObjects := obs2\<rparr>"
    unfolding ProcessHotPlug_def by (auto elim!: hdcp_elims)
  have "\<forall>ob \<in> set (m_DrmObjects pm1). conn (m_DrmId ob) \<in> {None, Some (m_Connection ob)}"
    by (auto simp: p1 set_connections_def SetConnection_def split: option.split)
  from hotplug_quiet [OF assms(1) run this] hotplug_sync [OF assms(1) run] p1 p2 r1 twice
  show ?thesis by simp
qed

text \<open>The display of the demo port is plugged in; 5 and 7 are registered, but 7 is broken.\<close>

definition plug_drm :: "(int \<Rightarrow> u8 list) drm_api" where
  "plug_drm = idle_drm\<lparr>drmModeGetConnector := (\<lambda>fd i. Pair (Some DRM_MODE_CONNECTED))\<rparr>"

definition plugged_in :: "int \<Rightarrow> u8 list" where
  "plugged_in = (\<lambda>fd. [])(5 := encode (status_message example_mem PORT_EVENT_PLUG_IN 0))"

theorem hotplug_reports_once_witness:
  "reported two_os (\<lambda>w. w) [(PORT_EVENT_PLUG_IN, 0)] \<lparr>m_CallBackList = [5, 7], m_CallBackListMutex = False\<rparr> (\<lambda>fd. [])
     \<lparr>m_CallBackList = [5], m_CallBackListMutex = False\<rparr> plugged_in"
proof -
  let ?pm = "demo_pm\<lparr>m_DrmObjects := [SetConnection 1 demo_object]\<rparr>"
    and ?cb = "\<lparr>m_CallBackList = [5, 7], m_CallBackListMutex = False\<rparr>"
    and ?cb1 = "\<lparr>m_CallBackList = [5], m_CallBackListMutex = False\<rparr>"
  have law: "connectors plug_drm (\<lambda>w. w) (\<lambda>i. Some 1)"
    by (simp add: connectors_def plug_drm_def)
  have o: "\<not> m_ConnectionMutex demo_object" "m_Connection demo_object = UINT32_MAX" "m_PortId demo_object = 0"
    by (simp_all add: demo_object_def DrmObject_new_def)
  have c: "drmModeGetConnector plug_drm fd i w = (Some 1, w)" for fd i w by (simp add: plug_drm_def)
  have 1: "ProcessHotPlug two_os plug_drm (\<lambda>w. example_mem) demo_pm ?cb (\<lambda>fd. []) = ret ((?pm, ?cb1), plugged_in)"
    using o by (simp add: ProcessHotPlug_def demo_pm_def c two_report ConnAtomicBegin_def ConnAtomicEnd_def plugged_in_def)
  have 2: "ProcessHotPlug two_os plug_drm (\<lambda>w. example_mem) ?pm ?cb1 w = ret ((?pm, ?cb1), w)" for w
    using o by (simp add: ProcessHotPlug_def demo_pm_def c ConnAtomicBegin_def ConnAtomicEnd_def SetConnection_def)
  have e: "plug_events (\<lambda>i. Some 1) (m_DrmObjects demo_pm) = [(PORT_EVENT_PLUG_IN, 0)]"
    using o by (simp add: plug_events_def demo_pm_def)
  have "distinct (m_CallBackList ?cb)" by simp
  from hotplug_reports_once [OF law two_laws example_mem_wf this 1 2] show ?thesis by (simp add: e)
qed

text \<open>
  \<open>properties\<close>: the driver's values stay the same while the operation runs; \<open>link_lost\<close>: what it
  reports is not 'enabled'.
\<close>

definition properties ::
  "'w drm_api \<Rightarrow> ('w \<Rightarrow> int \<Rightarrow> u8 list) \<Rightarrow> (u32 \<Rightarrow> (u32 \<times> u64) list option) \<Rightarrow> bool" where
  "properties D out props \<longleftrightarrow> (\<forall>fd i w. fst (drmModeObjectGetProperties D fd i w) = props i \<and>
     out (snd (drmModeObjectGetProperties D fd i w)) = out w)"

definition link_lost :: "(u32 \<Rightarrow> (u32 \<times> u64) list option) \<Rightarrow> DrmObject \<Rightarrow> bool" where
  "link_lost props ob \<longleftrightarrow> GetCpType ob \<noteq> CP_TYPE_INVALID \<and> (case props (m_DrmId ob) of None \<Rightarrow> False
     | Some ps \<Rightarrow> fst (read_protection ob ps CP_VALUE_INVALID CP_TYPE_INVALID) \<noteq> CP_ENABLED)"

definition drop_lost :: "(u32 \<Rightarrow> (u32 \<times> u64) list option) \<Rightarrow> DrmObject list \<Rightarrow> DrmObject list" where
  "drop_lost props obs = map (\<lambda>ob. if link_lost props ob then SetCpType CP_TYPE_INVALID ob else ob) obs"

lemma GetProtectionInfo_props:
  assumes "properties D out props" "GetProtectionInfo D pm ob w = ((sts, v, t), w')"
  shows "out w' = out w \<and> (sts = SUCCESS \<longleftrightarrow> props (m_DrmId ob) \<noteq> None) \<and>
    (\<forall>ps. props (m_DrmId ob) = Some ps \<longrightarrow> v = fst (read_protection ob ps CP_VALUE_INVALID CP_TYPE_INVALID))"
proof -
  obtain q w1 where q: "drmModeObjectGetProperties D (m_DrmFd pm) (m_DrmId ob) w = (q, w1)" by fastforce
  then have "q = props (m_DrmId ob)" "out w1 = out w"
    using assms(1) unfolding properties_def by (metis fst_conv, metis snd_conv)
  with q assms(2) show ?thesis
    by (cases "props (m_DrmId ob)") (auto simp: GetProtectionInfo_def split: prod.splits if_splits)
qed

lemma integrity_effect:
  assumes "properties D out props" "integrity_loop os D mem pm obs cb w = ret ((obs', cb'), w')"
  shows "obs' = drop_lost props obs \<and>
    ((\<forall>ob \<in> set obs. \<not> link_lost props ob) \<longrightarrow> cb' = cb \<and> out w' = out w)"
  using assms(2)
proof (induction obs arbitrary: cb w obs')
  case Nil
  then show ?case by (simp add: drop_lost_def)
next
  case (Cons ob obs)
  obtain sts v t w1 where g: "GetProtectionInfo D pm ob w = ((sts, v, t), w1)" by (metis surj_pair)
  note p = GetProtectionInfo_props [OF assms(1) g]
  have lk: "\<not> m_CpTypeMutex ob" using Cons.prems by (auto elim!: hdcp_elims)
  show ?case
  proof (cases "link_lost props ob")
    case True
    then have "GetCpType ob \<noteq> 255" "sts = SUCCESS" "v \<noteq> 2"
      using p by (auto simp: link_lost_def split: option.splits)
    with Cons.prems g lk obtain cb1 w2 obs1 where
      rest: "integrity_loop os D mem pm obs cb1 w2 = ret ((obs1, cb'), w')"
      and "obs' = SetCpType 255 ob # obs1"
      by (auto elim!: hdcp_elims)
    with Cons.IH [OF rest] True show ?thesis by (simp add: drop_lost_def)
  next
    case False
    then have d: "GetCpType ob = 255 \<or> sts \<noteq> SUCCESS \<or> v = 2"
      using p by (auto simp: link_lost_def split: option.splits)
    with Cons.prems g lk p obtain w2 obs1 where
      rest: "integrity_loop os D mem pm obs cb w2 = ret ((obs1, cb'), w')" "out w2 = out w"
      and "obs' = ob # obs1"
      by (auto elim!: hdcp_elims split: if_splits)
    with Cons.IH [OF rest(1)] False show ?thesis by (simp add: drop_lost_def)
  qed
qed

definition lost_events :: "(u32 \<Rightarrow> (u32 \<times> u64) list option) \<Rightarrow> DrmObject list \<Rightarrow> (PORT_EVENT \<times> u32) list" where
  "lost_events props obs = map (\<lambda>ob. (PORT_EVENT_LINK_LOST, m_PortId ob)) (filter (link_lost props) obs)"

lemma integrity_reported:
  assumes "properties D out props" "sends_in_order os out" "sends_only os out" "\<And>u. sd_wf (mem u)"
    and "integrity_loop os D mem pm obs cb w = ret ((obs', cb'), w')" "distinct (m_CallBackList cb)"
  shows "reported os out (lost_events props obs) cb w cb' w'"
  using assms(5,6)
proof (induction obs arbitrary: cb w obs')
  case Nil
  then show ?case by (simp add: lost_events_def reported_nothing)
next
  case (Cons ob obs)
  obtain sts v t w1 where g: "GetProtectionInfo D pm ob w = ((sts, v, t), w1)" by (metis surj_pair)
  note p = GetProtectionInfo_props [OF assms(1) g]
  have lk: "\<not> m_CpTypeMutex ob" using Cons.prems(1) by (auto elim!: hdcp_elims)
  show ?case
  proof (cases "link_lost props ob")
    case True
    then have "GetCpType ob \<noteq> 255" "sts = SUCCESS" "v \<noteq> 2"
      using p by (auto simp: link_lost_def split: option.splits)
    with Cons.prems(1) g lk obtain cb1 w2 obs1 where
      r: "ReportStatus os mem cb PORT_EVENT_LINK_LOST (m_PortId ob) w1 = ret (cb1, w2)"
      and rest: "integrity_loop os D mem pm obs cb1 w2 = ret ((obs1, cb'), w')"
      by (auto elim!: hdcp_elims)
    note rep = ReportStatus_reported [OF assms(2-4) Cons.prems(2) r]
    have "out w1 = out w" using p by blast
    from reported_trans [OF reported_before [OF rep(1) this] Cons.IH [OF rest rep(2)]] True
    show ?thesis by (simp add: lost_events_def)
  next
    case False
    then have d: "GetCpType ob = 255 \<or> sts \<noteq> SUCCESS \<or> v = 2"
      using p by (auto simp: link_lost_def split: option.splits)
    with Cons.prems(1) g lk p obtain w2 obs1 where
      rest: "integrity_loop os D mem pm obs cb w2 = ret ((obs1, cb'), w')" "out w2 = out w"
      by (auto elim!: hdcp_elims split: if_splits)
    from reported_before [OF Cons.IH [OF rest(1) Cons.prems(2)] rest(2)] False
    show ?thesis by (simp add: lost_events_def)
  qed
qed

text \<open>C33: An integrity check unrecords exactly the ports that were recorded as protected and that the
  driver no longer reports as enabled, and changes nothing else: the applications stay counted. For each
  of these ports a lost link is reported to the callback connections, in the order of the ports, and
  nothing else is. It is reported once: a second check while the driver's answers stay the same sends
  nothing.\<close>

theorem integrity_reports_once:
  assumes "properties D out props" "sends_in_order os out" "sends_only os out" "\<And>u. sd_wf (mem u)"
    and "distinct (m_CallBackList cb)"
    and "CheckIntegrity os D mem pm cb w = ret ((pm1, cb1), w1)"
    and "CheckIntegrity os D mem pm1 cb1 w2 = ret ((pm2, cb2), w3)"
  shows "pm1 = pm\<lparr>m_DrmObjects := drop_lost props (m_DrmObjects pm)\<rparr> \<and>
    reported os out (lost_events props (m_DrmObjects pm)) cb w cb1 w1 \<and>
    pm2 = pm1 \<and> cb2 = cb1 \<and> out w3 = out w2"
proof -
  have p1: "pm1 = pm\<lparr>m_DrmObjects := drop_lost props (m_DrmObjects pm)\<rparr>"
    using assms(6) unfolding CheckIntegrity_def
    by (auto elim!: hdcp_elims dest: integrity_effect [OF assms(1)])
  have r1: "reported os out (lost_events props (m_DrmObjects pm)) cb w cb1 w1"
    using assms(6) unfolding CheckIntegrity_def
    by (auto elim!: hdcp_elims intro: integrity_reported [OF assms(1-4) _ assms(5)])
  from assms(7) obtain obs2 where
    run: "integrity_loop os D mem pm1 (m_DrmObjects pm1) cb1 w2 = ret ((obs2, cb2), w3)"
    and p2: "pm2 = pm1\<lparr>m_DrmObjects := obs2\<rparr>"
    unfolding CheckIntegrity_def by (auto elim!: hdcp_elims)
  have none: "\<not> link_lost props ob" if "ob \<in> set (drop_lost props obs)" for ob obs
    using that by (auto simp: drop_lost_def link_lost_def split: if_splits)
  then have "drop_lost props (drop_lost props obs) = drop_lost props obs" for obs
    unfolding drop_lost_def [of props "drop_lost props obs"] by (auto intro: map_idI)
  with integrity_effect [OF assms(1) run] none p1 p2 r1 show ?thesis by auto
qed

text \<open>Port 0 was enabled at type 0 and the driver reports it off.\<close>

definition lost_drm :: "(int \<Rightarrow> u8 list) drm_api" where
  "lost_drm = idle_drm\<lparr>drmModeObjectGetProperties := (\<lambda>fd i. Pair (Some [(1, 0), (2, 0)]))\<rparr>"

definition lost_link :: "int \<Rightarrow> u8 list" where
  "lost_link = (\<lambda>fd. [])(5 := encode (status_message example_mem PORT_EVENT_LINK_LOST 0))"

theorem integrity_reports_once_witness:
  "reported two_os (\<lambda>w. w) [(PORT_EVENT_LINK_LOST, 0)] \<lparr>m_CallBackList = [5, 7], m_CallBackListMutex = False\<rparr> (\<lambda>fd. [])
     \<lparr>m_CallBackList = [5], m_CallBackListMutex = False\<rparr> lost_link"
proof -
  let ?ob = "SetCpType 0 demo_object" and ?off = "SetCpType CP_TYPE_INVALID demo_object"
  let ?pm = "demo_pm\<lparr>m_DrmObjects := [?ob]\<rparr>" and ?pm1 = "demo_pm\<lparr>m_DrmObjects := [?off]\<rparr>"
    and ?cb = "\<lparr>m_CallBackList = [5, 7], m_CallBackListMutex = False\<rparr>"
    and ?cb1 = "\<lparr>m_CallBackList = [5], m_CallBackListMutex = False\<rparr>"
  let ?props = "\<lambda>i. Some [(1, 0), (2, 0)]"
  have law: "properties lost_drm (\<lambda>w. w) ?props" by (simp add: properties_def lost_drm_def)
  have info: "GetProtectionInfo lost_drm pm ((?ob)\<lparr>m_CpTypeMutex := b\<rparr>) w = ((SUCCESS, CP_OFF, 0), w)" for pm b w
    by (simp add: GetProtectionInfo_def lost_drm_def demo_object_def DrmObject_new_def SetCpType_def GetPropertyId_def
        CONTENT_PROTECTION_def CP_CONTENT_TYPE_def)
  have lost: "link_lost ?props ?ob" by code_simp
  have 1: "CheckIntegrity two_os lost_drm (\<lambda>w. example_mem) ?pm ?cb (\<lambda>fd. []) = ret ((?pm1, ?cb1), lost_link)"
    using info [of _ True] by (simp add: CheckIntegrity_def two_report lost_link_def CpTypeAtomicBegin_def CpTypeAtomicEnd_def
        demo_object_def DrmObject_new_def SetCpType_def GetCpType_def)
  have 2: "CheckIntegrity two_os lost_drm (\<lambda>w. example_mem) ?pm1 ?cb1 w = ret ((?pm1, ?cb1), w)" for w
    by (simp add: CheckIntegrity_def CpTypeAtomicBegin_def CpTypeAtomicEnd_def
        demo_object_def DrmObject_new_def SetCpType_def GetCpType_def)
  have e: "lost_events ?props (m_DrmObjects ?pm) = [(PORT_EVENT_LINK_LOST, 0)]"
    using lost by (simp add: lost_events_def) (simp add: demo_object_def DrmObject_new_def SetCpType_def)
  have "distinct (m_CallBackList ?cb)" by simp
  from integrity_reports_once [OF law two_laws example_mem_wf this 1 2] show ?thesis by (simp only: e)
qed

section \<open>A device that is missing\<close>

text \<open>If the graphics device cannot be opened, initialising the port manager does not return the
  error it means to return: the destructor joins the handles of two threads that were never created,
  which is undefined; and if only the second thread could not be created, it waits for ever for the
  first, which waits at the barrier.\<close>

theorem missing_device_undefined:
  assumes "os_new os 1 w = (True, w1)" "PortManager_new os D w1 = Ret ((pm, th), w2)" "\<not> pm_IsValid pm"
  shows "PortManagerInit os D None w = (if th_integrity th then None else Some Undef)"
proof -
  have "\<not> th_uevent th"
    using assms(2,3) unfolding PortManager_new_def Let_def
    by (auto elim!: hdcp_elims split: prod.splits if_splits)
  then show ?thesis using assms by (simp add: PortManagerInit_def PortManager_delete_def)
qed

theorem missing_device_undefined_witness:
  "PortManagerInit idle_os idle_drm None () = Some Undef"
proof -
  have "PortManager_new idle_os idle_drm () = Ret ((\<lparr>pm_IsValid = False, m_DrmFd = -1, m_DrmObjects = []\<rparr>,
      \<lparr>th_integrity = False, th_uevent = False\<rparr>), ())" by code_simp
  from missing_device_undefined [OF _ this, of "()"] show ?thesis by (simp add: idle_simps)
qed

end
