(* ===== verification/UEvent.thy ===== *)
theory UEvent
  imports PortEvents
begin

text \<open>
  The thread that waits for hot plug events of the kernel: \<^verbatim>\<open>InitUEventHandler\<close> of
  \<^verbatim>\<open>src/daemon/portmanager.cpp\<close>, and the destruction of the port manager, which has to wait for it.
  The netlink socket is a parameter.
\<close>

section \<open>Taking a message apart\<close>

abbreviation (input) UEVENT_MSG_SIZE :: nat where "UEVENT_MSG_SIZE \<equiv> 1024"
abbreviation (input) MAX_MSG_STRS :: nat where "MAX_MSG_STRS \<equiv> 16"

text \<open>\<^verbatim>\<open>msg.find('\0', index)\<close>, \<open>None\<close> for \<^verbatim>\<open>npos\<close>, and the loop that cuts the buffer at each null byte.\<close>

definition find_nul :: "u8 list \<Rightarrow> nat \<Rightarrow> nat option" where
  "find_nul msg i = (if 0 \<in> set (drop i msg)
     then Some (i + length (takeWhile (\<lambda>b. b \<noteq> 0) (drop i msg))) else None)"

function split_loop :: "u8 list \<Rightarrow> nat \<Rightarrow> u8 list list \<Rightarrow> u8 list list" where
  "split_loop msg index messages =
     (case find_nul msg index of None \<Rightarrow> messages
      | Some nextTerminator \<Rightarrow>
          let messages = messages @ [take (nextTerminator - index) (drop index msg)];
              index = nextTerminator + 1 in
          if index < UEVENT_MSG_SIZE \<and> length messages \<le> MAX_MSG_STRS
          then split_loop msg index messages else messages)"
  by pat_completeness auto

termination
  by (relation "measure (\<lambda>(msg, index, messages). 17 - length messages)") auto

declare split_loop.simps [simp del]

text \<open>The buffer is cleared before it is filled, and its last byte is overwritten with a null.\<close>

definition uevent_buffer :: "u8 list \<Rightarrow> u8 list" where
  "uevent_buffer bs = (bs @ replicate (UEVENT_MSG_SIZE - length bs) 0)[UEVENT_MSG_SIZE - 1 := 0]"

definition split_messages :: "u8 list \<Rightarrow> u8 list list" where
  "split_messages buf = split_loop buf 0 []"

datatype uevent = Ev_None | Ev_HotPlug | Ev_S0 | Ev_S3

definition bytes :: "string \<Rightarrow> u8 list" where
  "bytes s = map of_char s"

definition classify :: "u8 list list \<Rightarrow> uevent" where
  "classify messages =
     (if length messages < 8 then Ev_None
      else if messages ! 1 = bytes ''ACTION=change'' \<and> messages ! 4 = bytes ''HOTPLUG=1'' \<and>
        messages ! 7 = bytes ''DEVNAME=dri/card0'' then Ev_HotPlug
      else if messages ! 1 = bytes ''ACTION=change'' \<and> messages ! 4 = bytes ''GSTATE=0'' then Ev_S0
      else if messages ! 1 = bytes ''ACTION=change'' \<and> messages ! 4 = bytes ''GSTATE=3'' then Ev_S3
      else Ev_None)"

section \<open>The thread\<close>

record 'w netlink_api =
  nl_socket :: "'w \<Rightarrow> int \<times> 'w"
  nl_setsockopt :: "int \<Rightarrow> 'w \<Rightarrow> int \<times> 'w"
  nl_bind :: "int \<Rightarrow> 'w \<Rightarrow> int \<times> 'w"
  nl_recv :: "int \<Rightarrow> nat \<Rightarrow> 'w \<Rightarrow> (int + u8 list) \<times> 'w"

text \<open>
  One turn of the loop, \<open>destroy\<close> being \<^verbatim>\<open>isDestroyThreads\<close>; the flag of the result says whether the
  loop goes on. A \<^verbatim>\<open>recv\<close> that fails, also because a signal interrupted it, starts over before the
  flag is looked at.
\<close>

definition uevent_turn ::
  "'w os_api \<Rightarrow> 'w drm_api \<Rightarrow> ('w \<Rightarrow> SocketData) \<Rightarrow> 'w netlink_api \<Rightarrow> int \<Rightarrow> bool \<Rightarrow>
     PortManager option \<Rightarrow> CallBacks \<Rightarrow> 'w \<Rightarrow> ((bool \<times> PortManager option \<times> CallBacks) \<times> 'w) outcome option" where
  "uevent_turn os D mem N eventSocket destroy g cb w =
     (let (r, w) = nl_recv N eventSocket UEVENT_MSG_SIZE w in
      case r of Inl e \<Rightarrow> ret ((True, g, cb), w)
      | Inr bs \<Rightarrow>
          if bs = [] then ret ((True, g, cb), w)
          else if destroy then ret ((False, g, cb), w)
          else if classify (split_messages (uevent_buffer bs)) = Ev_HotPlug
          then obind (PortManagerProcessHotPlug os D mem g cb w) (\<lambda>((g, cb), w). ret ((True, g, cb), w))
          else ret ((True, g, cb), w))"

partial_function (option) uevent_loop ::
  "'w os_api \<Rightarrow> 'w drm_api \<Rightarrow> ('w \<Rightarrow> SocketData) \<Rightarrow> 'w netlink_api \<Rightarrow> int \<Rightarrow> bool \<Rightarrow>
     PortManager option \<Rightarrow> CallBacks \<Rightarrow> 'w \<Rightarrow> ((PortManager option \<times> CallBacks) \<times> 'w) outcome option" where
  "uevent_loop os D mem N eventSocket destroy g cb w =
     obind (uevent_turn os D mem N eventSocket destroy g cb w) (\<lambda>((goes_on, g, cb), w).
     if goes_on then uevent_loop os D mem N eventSocket destroy g cb w else ret ((g, cb), w))"

text \<open>What the thread does before its loop: the descriptor it opened, and whether it enters the loop.\<close>

definition uevent_open :: "'w netlink_api \<Rightarrow> 'w \<Rightarrow> (bool \<times> int) \<times> 'w" where
  "uevent_open N w =
     (let (fd, w) = nl_socket N w in
      if fd = -1 then ((False, fd), w) else
      let (r, w) = nl_setsockopt N fd w in
      if r = -1 then ((False, fd), w) else
      let (r, w) = nl_bind N fd w in
      if r = -1 then ((False, fd), w) else ((True, fd), w))"

text \<open>
  The periodic check. The sleep of one turn comes after the check, the flag is read before it.
\<close>

definition integrity_turn ::
  "'w os_api \<Rightarrow> 'w drm_api \<Rightarrow> ('w \<Rightarrow> SocketData) \<Rightarrow> bool \<Rightarrow>
     PortManager option \<Rightarrow> CallBacks \<Rightarrow> 'w \<Rightarrow> ((bool \<times> PortManager option \<times> CallBacks) \<times> 'w) outcome option" where
  "integrity_turn os D mem destroy g cb w =
     (if destroy then ret ((False, g, cb), w)
      else case g of None \<Rightarrow> Some Undef | Some pm \<Rightarrow>
      obind (CheckIntegrity os D mem pm cb w) (\<lambda>((pm, cb), w).
      ret ((True, Some pm, cb), os_sleep_ms os 500 w)))"

text \<open>
  \<^verbatim>\<open>PortManagerRelease\<close> after a successful start, between two turns of the threads: the destructor
  closes the device, sets \<^verbatim>\<open>isDestroyThreads\<close> and joins the threads, so what is left of the event
  thread's run comes before its return; \<open>entered\<close> and \<open>eventSocket\<close> are what \<open>uevent_open\<close> gave.
\<close>

definition PortManagerRelease ::
  "'w os_api \<Rightarrow> 'w drm_api \<Rightarrow> ('w \<Rightarrow> SocketData) \<Rightarrow> 'w netlink_api \<Rightarrow> bool \<times> int \<Rightarrow>
     PortManager option \<Rightarrow> CallBacks \<Rightarrow> 'w \<Rightarrow> (PortManager option \<times> 'w) outcome option" where
  "PortManagerRelease os D mem N th g cb w =
     (let (entered, eventSocket) = th in
      case g of None \<Rightarrow> ret (None, w) | Some pm \<Rightarrow>
      obind (PortManager_delete os pm \<lparr>th_integrity = True, th_uevent = True\<rparr> w) (\<lambda>w.
      obind (if entered then uevent_loop os D mem N eventSocket True g cb w else ret ((g, cb), w))
        (\<lambda>((g, cb), w).
      let w = (if eventSocket \<noteq> -1 then snd (os_close os eventSocket w) else w) in
      ret (None, w))))"

section \<open>The strings of a message\<close>

definition packed :: "u8 list list \<Rightarrow> u8 list" where
  "packed ss = concat (map (\<lambda>s. s @ [0]) ss)"

lemma packed_simps [simp]:
  "packed [] = []" "packed (s # ss) = s @ 0 # packed ss" "packed (ss @ ts) = packed ss @ packed ts"
  "packed (replicate n []) = replicate n 0"
  by (simp_all add: packed_def)

lemma find_nul_chunk:
  assumes "drop i msg = s @ 0 # rest" "0 \<notin> set s"
  shows "find_nul msg i = Some (i + length s)"
proof -
  have "takeWhile (\<lambda>b. b \<noteq> 0) (s @ 0 # rest) = s"
    using assms(2) by (induction s) auto
  with assms show ?thesis by (simp add: find_nul_def)
qed

lemma split_loop_chunks:
  assumes "drop i msg = packed ss" "\<forall>s \<in> set ss. 0 \<notin> set s" "length msg = 1024"
    "ss \<noteq> []" "length ms \<le> 16"
  shows "split_loop msg i ms = take 17 (ms @ ss)"
  using assms
proof (induction ss arbitrary: i ms)
  case (Cons s ss)
  have f: "find_nul msg i = Some (i + length s)"
    using find_nul_chunk [of i msg s "packed ss"] Cons.prems by simp
  have i: "i + length s + 1 + length (packed ss) = 1024"
  proof -
    have "length (drop i msg) = 1024 - i" using Cons.prems(3) by simp
    with Cons.prems(1) show ?thesis by simp
  qed
  have "drop (i + length s + 1) msg = drop (length s + 1) (drop i msg)" by (simp add: add.commute add.left_commute)
  then have d: "drop (Suc (i + length s)) msg = packed ss" using Cons.prems(1) by simp
  have t: "take (i + length s - i) (drop i msg) = s" using Cons.prems(1) by simp
  show ?case
  proof (cases "ss = [] \<or> length ms = 16")
    case True
    then have "\<not> (i + length s + 1 < 1024 \<and> length (ms @ [s]) \<le> 16)" using i by auto
    then have "split_loop msg i ms = ms @ [s]"
      by (subst split_loop.simps) (use f t in \<open>auto simp: Let_def\<close>)
    with True Cons.prems(5) show ?thesis by auto
  next
    case False
    then have "packed ss \<noteq> []" by (cases ss) auto
    then have "i + length s + 1 < 1024 \<and> length (ms @ [s]) \<le> 16"
      using i False Cons.prems(5) by (cases "packed ss") auto
    then have "split_loop msg i ms = split_loop msg (Suc (i + length s)) (ms @ [s])"
      by (subst split_loop.simps) (use f t in \<open>simp add: Let_def\<close>)
    also have "\<dots> = take 17 ((ms @ [s]) @ ss)"
      using False Cons.prems by (intro Cons.IH d) auto
    finally show ?thesis by simp
  qed
qed simp

lemma split_packed:
  assumes "\<forall>s \<in> set ss. 0 \<notin> set s" "length (packed ss) < 1024"
  shows "split_messages (uevent_buffer (packed ss)) =
    take 17 (ss @ replicate (1024 - length (packed ss)) [])"
proof -
  have "uevent_buffer (packed ss) = packed (ss @ replicate (1024 - length (packed ss)) [])"
    using assms(2) by (auto simp: uevent_buffer_def list_update_append list_update_same_conv)
  then show ?thesis
    using split_loop_chunks [of 0 _ "ss @ replicate (1024 - length (packed ss)) []" "[]"] assms
    by (simp add: split_messages_def)
qed

definition no_callbacks :: CallBacks where
  "no_callbacks = \<lparr>m_CallBackList = [], m_CallBackListMutex = False\<rparr>"

text \<open>A run of the loop in which no message ever comes has no result.\<close>

lemma uevent_loop_deaf:
  assumes "uevent_loop os D mem N fd destroy g cb w = Some r"
    and "\<forall>w. \<exists>e w1. nl_recv N fd 1024 w = (Inl e, w1)"
  shows False
proof (rule uevent_loop.raw_induct [where P = "\<lambda>os D mem N fd destroy g cb w r.
      (\<forall>w. \<exists>e w1. nl_recv N fd 1024 w = (Inl e, w1)) \<longrightarrow> False", rule_format, OF _ assms(1) spec [OF assms(2)]],
    goal_cases)
  case (1 f os D mem N fd destroy g cb w r)
  obtain e w1 where "nl_recv N fd 1024 w = (Inl e, w1)" using 1(3) by blast
  with 1(2) have "f os D mem N fd destroy g cb w1 = Some r" by (simp add: uevent_turn_def)
  from 1(1) [OF this] 1(3) show False by blast
qed

section \<open>Properties\<close>

text \<open>Round trip of the kernel's messages: a message made of strings, each ended by a null byte,
  is taken apart into exactly these strings, followed by empty ones for the rest of the cleared
  buffer, of which the first 17 are looked at; so the check that there are eight never fails for a
  message that leaves eight bytes of the buffer.\<close>

theorem uevent_split_roundtrip:
  assumes "\<forall>s \<in> set ss. 0 \<notin> set s" "length (packed ss) < 1024"
  shows "split_messages (uevent_buffer (packed ss)) =
      take 17 (ss @ replicate (1024 - length (packed ss)) []) \<and>
    (length (packed ss) \<le> 1016 \<longrightarrow> 8 \<le> length (split_messages (uevent_buffer (packed ss))))"
  using split_packed [OF assms] by (auto simp: min_def)

theorem uevent_split_roundtrip_witness:
  "split_messages (uevent_buffer (packed [bytes ''change@card0'', bytes ''ACTION=change''])) =
     take 17 ([bytes ''change@card0'', bytes ''ACTION=change''] @ replicate 997 [])"
proof -
  have "\<forall>s \<in> set [bytes ''change@card0'', bytes ''ACTION=change'']. 0 \<notin> set s" by code_simp
  moreover have "length (packed [bytes ''change@card0'', bytes ''ACTION=change'']) = 27"
    by (simp add: bytes_def)
  ultimately show ?thesis
    using uevent_split_roundtrip [of "[bytes ''change@card0'', bytes ''ACTION=change'']"] by simp
qed

text \<open>A message of the kernel is taken for a hot plug exactly if its second, fifth and eighth
  strings say so; then the manager's records are brought up to date, and nothing else a message says
  has an effect.\<close>

theorem uevent_hotplug_recognised:
  assumes "\<forall>s \<in> set ss. 0 \<notin> set s" "length (packed ss) < 1024" "8 \<le> length ss"
    and "nl_recv N fd 1024 w = (Inr (packed ss), w1)"
  shows "uevent_turn os D mem N fd False g cb w =
    (if ss ! 1 = bytes ''ACTION=change'' \<and> ss ! 4 = bytes ''HOTPLUG=1'' \<and> ss ! 7 = bytes ''DEVNAME=dri/card0''
     then obind (PortManagerProcessHotPlug os D mem g cb w1) (\<lambda>((g, cb), w). ret ((True, g, cb), w))
     else ret ((True, g, cb), w1))"
proof -
  let ?ms = "split_messages (uevent_buffer (packed ss))"
  have nth: "?ms ! k = ss ! k" if "k < 8" for k
    using that assms(3) by (simp add: split_packed [OF assms(1,2)] nth_append)
  have "\<not> length ?ms < 8"
    using assms(3) by (simp add: split_packed [OF assms(1,2)])
  moreover have "packed ss \<noteq> []" using assms(3) by (cases ss) auto
  ultimately show ?thesis using assms(4) nth by (simp add: uevent_turn_def classify_def)
qed

theorem uevent_hotplug_recognised_witness:
  defines "ss \<equiv> [bytes ''change@card0'', bytes ''ACTION=change'', [], [], bytes ''HOTPLUG=1'', [], [],
     bytes ''DEVNAME=dri/card0'']"
  shows "uevent_turn idle_os demo_drm (\<lambda>w. example_mem)
      \<lparr>nl_socket = Pair 3, nl_setsockopt = (\<lambda>fd. Pair 0), nl_bind = (\<lambda>fd. Pair 0),
       nl_recv = (\<lambda>fd n w. (Inr (packed ss), w))\<rparr> 3 False None no_callbacks 0 = Some Undef"
proof -
  have "\<forall>s \<in> set ss. 0 \<notin> set s" unfolding ss_def by code_simp
  moreover have "length (packed ss) = 59" "length ss = 8" by (simp_all add: ss_def bytes_def)
  ultimately show ?thesis
    using uevent_hotplug_recognised [of ss "\<lparr>nl_socket = Pair 3, nl_setsockopt = (\<lambda>fd. Pair 0),
       nl_bind = (\<lambda>fd. Pair 0), nl_recv = (\<lambda>fd n w. (Inr (packed ss), w))\<rparr>" 3 0 0 idle_os demo_drm
       "\<lambda>w. example_mem" None no_callbacks]
    by (simp add: ss_def PortManagerProcessHotPlug_def)
qed

text \<open>Nothing but a message of the kernel ends the thread: a \<^verbatim>\<open>recv\<close> that fails, be it interrupted by
  the signals the destructor sends, starts over before the flag that asks the thread to end is looked
  at, so while only that happens the thread goes on for ever and releasing the port manager does not
  return.\<close>

theorem uevent_thread_never_ends:
  assumes "\<And>w. \<exists>e w1. nl_recv N fd 1024 w = (Inl e, w1)"
  shows "uevent_loop os D mem N fd destroy g cb w = None \<and>
    PortManagerRelease os D mem N (True, fd) (Some pm) cb w = None"
proof -
  have "uevent_loop os D mem N fd d g cb w = None" for d g w
    using uevent_loop_deaf [of os D mem N fd d g cb w] assms
    by (cases "uevent_loop os D mem N fd d g cb w") auto
  then show ?thesis by (simp add: PortManagerRelease_def PortManager_delete_def)
qed

theorem uevent_thread_never_ends_witness:
  "PortManagerRelease idle_os demo_drm (\<lambda>w. example_mem)
     \<lparr>nl_socket = Pair 3, nl_setsockopt = (\<lambda>fd. Pair 0), nl_bind = (\<lambda>fd. Pair 0),
      nl_recv = (\<lambda>fd n w. (Inl EINTR, w))\<rparr> (True, 3) (Some demo_pm) no_callbacks 0 = None"
  by (rule conjunct2 [OF uevent_thread_never_ends]) simp

end
