(* ===== verification/Daemon.thy ===== *)
theory Daemon
  imports SrmStorage UEvent
begin

text \<open>
  The daemon: the class \<^verbatim>\<open>HdcpDaemon\<close> of \<^verbatim>\<open>src/daemon/daemon.{h,cpp}\<close> with the modules it calls.
  Its state is the server socket, the callback list and the two modules behind global pointers, the
  port manager and the SRM table. An environment bundles the parameters.
\<close>

section \<open>The environment and the state\<close>

text \<open>
  \<open>e_mem\<close> is the memory a new \<^verbatim>\<open>SocketData\<close> is constructed in, \<open>e_heap\<close> what a new buffer holds,
  \<open>e_killed\<close> the flag that the signal handler sets.
\<close>

record 'w env =
  e_os :: "'w os_api"
  e_drm :: "'w drm_api"
  e_gwl :: "'w gwl_api"
  e_ssl :: "'w ssl_api"
  e_nl :: "'w netlink_api"
  e_mem :: "'w \<Rightarrow> SocketData"
  e_heap :: "'w \<Rightarrow> u8 list"
  e_killed :: "'w \<Rightarrow> bool"
  e_wl :: wl_state

record HdcpDaemon =
  m_SdkSocket :: LocalServerSocket
  m_CallBacks :: CallBacks
  m_IsValid :: bool
  g_portMgr :: "PortManager option"
  g_pSrmTable :: "SrmTable option"

definition fresh :: "'w env \<Rightarrow> nat \<Rightarrow> 'w \<Rightarrow> u8 list" where
  "fresh E n w = take n (e_heap E w @ replicate n 0)"

lemma fresh_length [simp]: "length (fresh E n w) = n"
  by (simp add: fresh_def)

text \<open>The constructor, apart from the members' own constructors, and \<^verbatim>\<open>Init\<close>.\<close>

definition HdcpDaemon_new ::
  "'w os_api \<Rightarrow> PortManager option \<Rightarrow> SrmTable option \<Rightarrow> 'w \<Rightarrow> HdcpDaemon \<times> 'w" where
  "HdcpDaemon_new os pm srm w =
     (let (s, w) = LocalServerSocket_new os w; (r, w) = os_mutex_init os w in
      (\<lparr>m_SdkSocket = s, m_CallBacks = \<lparr>m_CallBackList = [], m_CallBackListMutex = False\<rparr>,
        m_IsValid = (r = SUCCESS), g_portMgr = pm, g_pSrmTable = srm\<rparr>, w))"

definition HDCP_SDK_SOCKET_PATH :: string where
  "HDCP_SDK_SOCKET_PATH = ''/var/run/hdcp/.sdk_socket''"

definition HdcpDaemon_Init :: "'w os_api \<Rightarrow> HdcpDaemon \<Rightarrow> 'w \<Rightarrow> (int \<times> HdcpDaemon) \<times> 'w" where
  "HdcpDaemon_Init os d w =
     (let (sts, w) = Bind os (GenericStreamSocket.truncate (m_SdkSocket d)) HDCP_SDK_SOCKET_PATH w in
      if sts \<noteq> SUCCESS then ((sts, d), w) else
      let ((sts, s), w) = Listen os (m_SdkSocket d) w in
      if sts \<noteq> SUCCESS then ((sts, d\<lparr>m_SdkSocket := s\<rparr>), w)
      else ((SUCCESS, d\<lparr>m_SdkSocket := s\<rparr>), w))"

section \<open>The handlers\<close>

text \<open>Each handler changes the message, and the modules, and may talk to the client itself.\<close>

type_synonym 'w handler =
  "'w env \<Rightarrow> SocketData \<Rightarrow> int \<Rightarrow> HdcpDaemon \<Rightarrow> 'w \<Rightarrow> ((SocketData \<times> HdcpDaemon) \<times> 'w) outcome option"

abbreviation (input) status :: "HDCP_STATUS \<Rightarrow> SocketData \<Rightarrow> SocketData" where
  "status s data \<equiv> data\<lparr>sd_Status := st s\<rparr>"

definition app_of :: "int \<Rightarrow> u32" where
  "app_of appId = of_int appId"

definition port_error :: "int \<Rightarrow> HDCP_STATUS" where
  "port_error sts = (if sts = ENOENT then HDCP_STATUS_ERROR_NO_DISPLAY else HDCP_STATUS_ERROR_INTERNAL)"

definition EnumeratePorts :: "'w handler" where
  "EnumeratePorts E data appId d w =
     obind (PortManagerEnumeratePorts (e_drm E) (g_portMgr d) (sd_Ports data) (sd_PortCount data) w)
       (\<lambda>((sts, pm, ports, count), w).
     let data = data\<lparr>sd_Ports := ports, sd_PortCount := count\<rparr>; d = d\<lparr>g_portMgr := pm\<rparr> in
     if sts \<noteq> SUCCESS then ret ((status HDCP_STATUS_ERROR_INTERNAL data, d), w)
     else ret ((status HDCP_STATUS_SUCCESSFUL data, d), w))"

definition SetProtectionLevel :: "'w handler" where
  "SetProtectionLevel E data appId d w =
     (if sd_PortCount data \<noteq> ONE_PORT
      then ret ((status HDCP_STATUS_ERROR_INVALID_PARAMETER data, d), w)
      else if PORT_ID_MAX < Port_Id (SinglePort data)
      then ret ((status HDCP_STATUS_ERROR_INVALID_PARAMETER data, d), w)
      else if \<not> (sd_Level data = HDCP_LEVEL1 \<or> sd_Level data = HDCP_LEVEL2 \<or> sd_Level data = HDCP_LEVEL0)
      then ret ((status HDCP_STATUS_ERROR_INVALID_PARAMETER data, d), w)
      else obind
        (if sd_Level data = HDCP_LEVEL1 \<or> sd_Level data = HDCP_LEVEL2
         then PortManagerEnablePort (e_os E) (e_drm E) (e_gwl E) (e_wl E) (g_portMgr d)
           (Port_Id (SinglePort data)) (app_of appId) (sd_Level data) w
         else PortManagerDisablePort (e_os E) (e_drm E) (e_gwl E) (e_wl E) (g_portMgr d)
           (Port_Id (SinglePort data)) (app_of appId) w) (\<lambda>((sts, pm), w).
        let d = d\<lparr>g_portMgr := pm\<rparr> in
        if sts \<noteq> SUCCESS then ret ((status (port_error sts) data, d), w)
        else ret ((status HDCP_STATUS_SUCCESSFUL data, d), w)))"

definition GetStatus :: "'w handler" where
  "GetStatus E data appId d w =
     (if sd_PortCount data \<noteq> ONE_PORT
      then ret ((status HDCP_STATUS_ERROR_INVALID_PARAMETER data, d), w)
      else if Port_Id (SinglePort data) > PORT_ID_MAX
      then ret ((status HDCP_STATUS_ERROR_INVALID_PARAMETER data, d), w)
      else
        let ((sts, portStatus), w) = PortManagerGetStatus (e_drm E) (g_portMgr d)
              (Port_Id (SinglePort data)) (Port_status (SinglePort data)) w;
            data = set_SinglePort (\<lambda>p. p\<lparr>Port_status := portStatus\<rparr>) data in
        if sts \<noteq> SUCCESS then ret ((status (port_error sts) data, d), w)
        else ret ((status HDCP_STATUS_SUCCESSFUL data, d), w))"

definition GetKsvList :: "'w handler" where
  "GetKsvList E data appId d w =
     (if sd_PortCount data \<noteq> ONE_PORT
      then ret ((status HDCP_STATUS_ERROR_INVALID_PARAMETER data, d), w)
      else if Port_Id (SinglePort data) > PORT_ID_MAX
      then ret ((status HDCP_STATUS_ERROR_INVALID_PARAMETER data, d), w)
      else
        let (ok, w) = os_new (e_os E) (MAX_KSV_COUNT * KSV_SIZE) w in
        if \<not> ok then ret ((status HDCP_STATUS_ERROR_INSUFFICIENT_MEMORY data, d), w) else
        obind (Some (PortManagerGetKsvList (e_drm E) (g_portMgr d) (Port_Id (SinglePort data))
            (sd_KsvCount data) (sd_Depth data) (fresh E (MAX_KSV_COUNT * KSV_SIZE) w) w))
          (\<lambda>((sts, ksvCount, depth, ksvList), w).
        let data = data\<lparr>sd_KsvCount := ksvCount, sd_Depth := depth\<rparr> in
        if sts \<noteq> SUCCESS then ret ((status HDCP_STATUS_ERROR_INTERNAL data, d), w)
        else if unat ksvCount > MAX_KSV_COUNT
        then ret ((status HDCP_STATUS_ERROR_MAX_DEVICES_EXCEEDED data, d), w)
        else if unat depth > MAX_TOPOLOGY_DEPTH
        then ret ((status HDCP_STATUS_ERROR_MAX_DEPTH_EXCEEDED data, d), w)
        else
          let data = status HDCP_STATUS_SUCCESSFUL data in
          obind (SendResponse (e_os E) data appId w) (\<lambda>(sts, w).
          if sts \<noteq> SUCCESS then ret ((status HDCP_STATUS_ERROR_INTERNAL data, d), w) else
          obind (SendKsvListData (e_os E) (Some ksvList) (int (unat ksvCount * KSV_SIZE)) appId w)
            (\<lambda>(sts, w).
          if sts \<noteq> SUCCESS then ret ((status HDCP_STATUS_ERROR_INTERNAL data, d), w)
          else ret ((status HDCP_STATUS_SUCCESSFUL data, d), w)))))"

definition srm_error :: "int \<Rightarrow> HDCP_STATUS" where
  "srm_error sts = (if sts = EINVAL then HDCP_STATUS_ERROR_SRM_INVALID
     else if sts = EAGAIN then HDCP_STATUS_ERROR_SRM_NOT_RECENT else HDCP_STATUS_ERROR_INTERNAL)"

definition SendSRMData :: "'w handler" where
  "SendSRMData E data appId d w =
     (let size = unat (sd_SrmOrKsvListDataSz data) in
      if SRM_FIRST_GEN_MAX_SIZE < sd_SrmOrKsvListDataSz data
      then ret ((status HDCP_STATUS_ERROR_INVALID_PARAMETER data, d), w) else
      let (ok, w) = os_new (e_os E) size w in
      if \<not> ok then ret ((status HDCP_STATUS_ERROR_INSUFFICIENT_MEMORY data, d), w) else
      let srmData = fresh E size w; data = status HDCP_STATUS_SUCCESSFUL data in
      obind (SendResponse (e_os E) data appId w) (\<lambda>(sts, w).
      if sts \<noteq> SUCCESS then ret ((status HDCP_STATUS_ERROR_INTERNAL data, d), w) else
      obind (GetSrmData (e_os E) (Some srmData) (int size) appId w) (\<lambda>((sts, srmData), w).
      if sts \<noteq> SUCCESS then ret ((status HDCP_STATUS_ERROR_INTERNAL data, d), w) else
      obind (StoreSrm (e_os E) (e_ssl E) (g_pSrmTable d) (the srmData) w) (\<lambda>((sts, srm), w).
      let d = d\<lparr>g_pSrmTable := srm\<rparr> in
      if sts \<noteq> SUCCESS then ret ((status (srm_error sts) data, d), w) else
      obind (PortManagerSendSRMDdata (e_os E) (g_portMgr d) (the srmData) w) (\<lambda>(sts, w).
      if sts \<noteq> SUCCESS then ret ((status HDCP_STATUS_ERROR_INTERNAL data, d), w)
      else ret ((status HDCP_STATUS_SUCCESSFUL data, d), w))))))"

definition GetSRMVersion :: "'w handler" where
  "GetSRMVersion E data appId d w =
     (let (sts, v) = GetSrmVersion (g_pSrmTable d) (Some (sd_SrmVersion data));
          data = data\<lparr>sd_SrmVersion := the v\<rparr> in
      if sts \<noteq> SUCCESS then ret ((status HDCP_STATUS_ERROR_INTERNAL data, d), w)
      else ret ((status HDCP_STATUS_SUCCESSFUL data, d), w))"

definition Config :: "'w handler" where
  "Config E data appId d w =
     (let (sts, srm) = SrmConfig (g_pSrmTable d) (sd_Config_disableSrmStorage data \<noteq> 0);
          d = d\<lparr>g_pSrmTable := srm\<rparr> in
      if sts \<noteq> SUCCESS then ret ((status HDCP_STATUS_ERROR_INTERNAL data, d), w)
      else ret ((status HDCP_STATUS_SUCCESSFUL data, d), w))"

section \<open>Dispatch and the message loop\<close>

text \<open>\<open>replies b m\<close> runs the handler \<open>m\<close>; \<open>b\<close> says from its message whether a response is still due.\<close>

definition replies ::
  "(SocketData \<Rightarrow> bool) \<Rightarrow> ((SocketData \<times> HdcpDaemon) \<times> 'w) outcome option \<Rightarrow>
     ((bool \<times> SocketData \<times> HdcpDaemon) \<times> 'w) outcome option" where
  "replies b m = obind m (\<lambda>((data, d), w). ret ((b data, data, d), w))"

definition DispatchCommand ::
  "'w env \<Rightarrow> SocketData \<Rightarrow> int \<Rightarrow> HdcpDaemon \<Rightarrow> 'w \<Rightarrow>
     ((bool \<times> SocketData \<times> HdcpDaemon) \<times> 'w) outcome option" where
  "DispatchCommand E data appId d w =
     (let c = sd_Command data in
      if c = api HDCP_API_ENUMERATE_HDCP_DISPLAY then replies (\<lambda>_. True) (EnumeratePorts E data appId d w)
      else if c = api HDCP_API_CREATE then ret ((False, data, d), w)
      else if c = api HDCP_API_DESTROY then
        obind (PortManagerHandleAppExit (e_os E) (e_drm E) (e_gwl E) (e_wl E) (g_portMgr d)
          (app_of appId) w) (\<lambda>(pm, w). ret ((False, data, d\<lparr>g_portMgr := pm\<rparr>), w))
      else if c = api HDCP_API_CREATE_CALLBACK then
        obind (register_callback appId (m_CallBacks d)) (\<lambda>cb.
        ret ((False, data, d\<lparr>m_CallBacks := cb\<rparr>), w))
      else if c = api HDCP_API_SET_PROTECTION_LEVEL
      then replies (\<lambda>_. True) (SetProtectionLevel E data appId d w)
      else if c = api HDCP_API_GETSTATUS then replies (\<lambda>_. True) (GetStatus E data appId d w)
      else if c = api HDCP_API_GETKSVLIST
      then replies (\<lambda>data. sd_Status data \<noteq> st HDCP_STATUS_SUCCESSFUL) (GetKsvList E data appId d w)
      else if c = api HDCP_API_SENDSRMDATA then replies (\<lambda>_. True) (SendSRMData E data appId d w)
      else if c = api HDCP_API_GETSRMVERSION then replies (\<lambda>_. True) (GetSRMVersion E data appId d w)
      else if c = api HDCP_API_CONFIG then replies (\<lambda>_. True) (Config E data appId d w)
      else ret ((True, status HDCP_STATUS_ERROR_INVALID_PARAMETER data, d), w))"

text \<open>
  What \<^verbatim>\<open>MessageResponseLoop\<close> does with one task, in two parts, and one turn of the loop; the
  flag of the result says whether the loop goes on.
\<close>

definition send_reply ::
  "'w env \<Rightarrow> bool \<Rightarrow> SocketData \<Rightarrow> int \<Rightarrow> HdcpDaemon \<Rightarrow> 'w \<Rightarrow> (HdcpDaemon \<times> 'w) outcome option" where
  "send_reply E sendResponse data appId d w =
     (if sendResponse then
        obind (SendResponse (e_os E) data appId w) (\<lambda>(sts, w).
        if sts \<noteq> SUCCESS then
          obind (PortManagerHandleAppExit (e_os E) (e_drm E) (e_gwl E) (e_wl E) (g_portMgr d)
            (app_of appId) w) (\<lambda>(pm, w). ret (d\<lparr>g_portMgr := pm\<rparr>, w))
        else ret (d, w))
      else ret (d, w))"

definition handle_task ::
  "'w env \<Rightarrow> SocketData \<Rightarrow> int \<Rightarrow> HdcpDaemon \<Rightarrow> 'w \<Rightarrow> (HdcpDaemon \<times> 'w) outcome option" where
  "handle_task E data appId d w =
     (if sd_Size data \<noteq> of_nat sizeof_SocketData
      then send_reply E True ((status HDCP_STATUS_ERROR_INVALID_PARAMETER data)
        \<lparr>sd_Size := of_nat sizeof_SocketData\<rparr>) appId d w
      else obind (DispatchCommand E data appId d w) (\<lambda>((sendResponse, data, d), w).
        send_reply E sendResponse data appId d w))"

definition message_turn ::
  "'w env \<Rightarrow> HdcpDaemon \<Rightarrow> 'w \<Rightarrow> ((bool \<times> HdcpDaemon) \<times> 'w) outcome option" where
  "message_turn E d w =
     obind (GetTask (e_os E) (e_killed E) (e_mem E) (m_SdkSocket d) (SocketData_new (e_mem E w)) w)
       (\<lambda>((sts, appId, data, s), w).
     let d = d\<lparr>m_SdkSocket := s\<rparr> in
     if sts \<noteq> SUCCESS then ret ((sts \<noteq> ECANCELED, d), w) else
     obind (handle_task E data appId d w) (\<lambda>(d, w). ret ((True, d), w)))"

partial_function (option) MessageResponseLoop ::
  "'w env \<Rightarrow> HdcpDaemon \<Rightarrow> 'w \<Rightarrow> (HdcpDaemon \<times> 'w) outcome option" where
  "MessageResponseLoop E d w =
     obind (message_turn E d w) (\<lambda>((goes_on, d), w).
     if goes_on then MessageResponseLoop E d w else ret (d, w))"

end
