(* ===== verification/ClientProperties.thy ===== *)
theory ClientProperties
  imports ClientSafety Daemon
begin

text \<open>
  The properties of the client library: its table of sessions, what a request to the daemon gives,
  and what goes wrong when sessions are destroyed while they are in use.
\<close>

section \<open>The table of sessions\<close>

text \<open>
  The contract of the library as a relation on tables of sessions: creating adds a session with a
  new handle or nothing, destroying takes away the sessions of the handle, the end of the connection
  to the daemon takes away all, and nothing else changes the table.
\<close>

definition table_step :: "client_op \<Rightarrow> HdcpSession list \<Rightarrow> HdcpSession list \<Rightarrow> bool" where
  "table_step x t t' \<longleftrightarrow>
     (case x of
        Cl_Create func ctx \<Rightarrow> t' = t \<or> (\<exists>s. t' = s # t \<and> ss_CallBack s = func \<and> ss_Context s = ctx \<and>
          ss_Handle s \<notin> ss_Handle ` set t)
      | Cl_Destroy h \<Rightarrow> t' = filter (\<lambda>s. ss_Handle s \<noteq> h) t
      | Cl_CallBack \<Rightarrow> t' = t \<or> t' = []
      | _ \<Rightarrow> t' = t)"

definition handles_ok :: "SessionManager \<Rightarrow> bool" where
  "handles_ok sm \<longleftrightarrow> distinct (map ss_Handle (sessions sm)) \<and>
     (\<forall>s \<in> set (sessions sm). 0 < unat (ss_Handle s) \<and> unat (ss_Handle s) < unat (sm_HandleIncrementor sm))"

lemma sessions_without:
  assumes "sm_inv sm"
  shows "sessions (without p sm) = map (\<lambda>q. the (sm_Heap sm q)) (filter (\<lambda>q. q \<noteq> p) (sm_SessionList sm))"
  by (simp add: sessions_def without_def)

lemma sessions_emptied [simp]: "sessions (emptied sm) = []"
  by (simp add: sessions_def emptied_def)

lemma incrementor [simp]:
  "sm_HandleIncrementor (attempted cs b n sm) = sm_HandleIncrementor sm + 1"
  "sm_HandleIncrementor (created s sm) = sm_HandleIncrementor sm"
  "sm_HandleIncrementor (without p sm) = sm_HandleIncrementor sm"
  "sm_HandleIncrementor (emptied sm) = sm_HandleIncrementor sm"
  by (simp_all add: attempted_def created_def without_def emptied_def)

lemma handles_without: "sm_inv sm \<Longrightarrow> handles_ok sm \<Longrightarrow> handles_ok (without p sm)"
  by (simp add: handles_ok_def sessions_without)
    (auto simp: sessions_def distinct_map_filter comp_def)

lemma unat_next: "unat (x :: u32) < 2 ^ 32 - 1 \<Longrightarrow> unat (x + 1) = unat x + 1"
  by (simp add: unat_plus_u32)

lemma client_exec_handles:
  assumes "client_exec os mem app x sm w = ret ((r, sm'), w')" "sm_inv sm" "handles_ok sm"
    and "0 < unat (sm_HandleIncrementor sm)" "unat (sm_HandleIncrementor sm) < 2 ^ 32 - 1"
  shows "handles_ok sm' \<and> unat (sm_HandleIncrementor sm) \<le> unat (sm_HandleIncrementor sm') \<and>
    unat (sm_HandleIncrementor sm') \<le> unat (sm_HandleIncrementor sm) + 1"
  using assms(1,2)
proof (cases rule: client_exec_cases)
  case (attempted cs b n)
  then show ?thesis using assms(3) unat_next [OF assms(5)] by (auto simp: handles_ok_def)
next
  case (created cs b s)
  then show ?thesis using assms(3,4) unat_next [OF assms(5)] attempted_inv [OF assms(2)]
    by (auto simp: handles_ok_def sessions_created)
next
  case (removed p)
  with handles_without [OF assms(2,3)] show ?thesis by simp
qed (use assms(3) in \<open>simp_all add: handles_ok_def\<close>)

lemma run_handles:
  "run_ops (client_exec os mem app) ops sm w = ret ((rs, sm'), w') \<Longrightarrow> sm_inv sm \<Longrightarrow> handles_ok sm \<Longrightarrow>
     0 < unat (sm_HandleIncrementor sm) \<Longrightarrow> unat (sm_HandleIncrementor sm) + length ops < 2 ^ 32 \<Longrightarrow> handles_ok sm'"
proof (induction ops arbitrary: sm w rs)
  case (Cons x ops)
  from Cons.prems(1) obtain r sm1 w1 rs1 where x: "client_exec os mem app x sm w = ret ((r, sm1), w1)"
    and rest: "run_ops (client_exec os mem app) ops sm1 w1 = ret ((rs1, sm'), w')"
    by (auto elim!: hdcp_elims)
  from client_exec_handles [OF x Cons.prems(2-4)] Cons.prems(4,5)
  have "handles_ok sm1" "0 < unat (sm_HandleIncrementor sm1)"
    "unat (sm_HandleIncrementor sm1) + length ops < 2 ^ 32" by auto
  from Cons.IH [OF rest client_exec_inv [OF x Cons.prems(2)] this] show ?case .
qed simp

lemma sm_start_handles: "handles_ok sm_start"
  by (simp add: handles_ok_def sessions_def sm_start_def)

text \<open>C6: Whatever an application calls, in whatever order, and whatever the daemon answers: between
  the calls the store holds exactly the sessions of the list, none is referenced or waits for its
  destruction, and no mutex is held; and as long as fewer than 2 to the 32 less one calls were made,
  every session has a handle of its own, which is not 0.\<close>

theorem client_library_invariant:
  assumes "run_ops (client_exec os mem app) ops sm_start w = ret ((rs, sm), w')"
  shows "sm_inv sm \<and> (length ops < 2 ^ 32 - 1 \<longrightarrow>
    distinct (map ss_Handle (sessions sm)) \<and> (\<forall>s \<in> set (sessions sm). ss_Handle s \<noteq> 0))"
proof -
  have "sm_inv sm" by (rule client.run_inv [OF _ sm_start_inv assms]) (simp add: list.pred_True)
  moreover have "length ops < 2 ^ 32 - 1 \<Longrightarrow> handles_ok sm"
    using run_handles [OF assms sm_start_inv sm_start_handles] by (simp add: sm_start_def)
  moreover have "handles_ok sm \<Longrightarrow> \<forall>s \<in> set (sessions sm). ss_Handle s \<noteq> 0"
    by (auto simp: handles_ok_def)
  ultimately show ?thesis by (auto simp: handles_ok_def)
qed

lemma filter_map_handle:
  assumes "sm_inv sm" "handles_ok sm" "find (has_handle sm h) (sm_SessionList sm) = Some p"
  shows "sessions (without p sm) = filter (\<lambda>s. ss_Handle s \<noteq> h) (sessions sm)"
proof -
  have "inj_on (\<lambda>q. ss_Handle (the (sm_Heap sm q))) (set (sm_SessionList sm))"
    using assms(1,2) by (simp add: handles_ok_def sessions_def distinct_map comp_def)
  then have "q = p \<longleftrightarrow> ss_Handle (the (sm_Heap sm q)) = h" if "q \<in> set (sm_SessionList sm)" for q
    using find_in [OF assms(3)] that by (auto simp: has_handle_def inj_on_def)
  then show ?thesis
    unfolding sessions_without [OF assms(1)]
    by (auto simp: sessions_def filter_map comp_def intro!: map_cong filter_cong)
qed

text \<open>C7: Refinement: with distinct handles below the counter, every call implements the contract of
  the session table, destroying its argument's session and no other, and creating under a handle that
  no session has.\<close>

theorem client_refines_table:
  assumes "client_exec os mem app x sm w = ret ((r, sm'), w')" "sm_inv sm" "handles_ok sm"
    and "unat (sm_HandleIncrementor sm) < 2 ^ 32 - 1"
  shows "table_step x (sessions sm) (sessions sm')"
proof (cases x)
  case (Cl_Create func ctx)
  with assms(1) obtain sts ph where c: "HDCPCreate os mem (Some 0) func ctx sm w = ret ((sts, ph, sm'), w')"
    by (auto simp: just_status_def elim!: hdcp_elims)
  from c assms(2) show ?thesis
  proof (cases rule: HDCPCreate_cases)
    case (made cs b s)
    moreover have "ss_Handle s \<notin> ss_Handle ` set (sessions sm)"
      using made assms(3) by (force simp: handles_ok_def)
    ultimately show ?thesis
      using Cl_Create attempted_inv [OF assms(2)] by (simp add: table_step_def sessions_created)
  next
    case (lost cs b s)
    with assms(4) show ?thesis by simp
  qed (simp add: Cl_Create table_step_def)
next
  case (Cl_Destroy h)
  with assms(1,2) have "sm' = (case find (has_handle sm h) (sm_SessionList sm) of None \<Rightarrow> sm | Some p \<Rightarrow> without p sm)"
    by (auto simp: HDCPDestroy_def DestroySession_eq elim!: hdcp_elims split: option.splits)
  moreover have "filter (\<lambda>s. ss_Handle s \<noteq> h) (sessions sm) = sessions sm"
    if "find (has_handle sm h) (sm_SessionList sm) = None"
    using that by (auto simp: find_None_iff has_handle_def sessions_def filter_id_conv)
  ultimately show ?thesis using Cl_Destroy filter_map_handle [OF assms(2,3)]
    by (auto simp: table_step_def split: option.splits)
next
  case Cl_CallBack
  with assms(1) obtain b where "CallBackManager_turn os mem app sm w = ret ((b, sm'), w')"
    by (auto elim!: hdcp_elims)
  from CallBackManager_turn_cases [OF this assms(2)] Cl_CallBack show ?thesis by (auto simp: table_step_def)
qed (use assms(1) in \<open>auto simp: just_status_def table_step_def elim!: hdcp_elims dest!: requests_same [OF assms(2)]\<close>)

text \<open>A daemon that accepts every connection and answers every request with the same success message.\<close>

definition greeting :: SocketData where
  "greeting = example_mem\<lparr>sd_Status := st HDCP_STATUS_SUCCESSFUL\<rparr>"

definition client_os :: "unit os_api" where
  "client_os = idle_os\<lparr>os_socket := Pair 4, os_connect := (\<lambda>fd p w. (Inr (), w)),
     os_read := (\<lambda>fd n w. (Inr (encode greeting), w)), os_send := (\<lambda>fd bs w. (Inr (length bs), w))\<rparr>"

definition client_mem :: "unit \<Rightarrow> SocketData" where
  "client_mem w = example_mem"

definition demo_session :: HdcpSession where
  "demo_session = \<lparr>ss_SdkSocket = \<lparr>m_Fd = 4\<rparr>, ss_CallBack = Some 2, ss_Handle = 1, ss_Context = 7,
     ss_IsValid = True, ss_ActiveReferences = 0\<rparr>"

definition demo_client :: SessionManager where
  "demo_client = created demo_session (attempted (Some \<lparr>m_Fd = 4\<rparr>) True 0 sm_start)"

lemma greeting_wf: "sd_wf greeting"
  using example_mem_wf by (simp add: greeting_def)

lemma client_os_io:
  assumes "sd_wf msg"
  shows "GetMessage client_os \<lparr>m_Fd = 4\<rparr> msg () = ret ((SUCCESS, greeting), ())"
    "SendMessage client_os \<lparr>m_Fd = 4\<rparr> msg () = ret (SUCCESS, ())"
proof -
  have len: "length (encode msg) = 100" "length (encode greeting) = 100"
    using assms greeting_wf by simp_all
  then have "encode greeting \<noteq> []" by auto
  with len have "read_loop client_os 4 (encode msg) 100 0 () = ret ((SUCCESS, encode greeting), ())"
    by (subst read_loop.simps, simp add: client_os_def idle_simps, subst read_loop.simps, simp)
  with len greeting_wf show "GetMessage client_os \<lparr>m_Fd = 4\<rparr> msg () = ret ((SUCCESS, greeting), ())"
    by (simp add: GetMessage_def read_message_def ReadData_def decode_encode)
  from len have "write_loop client_os 4 (encode msg) 100 0 () = ret (SUCCESS, ())"
    by (subst write_loop.simps, simp add: client_os_def idle_simps, subst write_loop.simps, simp)
  then show "SendMessage client_os \<lparr>m_Fd = 4\<rparr> msg () = ret (SUCCESS, ())"
    by (simp add: SendMessage_def WriteData_def)
qed

lemma request_wf: "sd_wf mem \<Longrightarrow> sd_wf (request mem c)"
  by (simp add: request_def SocketData_new_wf)

lemma port_request_wf: "sd_wf mem \<Longrightarrow> sd_wf (port_request mem c p)"
  using request_wf [of mem c] by (simp add: port_request_def set_SinglePort_def sd_wf_def)

lemma client_connect: "Connect client_os client_mem \<lparr>m_Fd = 4\<rparr> SDK_SOCKET_PATH () = ret (SUCCESS, ())"
proof -
  have "connect_loop client_os 4 p () = ret (SUCCESS, ())" for p
    by (subst connect_loop.simps) (simp add: client_os_def idle_simps)
  moreover have "fst (InitSockAddr SDK_SOCKET_PATH) = SUCCESS" by code_simp
  moreover have "sd_wf (SocketData_new (client_mem ()))"
    using SocketData_new_wf [OF example_mem_wf] by (simp add: client_mem_def)
  ultimately show ?thesis
    by (cases "InitSockAddr SDK_SOCKET_PATH") (simp add: Connect_def client_os_io greeting_def)
qed

lemma demo_create: "HDCPCreate client_os client_mem (Some x) (Some 2) 7 sm_start () =
    ret ((st HDCP_STATUS_SUCCESSFUL, Some 1, demo_client), ())"
proof -
  have os: "os_new client_os n () = (True, ())" "GenericStreamSocket_new client_os () = (\<lparr>m_Fd = 4\<rparr>, ())"
    "os_thread_create client_os s () = (0, ())" "os_mutex_init client_os () = (0, ())"
    "os_cond_init client_os () = (0, ())" for n s
    by (simp_all add: client_os_def idle_simps GenericStreamSocket_new_def)
  let ?a = "attempted (Some \<lparr>m_Fd = 4\<rparr>) True 0 sm_start"
  have "sd_wf (request (client_mem ()) HDCP_API_CREATE_CALLBACK)"
    using request_wf [OF example_mem_wf] by (simp add: client_mem_def)
  then have "CreateSession client_os client_mem (Some 2) 7 sm_start () = ret ((1, demo_client), ())"
    by (simp add: CreateSession_def EnsureCallBack_def AddSession_def InitCallBack_def os client_os_io client_connect
        HdcpSession_new_def GetUniqueHandle_def lock_handle_def unlock_handle_def sm_start_def Let_def
        lock_iterator_def unlock_iterator_def demo_client_def created_def attempted_def demo_session_def)
  moreover have inv: "sm_inv demo_client"
    unfolding demo_client_def
    by (intro created_inv attempted_inv sm_start_inv) (simp add: demo_session_def)
  moreover have f: "find (has_handle demo_client 1) (sm_SessionList demo_client) = Some 1"
    using find_created [of demo_session ?a] by (simp add: demo_client_def demo_session_def attempted_def sm_start_def)
  moreover have "deref (referenced 1 demo_client) 1 = Ret (IncreaseReference demo_session)"
    by (simp add: deref_def referenced_def demo_client_def created_def attempted_def sm_start_def)
  ultimately show ?thesis
    by (simp add: HDCPCreate_def GetInstance_eq PutInstance_eq IncreaseReference_def demo_session_def
        Session_Create_def client_connect)
qed

lemma demo_run: "run_ops (client_exec client_os client_mem app) [Cl_Create (Some 2) 7] sm_start () =
    ret (([0], demo_client), ())"
  by (simp add: just_status_def demo_create)

lemma demo_sessions: "sessions demo_client = [demo_session]"
  by (simp add: demo_client_def sessions_created [OF attempted_inv [OF sm_start_inv]])
    (simp add: sessions_def sm_start_def)

theorem client_library_invariant_witness:
  "sm_inv demo_client \<and> distinct (map ss_Handle (sessions demo_client))"
  using client_library_invariant [OF demo_run] by simp

theorem client_refines_table_witness:
  "table_step (Cl_Create (Some 2) 7) (sessions sm_start) (sessions demo_client)"
  by (rule client_refines_table [of client_os client_mem "\<lambda>_ _ _ _ _ w. w" _ _ "()" 0 _ "()"])
    (simp_all add: just_status_def demo_create sm_start_inv sm_start_handles, simp add: sm_start_def)

section \<open>Creating, and losing the callback channel\<close>

text \<open>Creating a session is all or nothing: on success the caller has a handle under which the
  table has the new session with the callback and context given; otherwise it has the handle 0 and the
  table is as before, be it the connection, the callback channel, a mutex or memory that failed. The
  only exception is the handle that means failure itself.\<close>

theorem create_all_or_nothing:
  assumes "HDCPCreate os mem (Some x) func ctx sm w = ret ((sts, ph, sm'), w')" "sm_inv sm"
    and "sm_HandleIncrementor sm \<noteq> BAD_SESSION_HANDLE"
  shows "sm_inv sm' \<and>
    (if sts = st HDCP_STATUS_SUCCESSFUL
     then ph = Some (sm_HandleIncrementor sm) \<and> (\<exists>s. sessions sm' = s # sessions sm \<and>
       ss_Handle s = sm_HandleIncrementor sm \<and> ss_CallBack s = func \<and> ss_Context s = ctx)
     else ph = Some 0 \<and> sessions sm' = sessions sm)"
  using assms(1,2)
proof (cases rule: HDCPCreate_cases)
  case (made cs b s)
  with assms(2) show ?thesis by (auto simp: sessions_created attempted_inv created_inv)
next
  case (not_made cs b n)
  with assms(2) show ?thesis by (simp add: attempted_inv)
qed (use assms(3) in simp)

theorem create_all_or_nothing_witness:
  "sm_inv demo_client \<and> (\<exists>s. sessions demo_client = s # sessions sm_start \<and>
     ss_Handle s = 1 \<and> ss_CallBack s = Some 2 \<and> ss_Context s = 7)"
  using create_all_or_nothing [OF demo_create sm_start_inv] by (simp add: sm_start_def)

lemma channel_stays:
  assumes "client_exec os mem app x sm w = ret ((r, sm'), w')" "sm_inv sm"
    and "sm_IsCallBackInitialized sm" "sm_CallBackSocket sm = None"
  shows "sm_IsCallBackInitialized sm' \<and> sm_CallBackSocket sm' = None"
  using assms(1,2)
  by (cases rule: client_exec_cases)
    (use assms(3,4) in \<open>auto simp: attempted_def created_def without_def emptied_def keeps_channel_def\<close>)

lemma channel_lost:
  "run_ops (client_exec os mem app) ops sm w = ret ((rs, sm'), w') \<Longrightarrow> sm_inv sm \<Longrightarrow>
     sm_IsCallBackInitialized sm \<Longrightarrow> sm_CallBackSocket sm = None \<Longrightarrow> sm_CallBackSocket sm' = None"
proof (induction ops arbitrary: sm w rs)
  case (Cons x ops)
  from Cons.prems(1) obtain r sm1 w1 rs1 where x: "client_exec os mem app x sm w = ret ((r, sm1), w1)"
    and rest: "run_ops (client_exec os mem app) ops sm1 w1 = ret ((rs1, sm'), w')"
    by (auto elim!: hdcp_elims)
  from channel_stays [OF x Cons.prems(2-4)] Cons.IH [OF rest client_exec_inv [OF x Cons.prems(2)]]
  show ?case by simp
qed simp

text \<open>When the daemon closes the callback channel, all sessions of the client are destroyed and the
  thread ends, but the channel counts as set up: whatever the application calls afterwards, also if
  it creates sessions again, there is no channel any more and no event is ever reported.\<close>

theorem callbacks_never_return:
  assumes "CallBackManager_turn os mem app sm w = ret ((False, sm1), w1)" "sm_inv sm"
    and "sm_IsCallBackInitialized sm"
    and "run_ops (client_exec os mem app) ops sm1 w1 = ret ((rs, sm2), w2)"
  shows "sessions sm1 = [] \<and> sm_CallBackSocket sm2 = None"
proof -
  from CallBackManager_turn_cases [OF assms(1,2)] have sm1: "sm1 = emptied sm" by simp
  then have "sm_IsCallBackInitialized sm1" "sm_CallBackSocket sm1 = None"
    using assms(3) by (simp_all add: emptied_def)
  with channel_lost [OF assms(4)] sm1 emptied_inv [OF assms(2)] show ?thesis by simp
qed

text \<open>The daemon has gone: every read finds the end of the stream.\<close>

definition gone_os :: "unit os_api" where
  "gone_os = client_os\<lparr>os_read := (\<lambda>fd n w. (Inr [], w))\<rparr>"

theorem callbacks_never_return_witness:
  "sessions (emptied demo_client) = [] \<and> sm_CallBackSocket (emptied demo_client) = None"
proof -
  have inv: "sm_inv demo_client" "sm_IsCallBackInitialized demo_client"
    "sm_CallBackSocket demo_client = Some \<lparr>m_Fd = 4\<rparr>"
    using client.run_inv [OF _ sm_start_inv demo_run]
    by (simp_all add: demo_client_def created_def attempted_def)
  have "sd_wf (SocketData_new (client_mem ()))"
    using SocketData_new_wf [OF example_mem_wf] by (simp add: client_mem_def)
  then have "GetMessage gone_os \<lparr>m_Fd = 4\<rparr> (SocketData_new (client_mem ())) () =
      ret ((ENOTCONN, SocketData_new (client_mem ())), ())"
    by (simp add: GetMessage_def read_message_def ReadData_def)
      (subst read_loop.simps, simp add: gone_os_def client_os_def decode_encode)
  moreover obtain w where "DestroyCallback gone_os demo_client () = ret (emptied demo_client, w)"
    using DestroyCallback_eq [OF inv(1), of gone_os "()"] by blast
  ultimately have turn: "CallBackManager_turn gone_os client_mem (\<lambda>_ _ _ _ _ w. w) demo_client () =
      ret ((False, emptied demo_client), ())"
    using inv(3) by (simp add: CallBackManager_turn_def)
  show ?thesis by (rule callbacks_never_return [OF turn inv(1,2), of "[]"]) simp
qed

section \<open>Destroying a session that is in use\<close>

text \<open>C28: An application that destroys a session twice from inside its callback, which both times is
  reported as successful, makes the library delete the session twice when the callback returns.\<close>

theorem destroy_twice_undefined:
  assumes "sm_inv sm" "IteratorCriticalSectionEnter sm = ret sm1"
    and "find (has_handle sm h) (sm_SessionList sm) = Some p"
  shows "\<exists>sm2 sm3. HDCPDestroy os h sm1 w = ret ((st HDCP_STATUS_SUCCESSFUL, sm2), w) \<and>
    HDCPDestroy os h sm2 w = ret ((st HDCP_STATUS_SUCCESSFUL, sm3), w) \<and>
    IteratorCriticalSectionExit os sm3 w' = Some Undef"
proof -
  have i: "\<not> sm_IteratorMutex sm" "sm_PendingDestroyQueue sm = []" "sm_IteratorReference sm = 0"
    using assms(1) by (simp_all add: sm_inv_def)
  then have sm1: "sm1 = sm\<lparr>sm_IteratorReference := 1\<rparr>" using assms(2) by (simp add: Enter_eq)
  from find_in [OF assms(3)] assms(1) obtain s where s: "sm_Heap sm p = Some s" "ss_ActiveReferences s = 0"
    by (blast elim: sm_inv_live)
  have f: "find_session sm2 h (sm_SessionList sm) = Ret (Some p)"
    if "sm_Heap sm2 = sm_Heap sm" for sm2
  proof -
    have "has_handle sm2 h = has_handle sm h" using that by (simp add: has_handle_def [abs_def])
    with find_session_eq [of "sm_SessionList sm" sm2 h] assms(1,3) that show ?thesis
      by (force elim: sm_inv_live)
  qed
  have d: "HDCPDestroy os h (sm1\<lparr>sm_PendingDestroyQueue := q\<rparr>) w =
      ret ((st HDCP_STATUS_SUCCESSFUL, sm1\<lparr>sm_PendingDestroyQueue := q @ [p]\<rparr>), w)" for q
    using i by (simp add: HDCPDestroy_def DestroySession_def lock_iterator_def unlock_iterator_def sm1 f)
  have "sm1 = sm1\<lparr>sm_PendingDestroyQueue := []\<rparr>" using i(2) by (simp add: sm1)
  then have "HDCPDestroy os h sm1 w = ret ((st HDCP_STATUS_SUCCESSFUL, sm1\<lparr>sm_PendingDestroyQueue := [p]\<rparr>), w)"
    using d [of "[]"] by simp
  moreover have "HDCPDestroy os h (sm1\<lparr>sm_PendingDestroyQueue := [p]\<rparr>) w =
      ret ((st HDCP_STATUS_SUCCESSFUL, sm1\<lparr>sm_PendingDestroyQueue := [p, p]\<rparr>), w)"
    using d [of "[p]"] by simp
  moreover have "IteratorCriticalSectionExit os (sm1\<lparr>sm_PendingDestroyQueue := [p, p]\<rparr>) w' = Some Undef"
    using i s by (simp add: IteratorCriticalSectionExit_def lock_iterator_def sm1 delete_session_eq
        remove_session_def Let_def) (simp add: delete_session_def deref_def)
  ultimately show ?thesis by blast
qed

theorem destroy_twice_undefined_witness:
  "\<exists>sm2 sm3. HDCPDestroy client_os 1 (demo_client\<lparr>sm_IteratorReference := 1\<rparr>) () =
       ret ((st HDCP_STATUS_SUCCESSFUL, sm2), ()) \<and>
     HDCPDestroy client_os 1 sm2 () = ret ((st HDCP_STATUS_SUCCESSFUL, sm3), ()) \<and>
     IteratorCriticalSectionExit client_os sm3 () = Some Undef"
proof (rule destroy_twice_undefined)
  show "sm_inv demo_client" using client.run_inv [OF _ sm_start_inv demo_run] by simp
  show "IteratorCriticalSectionEnter demo_client = ret (demo_client\<lparr>sm_IteratorReference := 1\<rparr>)"
    by (simp add: Enter_eq demo_client_def created_def attempted_def sm_start_def)
  show "find (has_handle demo_client 1) (sm_SessionList demo_client) = Some 1"
    by (simp add: demo_client_def created_def attempted_def sm_start_def has_handle_def demo_session_def)
qed

end
