(* ===== verification/ClientThreads.thy ===== *)
theory ClientThreads
  imports ClientProperties
begin

text \<open>
  Two threads of an application in the client library: one in a request on a handle, the other in
  \<^verbatim>\<open>HDCPDestroy\<close> of it. The steps are the critical sections of \<^verbatim>\<open>GetInstance\<close>, \<^verbatim>\<open>PutInstance\<close> and
  \<^verbatim>\<open>DestroySession\<close> and what lies between them; a step that needs a mutex that is held, or waits for a
  reference to be given back, is not possible.
\<close>

section \<open>The steps\<close>

datatype api_pc = A_start | A_entered | A_missing | A_found nat | A_using nat | A_used nat | A_putting nat
  | A_dropped | A_done

datatype destroy_pc = D_start | D_deleting nat | D_unlocking | D_done

type_synonym 'w threads = "api_pc \<times> destroy_pc \<times> SessionManager \<times> 'w"

inductive client_step :: "'w os_api \<Rightarrow> u32 \<Rightarrow> 'w threads \<Rightarrow> 'w threads \<Rightarrow> bool" for os :: "'w os_api" and h :: u32 where
  get_enter: "IteratorCriticalSectionEnter sm = ret sm' \<Longrightarrow>
    client_step os h (A_start, d, sm, w) (A_entered, d, sm', w)"
| get_found: "find_session sm h (sm_SessionList sm) = Ret (Some p) \<Longrightarrow> p \<notin> set (sm_PendingDestroyQueue sm) \<Longrightarrow>
    upd_session p IncreaseReference sm = Ret sm' \<Longrightarrow>
    client_step os h (A_entered, d, sm, w) (A_found p, d, sm', w)"
| get_missing: "find_session sm h (sm_SessionList sm) = Ret r \<Longrightarrow>
    (\<forall>p. r = Some p \<longrightarrow> p \<in> set (sm_PendingDestroyQueue sm)) \<Longrightarrow>
    client_step os h (A_entered, d, sm, w) (A_missing, d, sm, w)"
| missing_exit: "IteratorCriticalSectionExit os sm w = ret (sm', w') \<Longrightarrow>
    client_step os h (A_missing, d, sm, w) (A_done, d, sm', w')"
| get_exit: "IteratorCriticalSectionExit os sm w = ret (sm', w') \<Longrightarrow>
    client_step os h (A_found p, d, sm, w) (A_using p, d, sm', w')"
| exchange: "deref sm p = Ret s \<Longrightarrow> client_step os h (A_using p, d, sm, w) (A_used p, d, sm, w')"
| put_enter: "IteratorCriticalSectionEnter sm = ret sm' \<Longrightarrow>
    client_step os h (A_used p, d, sm, w) (A_putting p, d, sm', w)"
| put_drop: "find_session sm h (sm_SessionList sm) = Ret (Some q) \<Longrightarrow>
    upd_session q DecreaseReference sm = Ret sm' \<Longrightarrow>
    client_step os h (A_putting p, d, sm, w) (A_dropped, d, sm', w)"
| put_missing: "find_session sm h (sm_SessionList sm) = Ret None \<Longrightarrow>
    client_step os h (A_putting p, d, sm, w) (A_dropped, d, sm, w)"
| put_exit: "IteratorCriticalSectionExit os sm w = ret (sm', w') \<Longrightarrow>
    client_step os h (A_dropped, d, sm, w) (A_done, d, sm', w')"
| destroy_none: "lock_iterator sm = ret sm' \<Longrightarrow> find_session sm' h (sm_SessionList sm') = Ret None \<Longrightarrow>
    client_step os h (a, D_start, sm, w) (a, D_unlocking, sm', w)"
| destroy_queue: "lock_iterator sm = ret sm' \<Longrightarrow> find_session sm' h (sm_SessionList sm') = Ret (Some p) \<Longrightarrow>
    sm_IteratorReference sm' > 0 \<Longrightarrow>
    client_step os h (a, D_start, sm, w)
      (a, D_unlocking, sm'\<lparr>sm_PendingDestroyQueue := sm_PendingDestroyQueue sm' @ [p]\<rparr>, w)"
| destroy_now: "lock_iterator sm = ret sm' \<Longrightarrow> find_session sm' h (sm_SessionList sm') = Ret (Some p) \<Longrightarrow>
    \<not> sm_IteratorReference sm' > 0 \<Longrightarrow>
    client_step os h (a, D_start, sm, w) (a, D_deleting p, sm', w)"
| delete: "delete_session os p sm w = ret (sm', w') \<Longrightarrow>
    client_step os h (a, D_deleting p, sm, w) (a, D_unlocking, remove_session p sm', w')"
| unlock: "unlock_iterator sm = ret sm' \<Longrightarrow>
    client_step os h (a, D_unlocking, sm, w) (a, D_done, sm', w)"

inductive_cases client_stepE: "client_step os h (a, d, sm, w) (a', d', sm', w')"

section \<open>A session in use is not deleted\<close>

text \<open>Deleting waits for the references, so it leaves a referenced session alone.\<close>

lemma delete_session_keeps:
  assumes "delete_session os q sm w = ret (sm', w')" "sm_Heap sm p = Some s" "ss_ActiveReferences s > 0"
  shows "sm_Heap sm' p = Some s"
  using assms
  by (cases "sm_Heap sm q") (auto simp: delete_session_def deref_def HdcpSession_delete_def elim!: hdcp_elims split: if_splits)

lemma destroy_pending_keeps:
  "destroy_pending os ps sm w = ret (sm', w') \<Longrightarrow> sm_Heap sm p = Some s \<Longrightarrow> ss_ActiveReferences s > 0 \<Longrightarrow>
     sm_Heap sm' p = Some s"
proof (induction ps arbitrary: sm w)
  case (Cons q ps)
  from Cons.prems(1) obtain sm1 w1 where d: "delete_session os q sm w = ret (sm1, w1)"
    and rest: "destroy_pending os ps (remove_session q sm1) w1 = ret (sm', w')" by (auto elim!: hdcp_elims)
  from delete_session_keeps [OF d Cons.prems(2,3)] Cons.IH [OF rest _ Cons.prems(3)]
  show ?case by (simp add: remove_session_def)
qed simp

lemma Exit_keeps:
  assumes "IteratorCriticalSectionExit os sm w = ret (sm', w')" "sm_Heap sm p = Some s" "ss_ActiveReferences s > 0"
  shows "sm_Heap sm' p = Some s"
proof -
  have keeps: "sm_Heap sm2 p = Some s"
    if "destroy_pending os (sm_PendingDestroyQueue sm)
      (sm\<lparr>sm_IteratorMutex := True, sm_IteratorReference := r\<rparr>) w = ret (sm2, w2)" for r sm2 w2
    using destroy_pending_keeps [OF that _ assms(3)] assms(2) by simp
  from assms(1,2) show ?thesis
    by (auto simp: IteratorCriticalSectionExit_def lock_iterator_def unlock_iterator_def Let_def
        elim!: hdcp_elims split: if_splits dest!: keeps)
qed

lemma locks_keep_heap:
  "IteratorCriticalSectionEnter sm = ret sm' \<Longrightarrow> sm_Heap sm' = sm_Heap sm"
  "lock_iterator sm = ret sm' \<Longrightarrow> sm_Heap sm' = sm_Heap sm"
  "unlock_iterator sm = ret sm' \<Longrightarrow> sm_Heap sm' = sm_Heap sm"
  by (auto simp: IteratorCriticalSectionEnter_def lock_iterator_def unlock_iterator_def elim!: hdcp_elims
      split: if_splits)

lemma delete_session_heap:
  "delete_session os q sm w = ret (sm', w') \<Longrightarrow> sm_Heap sm' = (sm_Heap sm)(q := None)"
  by (auto simp: delete_session_def elim!: hdcp_elims)

text \<open>
  Before its reference is taken no session has one; from then on until it is given back the session
  of the request is alive and has one.
\<close>

definition threads_inv :: "'w threads \<Rightarrow> bool" where
  "threads_inv c = (case c of (a, d, sm, w) \<Rightarrow>
     (case a of
        A_found p \<Rightarrow> \<exists>s. sm_Heap sm p = Some s \<and> ss_ActiveReferences s = 1
      | A_using p \<Rightarrow> \<exists>s. sm_Heap sm p = Some s \<and> ss_ActiveReferences s = 1
      | A_used p \<Rightarrow> \<exists>s. sm_Heap sm p = Some s \<and> ss_ActiveReferences s = 1
      | A_putting p \<Rightarrow> \<exists>s. sm_Heap sm p = Some s \<and> ss_ActiveReferences s = 1
      | A_start \<Rightarrow> \<forall>p s. sm_Heap sm p = Some s \<longrightarrow> ss_ActiveReferences s = 0
      | A_entered \<Rightarrow> \<forall>p s. sm_Heap sm p = Some s \<longrightarrow> ss_ActiveReferences s = 0
      | _ \<Rightarrow> True))"

lemma one_positive: "ss_ActiveReferences s = 1 \<Longrightarrow> ss_ActiveReferences s > 0"
  by simp

lemma client_step_inv:
  assumes "client_step os h c c'" "threads_inv c"
  shows "threads_inv c'"
  using assms
proof (induction rule: client_step.induct)
  case (get_found sm p sm' d w)
  then show ?case
    by (auto simp: threads_inv_def upd_session_def deref_def IncreaseReference_def elim!: hdcp_elims
        split: option.splits)
next
  case (get_exit sm w sm' w' p d)
  then obtain s where s: "sm_Heap sm p = Some s" "ss_ActiveReferences s = 1" by (auto simp: threads_inv_def)
  with Exit_keeps [OF get_exit(1) s(1)] show ?case by (simp add: threads_inv_def)
next
  case (delete p sm w sm' w' a)
  have r: "sm_Heap (remove_session p sm') = sm_Heap sm'" by (simp add: remove_session_def)
  have k: "\<exists>s. sm_Heap sm' q = Some s \<and> ss_ActiveReferences s = 1"
    if "\<exists>s. sm_Heap sm q = Some s \<and> ss_ActiveReferences s = 1" for q
    using that delete_session_keeps [OF delete(1)] one_positive by blast
  from delete(2) show ?case
    by (cases a) (auto simp: threads_inv_def r delete_session_heap [OF delete(1)] split: if_splits
        dest!: k [simplified delete_session_heap [OF delete(1)]])
qed (auto simp: threads_inv_def locks_keep_heap split: api_pc.splits)

text \<open>C9: A session that a request uses is not deleted under it: however the steps of a request and of
  the destruction of the same handle interleave, when the request has found its session and until
  it gives it back, the session is there and counts the reference.\<close>

theorem used_session_alive:
  assumes "(client_step os h)\<^sup>*\<^sup>* (A_start, D_start, sm, w) (A_using p, d, sm', w')" "sm_inv sm"
  shows "\<exists>s. deref sm' p = Ret s \<and> ss_ActiveReferences s = 1"
proof -
  have "threads_inv (A_start, D_start, sm, w)"
    using assms(2) by (auto simp: threads_inv_def sm_inv_def)
  with assms(1) have "threads_inv (A_using p, d, sm', w')"
    by (induction rule: rtranclp_induct) (auto dest: client_step_inv)
  then show ?thesis by (auto simp: threads_inv_def deref_def)
qed

text \<open>A request on a client with one session gets to use it.\<close>

lemma request_runs:
  assumes "sm_inv sm" "find (has_handle sm h) (sm_SessionList sm) = Some p"
  shows "(client_step os h)\<^sup>*\<^sup>* (A_start, d, sm, w) (A_using p, d, referenced p sm, w)"
proof -
  have i: "\<not> sm_IteratorMutex sm" "sm_PendingDestroyQueue sm = []" "sm_IteratorReference sm = 0"
    using assms by (simp_all add: sm_inv_def)
  let ?one = "sm\<lparr>sm_IteratorReference := 1\<rparr>" and ?got = "(referenced p sm)\<lparr>sm_IteratorReference := 1\<rparr>"
  from find_in [OF assms(2)] assms(1) obtain s where s: "sm_Heap sm p = Some s" by (blast elim: sm_inv_live)
  have "has_handle ?one h = has_handle sm h" by (simp add: has_handle_def [abs_def])
  moreover have "\<forall>q \<in> set (sm_SessionList sm). sm_Heap ?one q \<noteq> None"
    using assms(1) by (force elim: sm_inv_live)
  ultimately have f: "find_session ?one h (sm_SessionList ?one) = Ret (Some p)"
    using find_session_eq [of "sm_SessionList sm" ?one h] assms(2) by simp
  have "client_step os h (A_start, d, sm, w) (A_entered, d, ?one, w)"
    by (rule get_enter) (simp add: Enter_eq i)
  moreover have "client_step os h (A_entered, d, ?one, w) (A_found p, d, ?got, w)"
    by (rule get_found [OF f]) (simp_all add: i s upd_session_def deref_def referenced_def)
  moreover have "client_step os h (A_found p, d, ?got, w) (A_using p, d, referenced p sm, w)"
    by (rule get_exit) (cases sm, use i in \<open>simp add: Exit_eq referenced_def\<close>)
  ultimately show ?thesis by (meson r_into_rtranclp rtranclp_trans)
qed

lemma demo_client_inv: "sm_inv demo_client" "find (has_handle demo_client 1) (sm_SessionList demo_client) = Some 1"
  using client.run_inv [OF _ sm_start_inv demo_run]
  by (simp_all add: demo_client_def created_def attempted_def sm_start_def has_handle_def demo_session_def)

theorem used_session_alive_witness:
  "\<exists>s. deref (referenced 1 demo_client) 1 = Ret s \<and> ss_ActiveReferences s = 1"
  by (rule used_session_alive [OF request_runs [OF demo_client_inv, of client_os D_start "()"] demo_client_inv(1)])

section \<open>The deadlock\<close>

text \<open>C8: An application that destroys a session while another of its threads is in a request on it
  deadlocks: the destruction holds the mutex of the list while it waits for the reference to be given
  back, and the request needs that mutex to give it back. The state is reached from every state of
  the library with the session, and neither thread has a next step in it.\<close>

theorem destroy_in_use_deadlocks:
  assumes "sm_inv sm" "find (has_handle sm h) (sm_SessionList sm) = Some p"
  shows "\<exists>sm'. (client_step os h)\<^sup>*\<^sup>* (A_start, D_start, sm, w) (A_used p, D_deleting p, sm', w) \<and>
    (\<nexists>c. client_step os h (A_used p, D_deleting p, sm', w) c)"
proof -
  have i: "\<not> sm_IteratorMutex sm" "sm_IteratorReference sm = 0" using assms by (simp_all add: sm_inv_def)
  from find_in [OF assms(2)] assms(1) obtain s where s: "sm_Heap sm p = Some s" "ss_ActiveReferences s = 0"
    by (blast elim: sm_inv_live)
  let ?got = "referenced p sm" and ?held = "(referenced p sm)\<lparr>sm_IteratorMutex := True\<rparr>"
  have "has_handle ?held h = has_handle sm h"
    by (auto simp: has_handle_def fun_eq_iff referenced_def IncreaseReference_def)
  moreover have "\<forall>q \<in> set (sm_SessionList sm). sm_Heap ?held q \<noteq> None"
    using assms(1) by (force simp: referenced_def elim: sm_inv_live)
  ultimately have f: "find_session ?held h (sm_SessionList ?held) = Ret (Some p)"
    using find_session_eq [of "sm_SessionList sm" ?held h] assms(2) by (simp add: referenced_def)
  have "client_step os h (A_using p, D_start, ?got, w) (A_using p, D_deleting p, ?held, w)"
    by (rule destroy_now [OF _ f]) (simp_all add: i lock_iterator_def referenced_def)
  moreover have "client_step os h (A_using p, D_deleting p, ?held, w) (A_used p, D_deleting p, ?held, w)"
    by (rule exchange [of _ _ "IncreaseReference s"]) (simp add: deref_def referenced_def s)
  moreover note request_runs [OF assms, of os D_start w]
  moreover have "\<nexists>c. client_step os h (A_used p, D_deleting p, ?held, w) c"
  proof
    assume "\<exists>c. client_step os h (A_used p, D_deleting p, ?held, w) c"
    then obtain a d sm' w' where "client_step os h (A_used p, D_deleting p, ?held, w) (a, d, sm', w')"
      by (metis prod.collapse)
    then show False using s
      by (auto elim!: client_stepE simp: IteratorCriticalSectionEnter_def lock_iterator_def delete_session_def
          deref_def referenced_def IncreaseReference_def HdcpSession_delete_def)
  qed
  ultimately show ?thesis by (meson rtranclp.rtrancl_into_rtrancl)
qed

theorem destroy_in_use_deadlocks_witness:
  "\<exists>sm'. (client_step client_os 1)\<^sup>*\<^sup>* (A_start, D_start, demo_client, ()) (A_used 1, D_deleting 1, sm', ()) \<and>
    (\<nexists>c. client_step client_os 1 (A_used 1, D_deleting 1, sm', ()) c)"
  by (rule destroy_in_use_deadlocks [OF demo_client_inv])

end
