(* ===== verification/DaemonSafety.thy ===== *)
theory DaemonSafety
  imports Daemon
begin

text \<open>
  What the daemon as a whole keeps: the invariants of the server socket, of the port manager, of the
  callback list and of the SRM table together, through every turn of the message loop and through
  what the two threads of the port manager do.
\<close>

section \<open>What a handler may change\<close>

definition kept :: "HdcpDaemon \<Rightarrow> HdcpDaemon \<Rightarrow> bool" where
  "kept d d' \<longleftrightarrow> m_SdkSocket d' = m_SdkSocket d \<and> m_IsValid d' = m_IsValid d \<and>
     rel_option pm_touched (g_portMgr d) (g_portMgr d') \<and>
     (srm_ginv (g_pSrmTable d) \<longrightarrow> srm_ginv (g_pSrmTable d') \<and>
        srm_gver (g_pSrmTable d) \<le> srm_gver (g_pSrmTable d')) \<and>
     (\<not> m_CallBackListMutex (m_CallBacks d) \<longrightarrow> \<not> m_CallBackListMutex (m_CallBacks d'))"

lemma rel_option_touched_refl [simp]: "rel_option pm_touched g g"
  by (cases g) simp_all

lemma kept_refl [simp]: "kept d d"
  by (simp add: kept_def)

lemma kept_trans: "kept a b \<Longrightarrow> kept b c \<Longrightarrow> kept a c"
proof -
  assume 1: "kept a b" and 2: "kept b c"
  then have "rel_option pm_touched (g_portMgr a) (g_portMgr c)"
    by (cases "g_portMgr a"; cases "g_portMgr b"; cases "g_portMgr c")
      (auto simp: kept_def dest: pm_touched_trans)
  with 1 2 show ?thesis unfolding kept_def by (auto intro: le_trans)
qed

lemma kept_portMgr: "rel_option pm_touched (g_portMgr d) g \<Longrightarrow> kept d (d\<lparr>g_portMgr := g\<rparr>)"
  by (simp add: kept_def)

lemma kept_pSrmTable:
  "(srm_ginv (g_pSrmTable d) \<Longrightarrow> srm_ginv g \<and> srm_gver (g_pSrmTable d) \<le> srm_gver g) \<Longrightarrow>
     kept d (d\<lparr>g_pSrmTable := g\<rparr>)"
  by (simp add: kept_def)

text \<open>The descriptors that name clients are ids the port manager counts.\<close>

lemma app_id_app_of [simp]: "0 \<le> a \<Longrightarrow> a < 2147483648 \<Longrightarrow> app_id (app_of a)"
  by (simp add: app_id_def app_of_def word_less_nat_alt unsigned_of_int take_bit_eq_mod)

lemma wrappers_touched:
  "PortManagerEnumeratePorts D g ps n w = ret ((sts, g', ps', n'), w') \<Longrightarrow> rel_option pm_touched g g'"
  "app_id appId \<Longrightarrow> PortManagerEnablePort os D G wl g pid appId level w = ret ((sts, g'), w') \<Longrightarrow>
     rel_option pm_touched g g'"
  "PortManagerDisablePort os D G wl g pid appId w = ret ((sts, g'), w') \<Longrightarrow> rel_option pm_touched g g'"
  "PortManagerHandleAppExit os D G wl g appId w = ret (g', w') \<Longrightarrow> rel_option pm_touched g g'"
  "PortManagerDisableAllPorts os D G wl g w = ret (g', w') \<Longrightarrow> rel_option pm_touched g g'"
  by (cases g; auto elim!: hdcp_elims simp: PortManagerEnumeratePorts_def PM_EnumeratePorts_def Let_def
      PortManagerEnablePort_def PortManagerDisablePort_def PortManagerHandleAppExit_def
      RemoveAppFromPorts_def PortManagerDisableAllPorts_def DisableAllPorts_def pm_touched_def
      split: if_splits
      dest: enumerate_touched EnablePort_touched DisablePort_touched remove_app_touched disable_all_touched)+

lemma StoreSrm_kept:
  assumes "StoreSrm os S g data w = ret ((sts, g'), w')" "srm_ginv g"
  shows "srm_ginv g' \<and> srm_gver g \<le> srm_gver g'"
proof -
  have "srm_exec os S (Op_StoreSrm data) g w = ret ((sts, g'), w')" using assms(1) by simp
  from srm.step_inv [OF _ assms(2) this] srm.step_ver [OF _ assms(2) this] show ?thesis by simp
qed

lemma SrmConfig_kept:
  assumes "SrmConfig g b = (sts, g')" "srm_ginv g"
  shows "srm_ginv g' \<and> srm_gver g \<le> srm_gver g'"
  using srm.step_inv [where x = "Op_SrmConfig b" and s = g] srm.step_ver [where x = "Op_SrmConfig b" and s = g]
    assms by simp

section \<open>The handlers\<close>

lemma EnumeratePorts_kept:
  "EnumeratePorts E data appId d w = ret ((data', d'), w') \<Longrightarrow> kept d d'"
  by (auto simp: EnumeratePorts_def Let_def elim!: hdcp_elims split: if_splits
      intro!: kept_portMgr intro: wrappers_touched)

lemma SetProtectionLevel_kept:
  "SetProtectionLevel E data appId d w = ret ((data', d'), w') \<Longrightarrow> 0 \<le> appId \<Longrightarrow> appId < 2147483648 \<Longrightarrow>
     kept d d'"
  by (auto simp: SetProtectionLevel_def Let_def elim!: hdcp_elims split: if_splits
      intro!: kept_portMgr intro: wrappers_touched(2) [OF app_id_app_of] wrappers_touched(3))

lemma reads_only:
  "GetStatus E data appId d w = ret ((data', d'), w') \<Longrightarrow> d' = d"
  "GetKsvList E data appId d w = ret ((data', d'), w') \<Longrightarrow> d' = d"
  "GetSRMVersion E data appId d w = ret ((data', d'), w') \<Longrightarrow> d' = d"
  by (auto simp: GetStatus_def GetKsvList_def GetSRMVersion_def Let_def elim!: hdcp_elims
      split: if_splits prod.splits)

lemma SendSRMData_kept:
  "SendSRMData E data appId d w = ret ((data', d'), w') \<Longrightarrow> kept d d'"
  by (auto simp: SendSRMData_def Let_def elim!: hdcp_elims split: if_splits prod.splits
      intro!: kept_pSrmTable StoreSrm_kept)

lemma Config_kept:
  "Config E data appId d w = ret ((data', d'), w') \<Longrightarrow> kept d d'"
  by (auto simp: Config_def Let_def elim!: hdcp_elims split: if_splits prod.splits
      intro!: kept_pSrmTable SrmConfig_kept)

lemma register_kept:
  "register_callback fd (m_CallBacks d) = ret cb \<Longrightarrow> kept d (d\<lparr>m_CallBacks := cb\<rparr>)"
  by (auto simp: register_callback_def acquire_callbacks_def release_callbacks_def kept_def
      elim!: hdcp_elims split: if_splits)

lemma app_exit_kept:
  "PortManagerHandleAppExit os D G wl (g_portMgr d) a w = ret (g, w') \<Longrightarrow> kept d (d\<lparr>g_portMgr := g\<rparr>)"
  by (intro kept_portMgr wrappers_touched(4))

lemma replies_ret:
  "replies b m = ret ((s, data, d), w) \<longleftrightarrow> m = ret ((data, d), w) \<and> s = b data"
  by (auto simp: replies_def elim!: hdcp_elims)

lemma DispatchCommand_kept:
  assumes "DispatchCommand E data appId d w = ret ((s, data', d'), w')" "0 \<le> appId" "appId < 2147483648"
  shows "kept d d'"
  using assms(1) unfolding DispatchCommand_def Let_def
  by (auto simp: replies_ret elim!: hdcp_elims split: if_splits
      dest: reads_only EnumeratePorts_kept SetProtectionLevel_kept [OF _ assms(2,3)] SendSRMData_kept
        Config_kept register_kept app_exit_kept)

lemma send_reply_kept: "send_reply E b data appId d w = ret (d', w') \<Longrightarrow> kept d d'"
  by (auto simp: send_reply_def elim!: hdcp_elims split: if_splits dest: app_exit_kept)

lemma handle_task_kept:
  assumes "handle_task E data appId d w = ret (d', w')" "0 \<le> appId" "appId < 2147483648"
  shows "kept d d'"
  using assms(1) unfolding handle_task_def
  by (auto elim!: hdcp_elims split: if_splits dest: send_reply_kept
      dest!: DispatchCommand_kept [OF _ assms(2,3)] intro: kept_trans)

section \<open>The invariant of the daemon\<close>

text \<open>What one turn does, and what the two threads of the port manager do in between.\<close>

datatype daemon_op = Op_Message | Op_ThreadHotPlug | Op_ThreadIntegrity

primrec daemon_exec ::
  "'w env \<Rightarrow> daemon_op \<Rightarrow> HdcpDaemon \<Rightarrow> 'w \<Rightarrow> ((int \<times> HdcpDaemon) \<times> 'w) outcome option" where
  "daemon_exec E Op_Message d w =
     obind (message_turn E d w) (\<lambda>((goes_on, d), w).
     ret ((if goes_on then SUCCESS else ECANCELED, d), w))"
| "daemon_exec E Op_ThreadHotPlug d w =
     obind (PortManagerProcessHotPlug (e_os E) (e_drm E) (e_mem E) (g_portMgr d) (m_CallBacks d) w)
       (\<lambda>((pm, cb), w). ret ((SUCCESS, d\<lparr>g_portMgr := pm, m_CallBacks := cb\<rparr>), w))"
| "daemon_exec E Op_ThreadIntegrity d w =
     (case g_portMgr d of None \<Rightarrow> Some Undef | Some pm \<Rightarrow>
      obind (CheckIntegrity (e_os E) (e_drm E) (e_mem E) pm (m_CallBacks d) w)
       (\<lambda>((pm, cb), w). ret ((SUCCESS, d\<lparr>g_portMgr := Some pm, m_CallBacks := cb\<rparr>), w)))"

definition env_laws :: "'w env \<Rightarrow> bool" where
  "env_laws E \<longleftrightarrow> accepts_fresh (e_os E) \<and> polls_all (e_os E)"

definition daemon_inv :: "HdcpDaemon \<Rightarrow> bool" where
  "daemon_inv d \<longleftrightarrow> server_inv (m_SdkSocket d) \<and> \<not> m_CallBackListMutex (m_CallBacks d) \<and>
     pred_option pm_inv (g_portMgr d) \<and> srm_ginv (g_pSrmTable d)"

definition daemon_ver :: "HdcpDaemon \<Rightarrow> nat" where
  "daemon_ver d = srm_gver (g_pSrmTable d)"

lemma kept_inv:
  assumes "kept d d'" "daemon_inv d"
  shows "daemon_inv d' \<and> daemon_ver d \<le> daemon_ver d'"
  using assms
  by (cases "g_portMgr d"; cases "g_portMgr d'")
    (auto simp: kept_def daemon_inv_def daemon_ver_def dest: pm_touched_inv)

lemma message_turn_keeps:
  assumes "message_turn E d w = ret ((b, d'), w')" "env_laws E" "daemon_inv d"
  shows "\<exists>s. server_inv s \<and> kept (d\<lparr>m_SdkSocket := s\<rparr>) d'"
proof -
  from assms(1) obtain sts appId data s w1 where
    task: "GetTask (e_os E) (e_killed E) (e_mem E) (m_SdkSocket d) (SocketData_new (e_mem E w)) w =
      ret ((sts, appId, data, s), w1)"
    and rest: "sts \<noteq> SUCCESS \<and> d' = d\<lparr>m_SdkSocket := s\<rparr> \<or>
      sts = SUCCESS \<and> handle_task E data appId (d\<lparr>m_SdkSocket := s\<rparr>) w1 = ret (d', w')"
    by (auto simp: message_turn_def Let_def elim!: hdcp_elims split: if_splits)
  have s: "server_inv s" "sts = SUCCESS \<longrightarrow> 0 \<le> appId \<and> appId < 2147483648"
    using GetTask_raw [OF task _ _ _ refl] assms(2,3)
    by (auto simp: env_laws_def daemon_inv_def picked_def)
  have "kept (d\<lparr>m_SdkSocket := s\<rparr>) d'"
    using rest s(2) handle_task_kept by auto
  with s(1) show ?thesis by blast
qed

lemma thread_kept:
  "daemon_exec E Op_ThreadHotPlug d w = ret ((r, d'), w') \<Longrightarrow> kept d d'"
  "daemon_exec E Op_ThreadIntegrity d w = ret ((r, d'), w') \<Longrightarrow> kept d d'"
  by (cases "g_portMgr d"; auto elim!: hdcp_elims simp: PortManagerProcessHotPlug_def ProcessHotPlug_def
      CheckIntegrity_def kept_def pm_touched_def dest: hotplug_touched integrity_touched)+

lemma daemon_exec_keeps:
  assumes "daemon_exec E x d w = ret ((r, d'), w')" "env_laws E" "daemon_inv d"
  shows "daemon_inv d' \<and> daemon_ver d \<le> daemon_ver d'"
proof (cases x)
  case Op_Message
  with assms obtain s where s: "server_inv s" "kept (d\<lparr>m_SdkSocket := s\<rparr>) d'"
    by (auto elim!: hdcp_elims dest: message_turn_keeps)
  then have "daemon_inv (d\<lparr>m_SdkSocket := s\<rparr>)" using assms(3) by (simp add: daemon_inv_def)
  from kept_inv [OF s(2) this] show ?thesis by (simp add: daemon_ver_def)
qed (use assms thread_kept kept_inv in metis)+

interpretation daemon: versioned_store "daemon_exec E" "\<lambda>_. env_laws E" daemon_inv daemon_ver
  for E :: "'w env"
  by unfold_locales (auto dest: daemon_exec_keeps)

end
