(* ===== verification/DaemonMain.thy ===== *)
theory DaemonMain
  imports DaemonSafety DisplayWindow
begin

text \<open>
  The program of the daemon: \<^verbatim>\<open>src/daemon/main.cpp\<close>, with the destructor of \<^verbatim>\<open>HdcpDaemon\<close>. The calls
  it makes to the system besides those of the components are the record below.
\<close>

section \<open>Starting up\<close>

record 'w process_api =
  px_lock :: "int \<Rightarrow> 'w \<Rightarrow> bool \<times> 'w"
  px_getpid :: "'w \<Rightarrow> nat"
  px_opendir :: "string \<Rightarrow> 'w \<Rightarrow> bool \<times> 'w"
  px_mkdir :: "string \<Rightarrow> 'w \<Rightarrow> int \<times> 'w"
  px_getpwnam :: "string \<Rightarrow> 'w \<Rightarrow> bool \<times> 'w"
  px_chown :: "string \<Rightarrow> 'w \<Rightarrow> int \<times> 'w"
  px_fork :: "'w \<Rightarrow> int \<times> 'w"
  px_setsid :: "'w \<Rightarrow> 'w"

definition HDCP_PIDFILE :: string where
  "HDCP_PIDFILE = ''/var/run/hdcpd.pid''"

definition HDCP_DIR_BASE :: string where
  "HDCP_DIR_BASE = ''/var/run/hdcp/''"

text \<open>\<^verbatim>\<open>std::to_string\<close> of a process id, as the bytes written.\<close>

fun to_string :: "nat \<Rightarrow> u8 list" where
  "to_string n = (if n < 10 then [48 + of_nat n] else to_string (n div 10) @ [48 + of_nat (n mod 10)])"

declare to_string.simps [simp del]

definition AlreadyRunning :: "'w os_api \<Rightarrow> 'w process_api \<Rightarrow> 'w \<Rightarrow> bool \<times> 'w" where
  "AlreadyRunning os P w =
     (let (fd, w) = os_open os HDCP_PIDFILE [O_RDWR, O_CREAT] w in
      case fd of Inl e \<Rightarrow> (True, w)
      | Inr fd \<Rightarrow>
          let (locked, w) = px_lock P fd w in
          if \<not> locked then (True, snd (os_close os fd w)) else
          let (r, w) = os_write os fd (to_string (px_getpid P w)) w in
          case r of Inl e \<Rightarrow> (True, snd (os_close os fd w))
          | Inr n \<Rightarrow> (False, snd (os_close os fd w)))"

text \<open>The result of \<^verbatim>\<open>daemon_init\<close>; \<open>Inl c\<close> is the parent's \<^verbatim>\<open>exit(c)\<close>.\<close>

definition daemon_init :: "'w os_api \<Rightarrow> 'w process_api \<Rightarrow> 'w \<Rightarrow> (int + int) \<times> 'w" where
  "daemon_init os P w =
     (let (pid, w) = px_fork P w in
      if pid < 0 then (Inr (-1), w)
      else if pid \<noteq> 0 then (Inl SUCCESS, w)
      else let w = px_setsid P w; w = snd (os_close os 0 w); w = snd (os_close os 1 w);
               w = snd (os_close os 2 w) in (Inr 0, w))"

definition InitializeDirectory :: "'w os_api \<Rightarrow> 'w process_api \<Rightarrow> 'w \<Rightarrow> int \<times> 'w" where
  "InitializeDirectory os P w =
     (let (dir, w) = px_opendir P HDCP_DIR_BASE w in
      if dir then (SUCCESS, w) else
      let (r, w) = px_mkdir P HDCP_DIR_BASE w in
      if r = -1 then (os_errno os w, w) else
      let (mediaId, w) = px_getpwnam P ''media'' w in
      if \<not> mediaId then (os_errno os w, w) else
      let (r, w) = px_chown P HDCP_DIR_BASE w in
      if r = -1 then (os_errno os w, w) else (SUCCESS, w))"

section \<open>The daemon's life\<close>

text \<open>
  \<open>daemon_start\<close> is \<^verbatim>\<open>InitializeWithMinimalPrivileges\<close> up to the message loop, its status \<open>1\<close>
  standing for a jump to \<^verbatim>\<open>out\<close>; \<open>daemon_stop\<close> is what follows that label and the destructors of
  the local \<^verbatim>\<open>daemon\<close>.
\<close>

definition daemon_start ::
  "'w env \<Rightarrow> 'w \<Rightarrow> ((int \<times> HdcpDaemon) \<times> 'w) outcome option" where
  "daemon_start E w =
     (let (d, w) = HdcpDaemon_new (e_os E) None None w in
      obind (SrmInit (e_os E) (e_ssl E) (g_pSrmTable d) w) (\<lambda>((sts, srm), w).
      let d = d\<lparr>g_pSrmTable := srm\<rparr> in
      if sts \<noteq> SUCCESS then ret ((1, d), w) else
      obind (PortManagerInit (e_os E) (e_drm E) (g_portMgr d) w) (\<lambda>((sts, pm), w).
      let d = d\<lparr>g_portMgr := pm\<rparr> in
      if sts \<noteq> SUCCESS then ret ((1, d), w) else
      let ((sts, d), w) = HdcpDaemon_Init (e_os E) d w in
      if sts \<noteq> SUCCESS then ret ((1, d), w)
      else if \<not> m_IsValid d then ret ((1, d), w)
      else ret ((SUCCESS, d), w))))"

definition HdcpDaemon_delete ::
  "'w os_api \<Rightarrow> HdcpDaemon \<Rightarrow> 'w \<Rightarrow> 'w outcome option" where
  "HdcpDaemon_delete os d w =
     obind (if \<not> m_IsValid d then ret (m_CallBacks d, w) else CallBacks_delete os (m_CallBacks d) w)
       (\<lambda>(cb, w). ret (GenericStreamSocket_delete os (GenericStreamSocket.truncate (m_SdkSocket d)) w))"

definition daemon_stop ::
  "'w env \<Rightarrow> bool \<times> int \<Rightarrow> HdcpDaemon \<Rightarrow> 'w \<Rightarrow> 'w outcome option" where
  "daemon_stop E th d w =
     obind (PortManagerRelease (e_os E) (e_drm E) (e_mem E) (e_nl E) th (g_portMgr d) (m_CallBacks d) w)
       (\<lambda>(pm, w). HdcpDaemon_delete (e_os E)
         (d\<lparr>g_portMgr := pm, g_pSrmTable := SrmRelease (g_pSrmTable d)\<rparr>) w)"

text \<open>The event thread opens its socket at the barrier \<^verbatim>\<open>PortManagerInit\<close> waits at.\<close>

definition InitializeWithMinimalPrivileges :: "'w env \<Rightarrow> 'w \<Rightarrow> (int \<times> 'w) outcome option" where
  "InitializeWithMinimalPrivileges E w =
     obind (daemon_start E w) (\<lambda>((sts, d), w).
     let (th, w) = (if g_portMgr d = None then ((False, -1), w) else uevent_open (e_nl E) w) in
     if sts \<noteq> SUCCESS then obind (daemon_stop E th d w) (\<lambda>w. ret (sts, w)) else
     obind (MessageResponseLoop E d w) (\<lambda>(d, w).
     obind (daemon_stop E th d w) (\<lambda>w. ret (SUCCESS, w))))"

text \<open>\<^verbatim>\<open>main\<close>, without the log file; the result is the exit status.\<close>

definition daemon_main :: "'w process_api \<Rightarrow> 'w env \<Rightarrow> 'w \<Rightarrow> (int \<times> 'w) outcome option" where
  "daemon_main P E w =
     (let os = e_os E; (mediaId, w) = px_getpwnam P ''media'' w;
          ias_env = os_getenv os ''XDG_RUNTIME_DIR'' w;
          (running, w) = AlreadyRunning os P w in
      if running then ret (1, w)
      else if \<not> mediaId then ret (1, w) else
      let (r, w) = daemon_init os P w in
      case r of Inl c \<Rightarrow> ret (c, w)
      | Inr r \<Rightarrow>
          if r < 0 then ret (1, w) else
          let (r, w) = InitializeDirectory os P w in
          if r \<noteq> SUCCESS then ret (1, w) else
          let ((_, wl), w) = (if ias_env \<noteq> None then util_create_display (e_gwl E) wl_start w
                else ((False, wl_start), w)) in
          obind (InitializeWithMinimalPrivileges (E\<lparr>e_wl := wl\<rparr>) w) (\<lambda>(sts, w).
          if ias_env \<noteq> None
          then obind (Some (util_destroy_display (e_gwl E) wl w)) (\<lambda>(wl, w). ret (sts, w))
          else ret (sts, w)))"

end
