(* ===== verification/DaemonProperties.thy ===== *)
theory DaemonProperties
  imports DaemonMain
begin

text \<open>
  The properties of the daemon as a whole: its invariant from the start on, the requests it refuses,
  what ends with a client's connection, and the check that it is the only one.
\<close>

section \<open>From the start on\<close>

text \<open>The descriptor of a new socket is a 32-bit integer, and binding it fails if it is \<open>-1\<close>.\<close>

definition socket_laws :: "'w os_api \<Rightarrow> bool" where
  "socket_laws os \<longleftrightarrow> (\<forall>w. fst (os_socket os w) < 2 ^ 31) \<and>
     (\<forall>n w. \<exists>e. 0 < e \<and> fst (os_listen os (-1) n w) = Inl e)"

lemma HdcpDaemon_new_fields:
  assumes "HdcpDaemon_new os pm srm w = (d, w')" "socket_laws os"
  shows "m_SessionFdArray (m_SdkSocket d) = replicate 6 empty_slot \<and> m_FdIndex (m_SdkSocket d) = 0 \<and>
    -1 \<le> m_Fd (m_SdkSocket d) \<and> m_Fd (m_SdkSocket d) < 2147483648 \<and>
    m_CallBacks d = no_callbacks \<and> g_portMgr d = pm \<and> g_pSrmTable d = srm"
proof -
  have "fst (os_socket os w) < 2147483648" using assms(2) by (simp add: socket_laws_def)
  with assms(1) show ?thesis
    by (auto simp: HdcpDaemon_new_def LocalServerSocket_new_def GenericStreamSocket_new_def Let_def
        no_callbacks_def split: prod.splits)
qed

lemma replicate_6: "replicate 6 x = [x, x, x, x, x, x]"
  by (simp add: numeral_eq_Suc)

lemma Listen_inv:
  assumes "Listen os s w = ((SUCCESS, s'), w')" "socket_laws os"
    and "m_SessionFdArray s = replicate 6 empty_slot" "m_FdIndex s = 0" "-1 \<le> m_Fd s" "m_Fd s < 2147483648"
  shows "server_inv s'"
proof -
  have "m_Fd s \<noteq> -1"
  proof
    assume m: "m_Fd s = -1"
    obtain e w1 where "0 < e" "os_listen os (-1) 12 w = (Inl e, w1)"
      using assms(2) by (metis socket_laws_def prod.collapse)
    with assms(1) m show False by (simp add: Listen_def errno_of_def)
  qed
  moreover have "m_SessionFdArray s' = (replicate 6 empty_slot)[0 := empty_slot\<lparr>pfd_fd := m_Fd s, pfd_events := POLLIN\<rparr>]"
    "m_FdIndex s' = 0" "m_Fd s' = m_Fd s"
    using assms(1,3,4) by (auto simp: Listen_def split: prod.splits if_splits)
  ultimately show ?thesis
    using assms(5,6) by (simp add: replicate_6 server_inv_def empty_slot_def)
qed

lemma daemon_start_inv:
  assumes "daemon_start E w = ret ((SUCCESS, d), w')" "socket_laws (e_os E)"
  shows "daemon_inv d \<and> g_portMgr d \<noteq> None \<and> g_pSrmTable d \<noteq> None"
proof -
  obtain d0 w0 where new: "HdcpDaemon_new (e_os E) None None w = (d0, w0)" by fastforce
  note f = HdcpDaemon_new_fields [OF new assms(2)]
  from assms(1) new obtain srm w1 pm w2 where
    srm: "SrmInit (e_os E) (e_ssl E) None w0 = ret ((SUCCESS, srm), w1)"
    and pm: "PortManagerInit (e_os E) (e_drm E) None w1 = ret ((SUCCESS, pm), w2)"
    and i: "HdcpDaemon_Init (e_os E) (d0\<lparr>g_pSrmTable := srm, g_portMgr := pm\<rparr>) w2 = ((SUCCESS, d), w')"
    using f by (auto simp: daemon_start_def Let_def elim!: hdcp_elims split: prod.splits if_splits)
  have "pred_option pm_inv pm \<and> pm \<noteq> None"
    using pm unfolding PortManagerInit_def
    by (auto elim!: hdcp_elims split: prod.splits if_splits) (rule PortManager_new_inv)
  moreover have "srm_ginv srm \<and> srm \<noteq> None"
    using SrmInit_inv [OF srm] srm unfolding SrmInit_def
    by (auto elim!: hdcp_elims split: prod.splits if_splits)
  moreover obtain s w3 where l: "Listen (e_os E) (m_SdkSocket d0) w3 = ((SUCCESS, s), w')"
    and "d = d0\<lparr>g_pSrmTable := srm, g_portMgr := pm, m_SdkSocket := s\<rparr>"
    using i by (auto simp: HdcpDaemon_Init_def split: prod.splits if_splits)
  moreover have "server_inv s" using Listen_inv [OF l assms(2)] f by simp
  ultimately show ?thesis using f by (simp add: daemon_inv_def no_callbacks_def)
qed

text \<open>C1: From a successful start on, after any number of turns of the message loop, hot plug events
  and integrity checks in any order: the server's table keeps its shape, the ports are numbered and
  no application is counted twice for one, no mutex is left locked, the SRM table is well-formed, and
  its version has not decreased.\<close>

theorem daemon_invariant:
  assumes "daemon_start E w0 = ret ((SUCCESS, d), w1)" "socket_laws (e_os E)" "env_laws E"
    and "run_ops (daemon_exec E) ops d w1 = ret ((rs, d'), w2)"
  shows "daemon_inv d' \<and> daemon_ver d \<le> daemon_ver d'"
proof -
  have ok: "list_all (\<lambda>_. env_laws E) ops" using assms(3) by (simp add: list.pred_True)
  note inv = daemon_start_inv [OF assms(1,2), THEN conjunct1]
  from daemon.run_inv [OF ok inv assms(4)] daemon.run_ver [OF ok inv assms(4)] show ?thesis ..
qed

section \<open>Requests that are refused\<close>

definition known_command :: "u32 \<Rightarrow> bool" where
  "known_command c \<longleftrightarrow> c \<in> api ` {HDCP_API_ENUMERATE_HDCP_DISPLAY, HDCP_API_CREATE, HDCP_API_DESTROY,
     HDCP_API_CREATE_CALLBACK, HDCP_API_SET_PROTECTION_LEVEL, HDCP_API_GETSTATUS, HDCP_API_GETKSVLIST,
     HDCP_API_SENDSRMDATA, HDCP_API_GETSRMVERSION, HDCP_API_CONFIG}"

definition bad_request :: "SocketData \<Rightarrow> bool" where
  "bad_request data \<longleftrightarrow>
     sd_Command data \<in> {api HDCP_API_SET_PROTECTION_LEVEL, api HDCP_API_GETSTATUS, api HDCP_API_GETKSVLIST} \<and>
       (sd_PortCount data \<noteq> ONE_PORT \<or> PORT_ID_MAX < Port_Id (SinglePort data)) \<or>
     sd_Command data = api HDCP_API_SET_PROTECTION_LEVEL \<and>
       sd_Level data \<notin> {HDCP_LEVEL0, HDCP_LEVEL1, HDCP_LEVEL2} \<or>
     sd_Command data = api HDCP_API_SENDSRMDATA \<and> SRM_FIRST_GEN_MAX_SIZE < sd_SrmOrKsvListDataSz data \<or>
     \<not> known_command (sd_Command data)"

lemma bad_request_refused:
  assumes "bad_request data"
  shows "DispatchCommand E data appId d w = ret ((True, status HDCP_STATUS_ERROR_INVALID_PARAMETER data, d), w)"
proof -
  have "sd_Command data = api HDCP_API_SET_PROTECTION_LEVEL \<or> sd_Command data = api HDCP_API_GETSTATUS \<or>
    sd_Command data = api HDCP_API_GETKSVLIST \<or> sd_Command data = api HDCP_API_SENDSRMDATA \<or>
    \<not> known_command (sd_Command data)"
    using assms by (auto simp: bad_request_def)
  then show ?thesis
  proof (elim disjE)
    assume c: "sd_Command data = api HDCP_API_SET_PROTECTION_LEVEL"
    with assms have "SetProtectionLevel E data appId d w =
        ret ((status HDCP_STATUS_ERROR_INVALID_PARAMETER data, d), w)"
      by (auto simp: SetProtectionLevel_def bad_request_def known_command_def)
    with c show ?thesis by (simp add: DispatchCommand_def replies_def)
  next
    assume c: "sd_Command data = api HDCP_API_GETSTATUS"
    with assms have "GetStatus E data appId d w =
        ret ((status HDCP_STATUS_ERROR_INVALID_PARAMETER data, d), w)"
      by (auto simp: GetStatus_def bad_request_def known_command_def Let_def)
    with c show ?thesis by (simp add: DispatchCommand_def replies_def)
  next
    assume c: "sd_Command data = api HDCP_API_GETKSVLIST"
    with assms have "GetKsvList E data appId d w =
        ret ((status HDCP_STATUS_ERROR_INVALID_PARAMETER data, d), w)"
      by (auto simp: GetKsvList_def bad_request_def known_command_def Let_def)
    with c show ?thesis by (simp add: DispatchCommand_def replies_def)
  next
    assume c: "sd_Command data = api HDCP_API_SENDSRMDATA"
    with assms have "SendSRMData E data appId d w =
        ret ((status HDCP_STATUS_ERROR_INVALID_PARAMETER data, d), w)"
      by (auto simp: SendSRMData_def bad_request_def known_command_def Let_def)
    with c show ?thesis by (simp add: DispatchCommand_def replies_def)
  next
    assume "\<not> known_command (sd_Command data)"
    then show ?thesis by (simp add: DispatchCommand_def known_command_def)
  qed
qed

text \<open>C25: A request of the wrong size, with an unknown command, or with a parameter out of range is
  answered with exactly one message, the request with the status INVALID_PARAMETER (and its size put
  right), and has no other effect: unless that answer cannot be sent the daemon is as before, and no
  other call was made.\<close>

theorem invalid_request_refused:
  assumes "sd_Size data \<noteq> of_nat sizeof_SocketData \<or> bad_request data"
    and "SendResponse (e_os E) ((status HDCP_STATUS_ERROR_INVALID_PARAMETER data)
      \<lparr>sd_Size := of_nat sizeof_SocketData\<rparr>) appId w = ret (SUCCESS, w1)"
  shows "handle_task E data appId d w = ret (d, w1)"
proof (cases "sd_Size data = of_nat sizeof_SocketData")
  case True
  then have "(status HDCP_STATUS_ERROR_INVALID_PARAMETER data)\<lparr>sd_Size := of_nat sizeof_SocketData\<rparr> =
      status HDCP_STATUS_ERROR_INVALID_PARAMETER data" by (cases data) simp
  with True assms have "SendResponse (e_os E) (status HDCP_STATUS_ERROR_INVALID_PARAMETER data) appId w =
      ret (SUCCESS, w1)" by metis
  with True assms show ?thesis by (simp add: handle_task_def bad_request_refused send_reply_def)
next
  case False
  with assms(2) show ?thesis by (simp add: handle_task_def send_reply_def)
qed

text \<open>An environment for the witnesses, in which the daemon starts and nobody connects.\<close>

definition demo_env :: "nat env" where
  "demo_env = \<lparr>e_os = idle_os\<lparr>os_socket := Pair 4, os_setsockopt := (\<lambda>fd w. (Inr (), w)),
       os_fcntl_getfl := (\<lambda>fd w. (Inr 0, w)), os_fcntl_setfl := (\<lambda>fd fl w. (Inr (), w)),
       os_bind := (\<lambda>fd p w. (Inr (), w)),
       os_listen := (\<lambda>fd n w. (if fd = -1 then Inl 9 else Inr (), w))\<rparr>,
     e_drm = demo_drm, e_gwl = idle_gwl, e_ssl = idle_ssl,
     e_nl = \<lparr>nl_socket = Pair 3, nl_setsockopt = (\<lambda>fd. Pair 0), nl_bind = (\<lambda>fd. Pair 0),
       nl_recv = (\<lambda>fd n w. (Inl EINTR, w))\<rparr>,
     e_mem = (\<lambda>w. example_mem), e_heap = (\<lambda>w. []), e_killed = (\<lambda>w. False), e_wl = wl_start\<rparr>"

definition demo_daemon :: HdcpDaemon where
  "demo_daemon = \<lparr>m_SdkSocket = \<lparr>m_Fd = 4, m_IsMainFdListening = True,
       m_SessionFdArray = [\<lparr>pfd_fd = 4, pfd_events = 1, pfd_revents = 0\<rparr>,
         empty_slot, empty_slot, empty_slot, empty_slot, empty_slot], m_FdIndex = 0\<rparr>,
     m_CallBacks = no_callbacks, m_IsValid = True, g_portMgr = Some demo_pm,
     g_pSrmTable = Some example_table\<rparr>"

lemma demo_start: "daemon_start demo_env 0 = ret ((SUCCESS, demo_daemon), 0)"
  by code_simp

lemma demo_integrity: "run_ops (daemon_exec demo_env) [Op_ThreadIntegrity] demo_daemon 0 =
    ret (([SUCCESS], demo_daemon), 0)"
  by code_simp

theorem daemon_invariant_witness: "daemon_inv demo_daemon"
  using daemon_invariant [OF demo_start _ _ demo_integrity]
  by (simp add: socket_laws_def env_laws_def accepts_fresh_def polls_all_def demo_env_def idle_simps)

text \<open>The world of the next witness is what was sent; a send takes everything.\<close>

definition sending_os :: "u8 list os_api" where
  "sending_os = idle_os\<lparr>os_send := (\<lambda>fd bs w. (Inr (length bs), w @ bs))\<rparr>"

lemma sending_response:
  assumes "sd_wf d"
  shows "SendResponse sending_os d 5 w = ret (SUCCESS, w @ encode d)"
proof -
  have "length (encode d) = 100" using assms by simp
  then show ?thesis
    by (simp add: SendResponse_def WriteData_def)
      (subst write_loop.simps, simp add: sending_os_def idle_simps, subst write_loop.simps, simp)
qed

definition sending_env :: "u8 list env" where
  "sending_env = \<lparr>e_os = sending_os, e_drm = idle_drm, e_gwl = idle_gwl, e_ssl = accepting_ssl,
     e_nl = \<lparr>nl_socket = Pair 3, nl_setsockopt = (\<lambda>fd. Pair 0), nl_bind = (\<lambda>fd. Pair 0),
       nl_recv = (\<lambda>fd n w. (Inl EINTR, w))\<rparr>,
     e_mem = (\<lambda>w. example_mem), e_heap = (\<lambda>w. []), e_killed = (\<lambda>w. False), e_wl = wl_start\<rparr>"

theorem invalid_request_refused_witness:
  "handle_task sending_env (example_mem\<lparr>sd_Size := 100, sd_Command := 99\<rparr>) 5 demo_daemon [] =
     ret (demo_daemon, encode (example_mem\<lparr>sd_Command := 99,
       sd_Status := st HDCP_STATUS_ERROR_INVALID_PARAMETER, sd_Size := 100\<rparr>))"
proof (rule invalid_request_refused)
  show "sd_Size (example_mem\<lparr>sd_Size := 100, sd_Command := 99\<rparr>) \<noteq> of_nat sizeof_SocketData \<or>
      bad_request (example_mem\<lparr>sd_Size := 100, sd_Command := 99\<rparr>)"
    by (simp add: bad_request_def known_command_def)
qed (use sending_response example_mem_wf in \<open>simp add: sending_env_def\<close>)

section \<open>An SRM that is too short\<close>

text \<open>C40: A client can send the daemon into undefined behaviour: if it announces SRM data of fewer
  than five bytes and sends them, the daemon, which checks the upper bound of the size only, reads the
  header beyond the end of its buffer.\<close>

theorem short_srm_request_undefined:
  fixes data :: SocketData
  defines "n \<equiv> unat (sd_SrmOrKsvListDataSz data)"
  assumes "sd_Command data = api HDCP_API_SENDSRMDATA" "n < SRM_HEADER_LENGTH" "g_pSrmTable d = Some t"
    and "os_new (e_os E) n w = (True, w1)"
    and "SendResponse (e_os E) (status HDCP_STATUS_SUCCESSFUL data) appId w1 = ret (SUCCESS, w2)"
    and "reads_in_order (e_os E) inc"
    and "GetSrmData (e_os E) (Some (fresh E n w1)) (int n) appId w2 = ret ((SUCCESS, Some m), w3)"
  shows "DispatchCommand E data appId d w = Some Undef"
proof -
  have le: "\<not> SRM_FIRST_GEN_MAX_SIZE < sd_SrmOrKsvListDataSz data"
    using assms(3) by (simp add: n_def word_less_nat_alt)
  have "ReadData (e_os E) appId (Some (fresh E n w1)) (int n) w2 = ret ((SUCCESS, Some m), w3)"
    using assms(3,8) by (simp add: GetSrmData_def)
  from ReadData_partial [OF this assms(7)] assms(3) have "length m = n" by auto
  then have "length m < SRM_HEADER_LENGTH" using assms(3) by simp
  from RetrieveSrm_short [OF this, of "e_os E" "e_ssl E" t w3]
  have "StoreSrm (e_os E) (e_ssl E) (g_pSrmTable d) m w3 = Some Undef"
    using assms(4) by (simp add: StoreSrm_def)
  with le assms(5,6,8) have "SendSRMData E data appId d w = Some Undef"
    by (simp add: SendSRMData_def n_def Let_def)
  with assms(2) show ?thesis by (simp add: DispatchCommand_def replies_def)
qed

theorem short_srm_request_undefined_witness:
  "DispatchCommand sending_env (example_mem\<lparr>sd_Command := api HDCP_API_SENDSRMDATA,
     sd_SrmOrKsvListDataSz := 0\<rparr>) 5 demo_daemon [] = Some Undef"
proof -
  let ?d = "example_mem\<lparr>sd_Command := api HDCP_API_SENDSRMDATA, sd_SrmOrKsvListDataSz := 0\<rparr>"
  have "os_new sending_os 0 [] = (True, [])" "reads_in_order sending_os (\<lambda>w fd. [])"
    by (auto simp: sending_os_def idle_simps reads_in_order_def)
  moreover have "GetSrmData sending_os (Some []) 0 5 w = ret ((SUCCESS, Some []), w)" for w
    by (simp add: GetSrmData_def ReadData_def) (subst read_loop.simps, simp)
  moreover have "SendResponse sending_os (status HDCP_STATUS_SUCCESSFUL ?d) 5 [] =
      ret (SUCCESS, encode (status HDCP_STATUS_SUCCESSFUL ?d))"
    using sending_response [of "status HDCP_STATUS_SUCCESSFUL ?d" "[]"] example_mem_wf by simp
  ultimately show ?thesis
    using short_srm_request_undefined [of ?d demo_daemon example_table sending_env "[]" "[]" 5 _ "\<lambda>w fd. []" "[]"]
    by (simp add: sending_env_def demo_daemon_def fresh_def)
qed

section \<open>The end of a connection\<close>

text \<open>C5: When the daemon handles the end of a client's connection, be it announced or found out by a
  failing read, that client is taken off every port that is not known to be disconnected, whatever
  its id: no port keeps protection for an application that is gone, and no other application loses
  its own.\<close>

theorem disconnect_releases_ports:
  assumes "GetTask (e_os E) (e_killed E) (e_mem E) (m_SdkSocket d) (SocketData_new (e_mem E w)) w =
      ret ((SUCCESS, appId, data, s), w1)"
    and "sd_Command data = api HDCP_API_DESTROY" "sd_Size data = of_nat sizeof_SocketData"
    and "message_turn E d w = ret ((b, d'), w')" "g_portMgr d = Some pm" "pm_inv pm"
    and "i < length (m_DrmObjects pm)" "m_Connection (obj pm i) \<noteq> DRM_MODE_DISCONNECTED"
  shows "\<exists>pm'. g_portMgr d' = Some pm' \<and> app_refs (obj pm' i) = app_refs (obj pm i) - {app_of appId}"
proof -
  from assms(1-5) obtain pm' where
    run: "RemoveAppFromPorts (e_os E) (e_drm E) (e_gwl E) (e_wl E) pm (app_of appId) w1 = ret (pm', w')"
    and d': "g_portMgr d' = Some pm'"
    by (auto simp: message_turn_def handle_task_def DispatchCommand_def send_reply_def
        PortManagerHandleAppExit_def Let_def elim!: hdcp_elims)
  from remove_app_refs [OF run [unfolded RemoveAppFromPorts_def] assms(6) _ _ assms(7)] assms(7,8) d'
  show ?thesis by simp
qed

text \<open>Client 5 of the example server has hung up; it had port 0 enabled.\<close>

definition hangup_env :: "nat env" where
  "hangup_env = demo_env\<lparr>e_os := hangup_os\<rparr>"

definition hangup_daemon :: HdcpDaemon where
  "hangup_daemon = demo_daemon\<lparr>m_SdkSocket := example_server,
     g_portMgr := Some (set_obj 0 (AddRefAppId 5 demo_object) demo_pm)\<rparr>"

theorem disconnect_releases_ports_witness:
  "\<exists>b d' w' pm'. message_turn hangup_env hangup_daemon 0 = ret ((b, d'), w') \<and>
     g_portMgr d' = Some pm' \<and> app_refs (obj pm' 0) = {}"
proof -
  let ?pm = "set_obj 0 (AddRefAppId 5 demo_object) demo_pm"
  have task: "GetTask (e_os hangup_env) (e_killed hangup_env) (e_mem hangup_env) (m_SdkSocket hangup_daemon)
      (SocketData_new (e_mem hangup_env 0)) 0 = ret ((SUCCESS, 5, hangup_request, hungup_server), 0)"
    using hangup_task by (simp add: hangup_env_def demo_env_def hangup_daemon_def)
  have o: "obj demo_pm 0 = demo_object" "0 < length (m_DrmObjects demo_pm)"
    by (simp_all add: demo_pm_def obj_def)
  have inv: "pm_inv ?pm"
    using o by (intro pm_touched_inv [OF pm_touched_set demo_inv]) (simp_all add: touched_ops(5) app_id_def)
  have exit: "PortManagerHandleAppExit (e_os hangup_env) (e_drm hangup_env) (e_gwl hangup_env) (e_wl hangup_env)
      (Some ?pm) (app_of 5) 0 = ret (Some demo_pm, 1)" by code_simp
  have f: "g_portMgr hangup_daemon = Some ?pm" by (simp add: hangup_daemon_def)
  have req: "sd_Command hangup_request = api HDCP_API_DESTROY" "sd_Size hangup_request = 100"
    by (simp_all add: hangup_request_def)
  have turn: "message_turn hangup_env hangup_daemon 0 =
      ret ((True, hangup_daemon\<lparr>m_SdkSocket := hungup_server, g_portMgr := Some demo_pm\<rparr>), 1)"
    using req exit f by (simp add: message_turn_def task handle_task_def DispatchCommand_def send_reply_def)
  from disconnect_releases_ports [OF task req(1) _ turn _ inv, of 0] o
  have "app_refs (obj demo_pm 0) = app_refs (obj ?pm 0) - {app_of 5}"
    using req(2) by (simp add: hangup_daemon_def set_obj_def obj_def demo_object_def DrmObject_new_def)
  moreover have "app_refs demo_object = {}" by (simp add: demo_object_def DrmObject_new_def app_refs_def)
  ultimately show ?thesis using turn o by auto
qed

section \<open>Being the only daemon\<close>

text \<open>
  The documented behaviour of the lock of \<^verbatim>\<open>fcntl\<close>: \<open>locked w\<close> says that some process holds it; it can
  be taken exactly if it is free, and a process that closes a descriptor of the file gives it up.
\<close>

definition record_lock :: "'w os_api \<Rightarrow> 'w process_api \<Rightarrow> ('w \<Rightarrow> bool) \<Rightarrow> bool" where
  "record_lock os P locked \<longleftrightarrow>
     (\<forall>fd w. fst (px_lock P fd w) = (\<not> locked w)) \<and>
     (\<forall>fl w. locked (snd (os_open os HDCP_PIDFILE fl w)) = locked w) \<and>
     (\<forall>fl w fd u. fst (os_open os HDCP_PIDFILE fl w) = Inr fd \<longrightarrow> \<not> locked (snd (os_close os fd u)))"

text \<open>The lock on the pid file does not keep a second daemon from starting: the file is closed before
  the check returns, which gives the lock up, so another process whose calls succeed finds it free
  although the first daemon is running.\<close>

theorem second_daemon_not_detected:
  assumes "record_lock os P locked" "AlreadyRunning os P w = (False, w1)"
    and "fst (os_open os HDCP_PIDFILE [O_RDWR, O_CREAT] w1) = Inr fd"
    and "\<And>bs u. \<exists>n. fst (os_write os fd bs u) = Inr n"
  shows "\<not> locked w1 \<and> \<not> fst (AlreadyRunning os P w1)"
proof -
  have laws: "fst (px_lock P fd v) = (\<not> locked v)" "locked (snd (os_open os HDCP_PIDFILE fl v)) = locked v"
    "fst (os_open os HDCP_PIDFILE fl v) = Inr fd \<Longrightarrow> \<not> locked (snd (os_close os fd u))" for fd fl u v
    using assms(1) unfolding record_lock_def by auto
  obtain q w2 where o: "os_open os HDCP_PIDFILE [O_RDWR, O_CREAT] w = (q, w2)" by fastforce
  with assms(2) obtain fd1 u where q: "q = Inr fd1" "w1 = snd (os_close os fd1 u)"
    by (auto simp: AlreadyRunning_def Let_def split: sum.splits prod.splits if_splits)
  then have free: "\<not> locked w1" using laws(3) [of "[O_RDWR, O_CREAT]" w fd1 u] o by simp
  obtain w3 where o': "os_open os HDCP_PIDFILE [O_RDWR, O_CREAT] w1 = (Inr fd, w3)"
    using assms(3) by (cases "os_open os HDCP_PIDFILE [O_RDWR, O_CREAT] w1") simp
  then have "\<not> locked w3" using laws(2) [of "[O_RDWR, O_CREAT]" w1] free by simp
  then obtain w4 where l: "px_lock P fd w3 = (True, w4)"
    using laws(1) [of fd w3] by (cases "px_lock P fd w3") simp
  obtain n where "fst (os_write os fd (to_string (px_getpid P w4)) w4) = Inr n" using assms(4) by blast
  with o' l free show ?thesis by (auto simp: AlreadyRunning_def Let_def split: prod.splits sum.splits)
qed

text \<open>The world says whether the lock is held.\<close>

definition lock_os :: "bool os_api" where
  "lock_os = idle_os\<lparr>os_open := (\<lambda>p fl w. (Inr 3, w)), os_write := (\<lambda>fd bs w. (Inr (length bs), w)),
     os_close := (\<lambda>fd w. (Inr (), False))\<rparr>"

definition lock_process :: "bool process_api" where
  "lock_process = \<lparr>px_lock = (\<lambda>fd w. (\<not> w, True)), px_getpid = (\<lambda>w. 42), px_opendir = (\<lambda>p. Pair True),
     px_mkdir = (\<lambda>p. Pair 0), px_getpwnam = (\<lambda>s. Pair True), px_chown = (\<lambda>p. Pair 0),
     px_fork = Pair 0, px_setsid = id\<rparr>"

theorem second_daemon_not_detected_witness:
  "\<not> fst (AlreadyRunning lock_os lock_process False)"
proof -
  have "record_lock lock_os lock_process id"
    by (simp add: record_lock_def lock_os_def lock_process_def idle_simps)
  moreover have "AlreadyRunning lock_os lock_process False = (False, False)"
    by (simp add: AlreadyRunning_def lock_os_def lock_process_def idle_simps)
  ultimately show ?thesis
    using second_daemon_not_detected [of lock_os lock_process id False False 3]
    by (simp add: lock_os_def)
qed

end
