(* ===== verification/EndToEnd.thy ===== *)
theory EndToEnd
  imports ClientThreads DaemonProperties
begin

text \<open>
  Client and daemon together: the requests of the client library answered by the daemon's handlers. The
  client's operating system is built from the daemon: what the client sends is handled by
  \<open>handle_task\<close>, what the daemon sends to the client's descriptor is what the client reads.
\<close>

section \<open>The two sides linked\<close>

text \<open>
  A state of the link: the daemon, the world of its environment, and how much of what was sent to the
  client it has read. \<open>out\<close> gives what was sent to a descriptor so far. A handler that does not
  return, or is undefined, never lets the client see more than a failing call.
\<close>

type_synonym 'v link = "HdcpDaemon \<times> 'v \<times> nat"

definition linked :: "'v env \<Rightarrow> int \<Rightarrow> ('v \<Rightarrow> int \<Rightarrow> u8 list) \<Rightarrow> 'v link os_api" where
  "linked E appId out = idle_os\<lparr>
     os_send := (\<lambda>fd bs (d, v, n). case handle_task E (decode bs) appId d v of
        Some (Ret (d', v')) \<Rightarrow> (Inr (length bs), (d', v', n)) | _ \<Rightarrow> (Inl EIO, (d, v, n))),
     os_read := (\<lambda>fd k (d, v, n). let bs = take k (drop n (out v appId)) in (Inr bs, (d, v, n + length bs)))\<rparr>"

text \<open>\<open>sends_all\<close>: the connection is up, a send takes all it is given.\<close>

definition sends_all :: "'w os_api \<Rightarrow> ('w \<Rightarrow> int \<Rightarrow> u8 list) \<Rightarrow> int \<Rightarrow> bool" where
  "sends_all os out fd \<longleftrightarrow> fd \<noteq> -1 \<and>
     (\<forall>bs w. \<exists>w'. os_send os fd bs w = (Inr (length bs), w') \<and> out w' fd = out w fd @ bs)"

lemma sends_all_response:
  assumes "sends_all os out fd" "sd_wf d"
  obtains w' where "SendResponse os d fd w = ret (SUCCESS, w')" "out w' fd = out w fd @ encode d"
proof -
  have len: "length (encode d) = 100" using assms(2) by simp
  obtain w' where s: "os_send os fd (encode d) w = (Inr (length (encode d)), w')"
    and o: "out w' fd = out w fd @ encode d" and fd: "fd \<noteq> -1"
    using assms(1) unfolding sends_all_def by blast
  have "SendResponse os d fd w = ret (SUCCESS, w')"
    using len s fd
    by (simp add: SendResponse_def WriteData_def)
      (subst write_loop.simps, simp, subst write_loop.simps, simp)
  with o that show thesis by blast
qed

text \<open>One exchange: the client reads the reply that the daemon's handler sent first.\<close>

lemma linked_exchange:
  assumes "handle_task E data appId d v = ret (d', v')" "out v' appId = out v appId @ encode rsp @ rest"
    and "sd_wf data" "sd_wf rsp" "m_Fd s \<noteq> -1" "n = length (out v appId)"
  shows "PerformMessageTransaction (linked E appId out) s data (d, v, n) =
    ret ((sd_Status rsp, rsp), (d', v', n + 100))"
proof -
  have len: "length (encode data) = 100" "length (encode rsp) = 100" using assms(3,4) by simp_all
  then have ne: "encode rsp \<noteq> []" by auto
  have "SendMessage (linked E appId out) s data (d, v, n) = ret (SUCCESS, (d', v', n))"
    using len assms(1,3,5)
    by (simp add: SendMessage_def WriteData_def)
      (subst write_loop.simps, simp add: linked_def idle_simps decode_encode, subst write_loop.simps, simp)
  moreover have "GetMessage (linked E appId out) s data (d', v', n) = ret ((SUCCESS, rsp), (d', v', n + 100))"
    using len ne assms(2,4,5,6)
    by (simp add: GetMessage_def read_message_def ReadData_def)
      (subst read_loop.simps, simp add: linked_def idle_simps Let_def, subst read_loop.simps,
        simp add: decode_encode)
  ultimately show ?thesis by (simp add: PerformMessageTransaction_def)
qed

lemma linked_transaction:
  assumes "handle_task E data appId d v = ret (d', v')" "out v' appId = out v appId @ encode rsp"
    and "sd_wf data" "sd_wf rsp" "m_Fd s \<noteq> -1" "n = length (out v appId)"
  shows "PerformMessageTransaction (linked E appId out) s data (d, v, n) =
    ret ((sd_Status rsp, rsp), (d', v', n + 100))"
  using linked_exchange [where rest = "[]" and out = out, OF assms(1) _ assms(3-6)] assms(2) by simp

text \<open>A command whose handler leaves the reply to the loop.\<close>

lemma handle_task_reply:
  assumes "DispatchCommand E data appId d v = ret ((True, rsp, d'), v1)" "sd_Size data = of_nat sizeof_SocketData"
    and "sends_all (e_os E) out appId" "sd_wf rsp" "out v1 = out v"
  obtains v' where "handle_task E data appId d v = ret (d', v')" "out v' appId = out v appId @ encode rsp"
proof -
  obtain v' where "SendResponse (e_os E) rsp appId v1 = ret (SUCCESS, v')" "out v' appId = out v1 appId @ encode rsp"
    using sends_all_response [OF assms(3,4)] by blast
  with assms that show thesis by (simp add: handle_task_def send_reply_def)
qed

lemma linked_command:
  assumes "DispatchCommand E data appId d v = ret ((True, rsp, d'), v1)" "out v1 = out v"
    and "sends_all (e_os E) out appId" "sd_Size data = of_nat sizeof_SocketData"
    and "sd_wf data" "sd_wf rsp" "m_Fd s \<noteq> -1" "n = length (out v appId)"
  obtains v' where "PerformMessageTransaction (linked E appId out) s data (d, v, n) =
    ret ((sd_Status rsp, rsp), (d', v', n + 100))"
proof -
  obtain v' where "handle_task E data appId d v = ret (d', v')" "out v' appId = out v appId @ encode rsp"
    using handle_task_reply [OF assms(1,4,3,6,2)] .
  from linked_transaction [where out = out, OF this assms(5-8)] that show thesis by blast
qed

lemma request_fields [simp]:
  "sd_Size (request mem c) = of_nat sizeof_SocketData" "sd_Command (request mem c) = api c"
  by (simp_all add: request_def)

section \<open>The version of the SRM\<close>

text \<open>Through the whole system: a client that asks for the version of the SRM gets the version of the
  daemon's table, over a connection that is up, and the daemon's state is as before.\<close>

theorem srm_version_end_to_end:
  assumes "sm_inv sm" "find (has_handle sm h) (sm_SessionList sm) = Some p"
    and "m_Fd (ss_SdkSocket (the (sm_Heap sm p))) \<noteq> -1"
    and "g_pSrmTable d = Some t" "sends_all (e_os E) out appId" "n = length (out v appId)" "sd_wf (mem (d, v, n))"
  shows "\<exists>v'. HDCPGetSRMVersion (linked E appId out) mem h (Some x) sm (d, v, n) =
    ret ((st HDCP_STATUS_SUCCESSFUL, Some (srm_Version t), sm), (d, v', n + 100))"
proof -
  let ?data = "request (mem (d, v, n)) HDCP_API_GETSRMVERSION"
  let ?rsp = "status HDCP_STATUS_SUCCESSFUL (?data\<lparr>sd_SrmVersion := srm_Version t\<rparr>)"
  have "DispatchCommand E ?data appId d v = ret ((True, ?rsp, d), v)"
    using assms(4) by (simp add: DispatchCommand_def GetSRMVersion_def GetSrmVersion_def
        SrmTable_GetSrmVersion_def replies_def)
  moreover have "sd_wf ?data" "sd_wf ?rsp" using request_wf [OF assms(7)] by simp_all
  ultimately obtain v' where "PerformMessageTransaction (linked E appId out)
      (ss_SdkSocket (the (sm_Heap sm p))) ?data (d, v, n) = ret ((sd_Status ?rsp, ?rsp), (d, v', n + 100))"
    using linked_command [OF _ refl assms(5) _ _ _ assms(3,6)] request_fields(1) by metis
  then show ?thesis
    using assms(2) by (simp add: HDCPGetSRMVersion_def with_session_eq [OF assms(1)] Session_GetSRMVersion_def)
qed

section \<open>The list of ports\<close>

text \<open>Filling the caller's list copies id and state, and stays in both lists.\<close>

lemma fill_ports_all:
  "n \<le> length src \<Longrightarrow> n \<le> length dst \<Longrightarrow> i \<le> n \<Longrightarrow> \<exists>ps. fill_ports i n src dst = Ret ps \<and> length ps = length dst \<and>
     (\<forall>k < length dst. if i \<le> k \<and> k < n then Port_Id (ps ! k) = Port_Id (src ! k) \<and>
        Port_status (ps ! k) = Port_status (src ! k) else ps ! k = dst ! k)"
proof (induction i n src dst rule: fill_ports.induct)
  case (1 i n src dst)
  show ?case
  proof (cases "i < n")
    case False
    with "1.prems" show ?thesis by (subst fill_ports.simps) auto
  next
    case True
    let ?d = "dst[i := (dst ! i)\<lparr>Port_Id := Port_Id (src ! i), Port_status := Port_status (src ! i)\<rparr>]"
    from True "1.prems" have rd: "rd src i = Ret (src ! i)" "rd dst i = Ret (dst ! i)" by simp_all
    from "1.IH" [OF True rd] True "1.prems" obtain ps where ps: "fill_ports (i + 1) n src ?d = Ret ps"
      "length ps = length dst" "\<forall>k < length dst. if i + 1 \<le> k \<and> k < n then Port_Id (ps ! k) = Port_Id (src ! k) \<and>
        Port_status (ps ! k) = Port_status (src ! k) else ps ! k = ?d ! k"
      by auto
    have "if i \<le> k \<and> k < n then Port_Id (ps ! k) = Port_Id (src ! k) \<and>
        Port_status (ps ! k) = Port_status (src ! k) else ps ! k = dst ! k" if "k < length dst" for k
      using ps(3) [rule_format, OF that] that True by (cases "k = i") (auto split: if_splits)
    moreover have "fill_ports i n src dst = Ret ps"
      using ps(1) True rd by (subst fill_ports.simps) simp
    ultimately show ?thesis using ps(2) by blast
  qed
qed

lemma enumerate_out:
  "enumerate_loop D fd obs ps n w = ret (r, w') \<Longrightarrow> connectors D out conn \<Longrightarrow> out w' = out w"
proof (induction obs arbitrary: ps n w r)
  case (Cons ob obs)
  obtain c w1 where c: "drmModeGetConnector D fd (m_DrmId ob) w = (c, w1)" by fastforce
  note o = connectorsD [OF Cons.prems(2) c]
  from Cons.prems(1) c have "w' = w1 \<or> (\<exists>ps n r ob. enumerate_loop D fd obs ps n w1 = ret (r, w'))"
    by (auto simp: Let_def elim!: hdcp_elims split: option.splits prod.splits)
  with Cons.IH [OF _ Cons.prems(2)] o show ?case by metis
qed simp

text \<open>C10: Through the whole system: a client that asks for the ports, over a connection that is up, gets
  exactly the connected ports, in the order of their ids and marked connected, and the rest of its
  list cleared, if there are at most five; the daemon has recorded the state of every connector.\<close>

theorem enumerate_end_to_end:
  assumes "sm_inv sm" "find (has_handle sm h) (sm_SessionList sm) = Some p"
    and "m_Fd (ss_SdkSocket (the (sm_Heap sm p))) \<noteq> -1"
    and "g_portMgr d = Some pm" "pm_inv pm" "pm_IsValid pm" "connectors (e_drm E) out conn"
    and "\<forall>ob \<in> set (m_DrmObjects pm). conn (m_DrmId ob) \<noteq> None"
    and "sends_all (e_os E) out appId" "n = length (out v appId)" "sd_wf (mem (d, v, n))"
  defines "ids \<equiv> connected_ports conn (m_DrmObjects pm)"
  assumes "length ids \<le> NUM_PHYSICAL_PORTS_MAX"
  shows "\<exists>pl v'. HDCPEnumerateDisplay (linked E appId out) mem h (Some pl0) sm (d, v, n) =
      ret ((st HDCP_STATUS_SUCCESSFUL, Some pl, sm),
        (d\<lparr>g_portMgr := Some (pm\<lparr>m_DrmObjects := set_connections conn (m_DrmObjects pm)\<rparr>)\<rparr>, v', n + 100)) \<and>
    unat (pl_PortCount pl) = length ids \<and> length (pl_Ports pl) = NUM_PHYSICAL_PORTS_MAX \<and>
    (\<forall>k < NUM_PHYSICAL_PORTS_MAX. Port_Id (pl_Ports pl ! k) = (if k < length ids then ids ! k else 0) \<and>
      Port_status (pl_Ports pl ! k) = (if k < length ids then PORT_STATUS_CONNECTED else 0))"
proof -
  let ?data = "request (mem (d, v, n)) HDCP_API_ENUMERATE_HDCP_DISPLAY"
  let ?pm = "pm\<lparr>m_DrmObjects := set_connections conn (m_DrmObjects pm)\<rparr>"
  let ?cleared = "map (\<lambda>p. p\<lparr>Port_Id := 0, Port_status := PORT_STATUS_DISCONNECTED\<rparr>) (sd_Ports ?data)"
  have wf: "sd_wf ?data" using request_wf [OF assms(11)] .
  then have len: "length ?cleared = NUM_PHYSICAL_PORTS_MAX" by (simp add: sd_wf_def)
  have ok: "\<forall>ob \<in> set (m_DrmObjects pm). unlocked ob \<and> conn (m_DrmId ob) \<noteq> None"
    using assms(5,8) by (simp add: pm_inv_def)
  from enumerate_loop_all [OF assms(7) ok len, of 0 "m_DrmFd pm" v] assms(13) obtain ps v1
    where loop: "enumerate_loop (e_drm E) (m_DrmFd pm) (m_DrmObjects pm) ?cleared 0 v =
        ret ((SUCCESS, set_connections conn (m_DrmObjects pm), ps, of_nat (length ids)), v1)"
      and ps: "filled 0 ids ?cleared ps"
    by (auto simp: ids_def)
  let ?rsp = "status HDCP_STATUS_SUCCESSFUL (?data\<lparr>sd_Ports := ps, sd_PortCount := of_nat (length ids)\<rparr>)"
  have "DispatchCommand E ?data appId d v = ret ((True, ?rsp, d\<lparr>g_portMgr := Some ?pm\<rparr>), v1)"
    using loop assms(4,6) by (simp add: DispatchCommand_def EnumeratePorts_def PortManagerEnumeratePorts_def
        PM_EnumeratePorts_def replies_def)
  moreover have "sd_wf ?rsp" using wf ps len by (simp add: sd_wf_def filled_def)
  ultimately obtain v' where t: "PerformMessageTransaction (linked E appId out)
      (ss_SdkSocket (the (sm_Heap sm p))) ?data (d, v, n) =
      ret ((sd_Status ?rsp, ?rsp), (d\<lparr>g_portMgr := Some ?pm\<rparr>, v', n + 100))"
    using linked_command [OF _ enumerate_out [OF loop assms(7)] assms(9) _ wf _ assms(3,10)]
      request_fields(1) by metis
  have cnt: "unat (of_nat (length ids) :: u32) = length ids"
    using assms(13) by (simp add: unsigned_of_nat take_bit_eq_mod)
  then have small: "\<not> 5 < (of_nat (length ids) :: u32)" using assms(13) by (simp add: word_less_nat_alt)
  have "length ps = 5" using ps len by (simp add: filled_def)
  with fill_ports_all [of "length ids" ps "pl_Ports (zero_ports pl0)" 0] assms(13) obtain qs where
    fill: "fill_ports 0 (length ids) ps (pl_Ports (zero_ports pl0)) = Ret qs" and "length qs = 5"
    and qs: "\<forall>k < 5. if k < length ids then Port_Id (qs ! k) = Port_Id (ps ! k) \<and>
        Port_status (qs ! k) = Port_status (ps ! k) else qs ! k = pl_Ports (zero_ports pl0) ! k"
    by (auto simp: zero_ports_def)
  have all: "\<forall>k < 5. Port_Id (qs ! k) = (if k < length ids then ids ! k else 0) \<and>
      Port_status (qs ! k) = (if k < length ids then PORT_STATUS_CONNECTED else 0)"
    using qs ps len by (auto simp: filled_def zero_ports_def)
  have "HDCPEnumerateDisplay (linked E appId out) mem h (Some pl0) sm (d, v, n) =
      ret ((st HDCP_STATUS_SUCCESSFUL, Some ((zero_ports pl0)\<lparr>pl_PortCount := of_nat (length ids), pl_Ports := qs\<rparr>), sm),
        (d\<lparr>g_portMgr := Some ?pm\<rparr>, v', n + 100))"
    using assms(2) t small fill
    by (simp add: HDCPEnumerateDisplay_def with_session_eq [OF assms(1)] Session_EnumerateDisplay_def cnt)
  then show ?thesis using all cnt \<open>length qs = 5\<close> by (auto simp: Let_def)
qed

section \<open>Both at work\<close>

definition linked_mem :: "'v link \<Rightarrow> SocketData" where
  "linked_mem w = example_mem"

definition two_ports_env :: "u8 list env" where
  "two_ports_env = sending_env\<lparr>e_drm := idle_drm\<lparr>drmModeGetConnector := (\<lambda>fd i. Pair (Some 1))\<rparr>\<rparr>"

lemma sending_all: "sends_all sending_os (\<lambda>w fd. w) 5"
  by (simp add: sends_all_def sending_os_def)

lemma demo_client_socket: "m_Fd (ss_SdkSocket (the (sm_Heap demo_client 1))) \<noteq> -1"
  by (simp add: demo_client_def created_def attempted_def sm_start_def demo_session_def)

theorem srm_version_end_to_end_witness:
  "\<exists>v'. HDCPGetSRMVersion (linked sending_env 5 (\<lambda>w fd. w)) linked_mem 1 (Some 0) demo_client (demo_daemon, [], 0) =
    ret ((st HDCP_STATUS_SUCCESSFUL, Some (srm_Version example_table), demo_client), (demo_daemon, v', 0 + 100))"
  by (rule srm_version_end_to_end [OF demo_client_inv demo_client_socket])
    (use sending_all in \<open>simp_all add: demo_daemon_def sending_env_def linked_mem_def example_mem_wf\<close>)

theorem enumerate_end_to_end_witness:
  "\<exists>pl d' v'. HDCPEnumerateDisplay (linked two_ports_env 5 (\<lambda>w fd. w)) linked_mem 1
      (Some \<lparr>pl_Ports = replicate 5 \<lparr>Port_Id = 9, Port_status = 9, Port_Event = 9\<rparr>, pl_PortCount = 9\<rparr>)
      demo_client (demo_daemon, [], 0) = ret ((st HDCP_STATUS_SUCCESSFUL, Some pl, demo_client), (d', v', 100)) \<and>
    unat (pl_PortCount pl) = 1 \<and> Port_status (pl_Ports pl ! 0) = PORT_STATUS_CONNECTED \<and>
    Port_status (pl_Ports pl ! 1) = 0"
proof -
  let ?pl = "\<lparr>pl_Ports = replicate 5 \<lparr>Port_Id = 9, Port_status = 9, Port_Event = 9\<rparr>, pl_PortCount = 9\<rparr>"
  have law: "connectors (e_drm two_ports_env) (\<lambda>w fd. w) (\<lambda>i. Some 1)"
    by (simp add: connectors_def two_ports_env_def idle_simps)
  have ids: "connected_ports (\<lambda>i. Some 1) (m_DrmObjects demo_pm) = [0]"
    by (simp add: connected_ports_def demo_pm_def demo_object_def DrmObject_new_def)
  have d: "g_portMgr demo_daemon = Some demo_pm" "pm_IsValid demo_pm"
    by (simp_all add: demo_daemon_def demo_pm_def)
  have all: "sends_all (e_os two_ports_env) (\<lambda>w fd. w) 5"
    using sending_all by (simp add: two_ports_env_def sending_env_def)
  have wf: "sd_wf (linked_mem (demo_daemon, [], 0))" by (simp add: linked_mem_def example_mem_wf)
  from enumerate_end_to_end [where mem = linked_mem and out = "\<lambda>w fd. w" and conn = "\<lambda>i. Some 1" and v = "[]" and n = 0,
      OF demo_client_inv demo_client_socket d(1) demo_inv d(2) law _ all _ wf, of ?pl]
  obtain pl d' v' where "HDCPEnumerateDisplay (linked two_ports_env 5 (\<lambda>w fd. w)) linked_mem 1 (Some ?pl)
      demo_client (demo_daemon, [], 0) = ret ((st HDCP_STATUS_SUCCESSFUL, Some pl, demo_client), (d', v', 100))"
    "unat (pl_PortCount pl) = 1" and k: "\<forall>k < 5. Port_status (pl_Ports pl ! k) = (if k < Suc 0 then 1 else 0)"
    unfolding ids by auto
  with k [rule_format, of 0] k [rule_format, of 1] show ?thesis by auto
qed

section \<open>Switching a port\<close>

text \<open>Setting a level that fails, be it refused by the daemon or lost on the way, makes the client ask
  for level 0 at once and returns the first failure, whatever the second exchange gives; but a request
  for level 0 itself is reported as successful even if it failed.\<close>

theorem set_level_result:
  assumes "PerformMessageTransaction os s
      ((port_request (mem w) HDCP_API_SET_PROTECTION_LEVEL port)\<lparr>sd_Level := ucast level\<rparr>) w = ret ((sts, rsp), w1)"
  shows "Session_SetProtectionLevel os mem s port level w =
    (if sts = st HDCP_STATUS_SUCCESSFUL \<or> level = 0 then ret (st HDCP_STATUS_SUCCESSFUL, w1)
     else obind (PerformMessageTransaction os s
         ((port_request (mem w1) HDCP_API_SET_PROTECTION_LEVEL port)\<lparr>sd_Level := 0\<rparr>) w1)
       (\<lambda>((_, _), w2). ret (sts, w2)))"
proof -
  have zero: "Session_SetProtectionLevel os mem s port 0 u = obind (PerformMessageTransaction os s
      ((port_request (mem u) HDCP_API_SET_PROTECTION_LEVEL port)\<lparr>sd_Level := 0\<rparr>) u)
      (\<lambda>((_, _), w2). ret (st HDCP_STATUS_SUCCESSFUL, w2))" for u
    by (subst Session_SetProtectionLevel.simps) simp
  have chain: "obind (obind m (\<lambda>((_ :: u32, _ :: SocketData), w2). ret (c, w2))) (\<lambda>(_, w). ret (sts, w)) =
      obind m (\<lambda>((_, _), w2). ret (sts, w2))" for m :: "((u32 \<times> SocketData) \<times> 'a) outcome option" and c :: u32
    by (cases m; cases "the m") auto
  show ?thesis using assms by (subst Session_SetProtectionLevel.simps) (simp add: zero chain)
qed

theorem set_level_result_witness:
  "Session_SetProtectionLevel idle_os client_mem \<lparr>m_Fd = 4\<rparr> 1 0 () = ret (st HDCP_STATUS_SUCCESSFUL, ())"
proof -
  let ?data = "(port_request (client_mem ()) HDCP_API_SET_PROTECTION_LEVEL 1)\<lparr>sd_Level := ucast (0 :: u32)\<rparr>"
  have "length (encode ?data) = 100"
    using port_request_wf [OF example_mem_wf] by (simp add: client_mem_def)
  then have "SendMessage idle_os \<lparr>m_Fd = 4\<rparr> ?data () = ret (EIO, ())"
    by (simp add: SendMessage_def WriteData_def) (subst write_loop.simps, simp add: idle_simps)
  then have "PerformMessageTransaction idle_os \<lparr>m_Fd = 4\<rparr> ?data () =
      ret ((st HDCP_STATUS_ERROR_MSG_TRANSACTION, ?data), ())"
    by (simp add: PerformMessageTransaction_def)
  from set_level_result [where mem = client_mem, OF this] show ?thesis by simp
qed

end
