(* ===== verification/PortSpec.thy ===== *)
theory PortSpec
  imports PortProperties
begin

text \<open>
  What the port manager promises its clients, as an abstract table of ports: which are connected and
  which applications use each. Every operation of the port manager implements a step of this table.
\<close>

section \<open>The abstract table\<close>

type_synonym port_table = "(bool \<times> u32 set) list"

definition port_table :: "PortManager \<Rightarrow> port_table" where
  "port_table pm = map (\<lambda>ob. (m_Connection ob \<noteq> DRM_MODE_DISCONNECTED, app_refs ob)) (m_DrmObjects pm)"

text \<open>
  The steps; \<open>r\<close> is the status of the operation. Enabling counts the application or changes nothing,
  disabling takes it away whatever the driver says, unless the port is not connected; the end of an
  application, and of the daemon, do so for all ports; looking at the connectors changes no use.
\<close>

definition port_step :: "pm_op \<Rightarrow> int \<Rightarrow> port_table \<Rightarrow> port_table \<Rightarrow> bool" where
  "port_step x r t t' \<longleftrightarrow>
     (case x of
        Op_Enable p a l \<Rightarrow>
          if r = SUCCESS then unat p < length t \<and> fst (t ! unat p) \<and>
            t' = t[unat p := (True, insert a (snd (t ! unat p)))]
          else t' = t
      | Op_Disable p a \<Rightarrow>
          t' = (if unat p < length t \<and> fst (t ! unat p) then t[unat p := (True, snd (t ! unat p) - {a})] else t)
      | Op_AppExit a \<Rightarrow> t' = map (\<lambda>(c, U). (c, if c then U - {a} else U)) t
      | Op_DisableAll \<Rightarrow> t' = map (\<lambda>(c, U). (c, if c then {} else {0})) t
      | Op_Integrity \<Rightarrow> t' = t
      | _ \<Rightarrow> map snd t' = map snd t)"

section \<open>Operations and the table\<close>

lemma port_table_length [simp]: "length (port_table pm) = length (m_DrmObjects pm)"
  by (simp add: port_table_def)

lemma port_table_nth: "i < length (m_DrmObjects pm) \<Longrightarrow>
    port_table pm ! i = (m_Connection (obj pm i) \<noteq> DRM_MODE_DISCONNECTED, app_refs (obj pm i))"
  by (simp add: port_table_def obj_def)

lemma port_index:
  assumes "pm_inv pm"
  shows "GetDrmObjectByPortId pm p = (if unat p < length (m_DrmObjects pm) then Some (unat p) else None)"
proof (cases "unat p < length (m_DrmObjects pm)")
  case True
  then show ?thesis using find_own_port [OF assms True] port_id_of [OF assms True] by simp
next
  case False
  have "GetDrmObjectByPortId pm p \<noteq> Some i" for i
  proof
    assume "GetDrmObjectByPortId pm p = Some i"
    from by_port_id [OF this] port_id_of [OF assms, of i] have "p = of_nat i" "i < length (m_DrmObjects pm)"
      by auto
    moreover from this(2) pm_ids [OF assms] have "unat (of_nat i :: u32) = i"
      by (simp add: unsigned_of_nat take_bit_eq_mod)
    ultimately show False using False by simp
  qed
  then show ?thesis using False by (cases "GetDrmObjectByPortId pm p") auto
qed

lemma port_table_set:
  assumes "i < length (m_DrmObjects pm)"
  shows "port_table (set_obj i ob pm) = (port_table pm)[i := (m_Connection ob \<noteq> DRM_MODE_DISCONNECTED, app_refs ob)]"
  using assms by (simp add: port_table_def set_obj_def map_update)

lemma frames [simp]:
  "m_Connection (AddRefAppId a ob) = m_Connection ob" "m_Connection (RemoveRefAppId a ob) = m_Connection ob"
  "m_Connection (SetCpType t ob) = m_Connection ob" "m_Connection (ClearRefAppId ob) = m_Connection ob"
  by (simp_all add: AddRefAppId_def RemoveRefAppId_def SetCpType_def ClearRefAppId_def)

text \<open>Two managers that agree on every connector have the same table.\<close>

lemma port_table_eqI:
  "length (m_DrmObjects pm') = length t \<Longrightarrow>
   (\<And>j. j < length t \<Longrightarrow> (m_Connection (obj pm' j) \<noteq> DRM_MODE_DISCONNECTED, app_refs (obj pm' j)) = t ! j) \<Longrightarrow>
   port_table pm' = t"
  by (rule nth_equalityI) (simp_all add: port_table_nth)

lemma touched_length: "pm_touched pm pm' \<Longrightarrow> length (m_DrmObjects pm') = length (m_DrmObjects pm)"
  by (auto simp: pm_touched_def dest: list_all2_lengthD)

lemma remove_app_connections:
  "remove_app_loop os D G wl appId is pm w = ret (pm', w') \<Longrightarrow> pm_inv pm \<Longrightarrow>
     \<forall>i \<in> set is. i < length (m_DrmObjects pm) \<Longrightarrow> m_Connection (obj pm' j) = m_Connection (obj pm j)"
proof (induction "is" arbitrary: pm w)
  case (Cons i "is")
  from Cons.prems(1) obtain sts pm1 w1 where
    d: "DisablePort os D G wl pm (m_PortId (obj pm i)) appId w = ret ((sts, pm1), w1)"
    and r: "remove_app_loop os D G wl appId is pm1 w1 = ret (pm', w')" by (auto elim!: hdcp_elims)
  have t: "pm_touched pm pm1" by (rule DisablePort_touched [OF d])
  from DisablePort_at [OF d Cons.prems(2)] Cons.prems(3)
  have "m_Connection (obj pm1 j) = m_Connection (obj pm j)" by (cases "j = i") auto
  with Cons.IH [OF r pm_touched_inv [OF t Cons.prems(2)]] Cons.prems(3) touched_length [OF t] show ?case by simp
qed simp

lemma disable_all_refs:
  assumes "disable_all_loop os D G wl is pm w = ret (pm', w')" "pm_inv pm" "distinct is"
    "\<forall>i \<in> set is. i < length (m_DrmObjects pm)"
  shows "m_Connection (obj pm' j) = m_Connection (obj pm j) \<and> app_refs (obj pm' j) =
      (if j \<notin> set is then app_refs (obj pm j) else if m_Connection (obj pm j) = DRM_MODE_DISCONNECTED then {0} else {})"
  using assms
proof (induction "is" arbitrary: pm w)
  case (Cons i "is")
  let ?pm = "set_obj i (AddRefAppId 0 (ClearRefAppId (obj pm i))) pm"
  from Cons.prems(1) obtain sts pm1 w1 where
    d: "DisablePort os D G wl ?pm (m_PortId (obj ?pm i)) 0 w = ret ((sts, pm1), w1)"
    and r: "disable_all_loop os D G wl is pm1 w1 = ret (pm', w')" by (auto elim!: hdcp_elims simp: Let_def)
  have i: "i < length (m_DrmObjects pm)" using Cons.prems(4) by simp
  have t0: "pm_touched pm ?pm"
    by (rule pm_touched_set [OF i touched_trans [OF touched_ops(4) touched_ops(5) [OF app_id_0]]])
  have t: "pm_touched ?pm pm1" by (rule DisablePort_touched [OF d])
  have inv: "pm_inv ?pm" "pm_inv pm1" using pm_touched_inv t0 t Cons.prems(2) by blast+
  have len: "length (m_DrmObjects pm1) = length (m_DrmObjects pm)"
    using touched_length [OF t0] touched_length [OF t] by simp
  have "i < length (m_DrmObjects ?pm)" using i touched_length [OF t0] by simp
  note at = DisablePort_at [OF d inv(1) this]
  have one: "m_Connection (obj pm1 j) = m_Connection (obj pm j) \<and> app_refs (obj pm1 j) =
      (if j \<noteq> i then app_refs (obj pm j) else if m_Connection (obj pm j) = DRM_MODE_DISCONNECTED then {0} else {})" for j
    using at i by (cases "j = i") (auto simp: apps.add_refs apps.clear_refs)
  have "m_Connection (obj pm' j) = m_Connection (obj pm1 j) \<and> app_refs (obj pm' j) =
      (if j \<notin> set is then app_refs (obj pm1 j) else if m_Connection (obj pm1 j) = DRM_MODE_DISCONNECTED then {0} else {})"
    using Cons.prems(3,4) len by (intro Cons.IH [OF r inv(2)]) auto
  with one [of j] Cons.prems(3) show ?case by auto
qed simp

text \<open>Looking at the connectors leaves the applications, and checking the links the connections too.\<close>

lemma enumerate_refs:
  "enumerate_loop D fd obs ps n w = ret ((sts, obs', ps', n'), w') \<Longrightarrow> map app_refs obs' = map app_refs obs"
  by (induction obs arbitrary: ps n w obs' ps' n' w')
    (auto simp: app_refs_def SetConnection_def elim!: hdcp_elims split: prod.splits option.splits if_splits)

lemma hotplug_refs:
  "hotplug_loop os D mem fd obs cb w = ret ((obs', cb'), w') \<Longrightarrow> map app_refs obs' = map app_refs obs"
proof (induction obs arbitrary: cb w obs')
  case (Cons ob obs)
  from Cons.prems show ?case
    by (auto simp: app_refs_def SetConnection_def Let_def elim!: hdcp_elims split: prod.splits option.splits if_splits
        dest!: Cons.IH)
qed simp

lemma integrity_refs:
  "integrity_loop os D mem pm obs cb w = ret ((obs', cb'), w') \<Longrightarrow>
     map (\<lambda>ob. (m_Connection ob, app_refs ob)) obs' = map (\<lambda>ob. (m_Connection ob, app_refs ob)) obs"
proof (induction obs arbitrary: cb w obs')
  case (Cons ob obs)
  from Cons.prems show ?case
    by (auto simp: app_refs_def SetCpType_def Let_def elim!: hdcp_elims split: prod.splits if_splits dest!: Cons.IH)
qed simp

section \<open>The refinement\<close>

text \<open>The operations one by one.\<close>

lemma EnablePort_step:
  assumes "EnablePort os D G wl pm p a l w = ret ((r, pm'), w')" "pm_inv pm"
  shows "port_step (Op_Enable p a l) r (port_table pm) (port_table pm')"
  using assms(1)
proof (cases rule: EnablePort_cases)
  case (already i)
  then have "i = unat p" "unat p < length (m_DrmObjects pm)"
    using port_index [OF assms(2), of p] by (simp_all split: if_splits)
  with already show ?thesis by (simp add: port_step_def port_table_set port_table_nth apps.add_refs)
next
  case (enabled i t w1)
  then have "i = unat p" "unat p < length (m_DrmObjects pm)"
    using port_index [OF assms(2), of p] by (simp_all split: if_splits)
  with enabled show ?thesis by (simp add: port_step_def port_table_set port_table_nth apps.add_refs)
qed (simp add: port_step_def)

lemma DisablePort_step:
  assumes run: "DisablePort os D G wl pm p a w = ret ((r, pm'), w')" and inv: "pm_inv pm"
  shows "port_step (Op_Disable p a) r (port_table pm) (port_table pm')"
proof (cases "unat p < length (m_DrmObjects pm)")
  case True
  have pid: "m_PortId (obj pm (unat p)) = p" using port_id_of [OF inv True] by simp
  have "DisablePort os D G wl pm (m_PortId (obj pm (unat p))) a w = ret ((r, pm'), w')"
    using run by (simp add: pid)
  note at = DisablePort_at [OF this inv True]
  note len = touched_length [OF DisablePort_touched [OF run]]
  have "port_table pm' = (port_table pm)[unat p := (m_Connection (obj pm (unat p)) \<noteq> DRM_MODE_DISCONNECTED,
      if m_Connection (obj pm (unat p)) = DRM_MODE_DISCONNECTED then app_refs (obj pm (unat p))
      else app_refs (obj pm (unat p)) - {a})]"
    (is "_ = ?t")
  proof (rule port_table_eqI)
    show "length (m_DrmObjects pm') = length ?t" using len by simp
    show "(m_Connection (obj pm' j) \<noteq> DRM_MODE_DISCONNECTED, app_refs (obj pm' j)) = ?t ! j" if "j < length ?t" for j
      using at that by (cases "j = unat p") (auto simp: port_table_nth)
  qed
  then show ?thesis using True port_table_nth [OF True]
    by (auto simp: port_step_def list_update_same_conv)
next
  case False
  with run show ?thesis using port_index [OF inv, of p] by (simp add: DisablePort_def port_step_def)
qed

lemma app_exit_step:
  assumes run: "remove_app_loop os D G wl a [0..<length (m_DrmObjects pm)] pm w = ret (pm', w')" and inv: "pm_inv pm"
  shows "port_table pm' = map (\<lambda>(c, U). (c, if c then U - {a} else U)) (port_table pm)"
  using remove_app_refs [OF run inv] remove_app_connections [OF run inv] touched_length [OF remove_app_touched [OF run]]
  by (intro port_table_eqI) (auto simp: port_table_nth)

lemma disable_all_step:
  assumes run: "disable_all_loop os D G wl [0..<length (m_DrmObjects pm)] pm w = ret (pm', w')" and inv: "pm_inv pm"
  shows "port_table pm' = map (\<lambda>(c, U). (c, if c then {} else {0})) (port_table pm)"
  using disable_all_refs [OF run inv] touched_length [OF disable_all_touched [OF run]]
  by (intro port_table_eqI) (auto simp: port_table_nth)

lemma integrity_step:
  assumes "CheckIntegrity os D mem pm cb w = ret ((pm', cb'), w')"
  shows "port_table pm' = port_table pm"
proof -
  have e: "map (\<lambda>ob. (m_Connection ob, app_refs ob)) (m_DrmObjects pm') =
      map (\<lambda>ob. (m_Connection ob, app_refs ob)) (m_DrmObjects pm)"
    using assms by (auto simp: CheckIntegrity_def elim!: hdcp_elims dest: integrity_refs)
  have t: "port_table q = map (\<lambda>(c, U). (c \<noteq> DRM_MODE_DISCONNECTED, U))
      (map (\<lambda>ob. (m_Connection ob, app_refs ob)) (m_DrmObjects q))" for q
    by (simp add: port_table_def comp_def)
  show ?thesis unfolding t e by (rule refl)
qed

text \<open>C12: The port manager implements the table of ports: a request counts or forgets the application it
  comes from, on the port it names and on no other, and enabling fails without a trace; the end of an
  application takes it off every connected port; hot plug events, enumeration and integrity checks
  never change which applications use a port, and an integrity check nothing in the table.\<close>

theorem port_manager_refines_table:
  assumes "pm_exec os D G wl mem x (pm, cb) w = ret ((r, pm', cb'), w')" "pm_inv pm" "pm_admissible x"
  shows "port_step x r (port_table pm) (port_table pm')"
proof (cases x)
  case (Op_Enable p a l)
  with assms(1) EnablePort_step [OF _ assms(2)] show ?thesis by (auto elim!: hdcp_elims)
next
  case (Op_Disable p a)
  with assms(1) DisablePort_step [OF _ assms(2)] show ?thesis by (auto elim!: hdcp_elims)
next
  case (Op_AppExit a)
  with assms(1) app_exit_step [OF _ assms(2)] show ?thesis
    by (auto simp: RemoveAppFromPorts_def port_step_def elim!: hdcp_elims)
next
  case Op_DisableAll
  with assms(1) disable_all_step [OF _ assms(2)] show ?thesis
    by (auto simp: DisableAllPorts_def port_step_def elim!: hdcp_elims)
next
  case (Op_Enumerate ps)
  with assms(1) have "map app_refs (m_DrmObjects pm') = map app_refs (m_DrmObjects pm)"
    by (auto simp: PM_EnumeratePorts_def Let_def elim!: hdcp_elims split: if_splits dest: enumerate_refs)
  with Op_Enumerate show ?thesis by (simp add: port_step_def port_table_def comp_def)
next
  case Op_HotPlug
  with assms(1) have "map app_refs (m_DrmObjects pm') = map app_refs (m_DrmObjects pm)"
    by (auto simp: ProcessHotPlug_def elim!: hdcp_elims dest: hotplug_refs)
  with Op_HotPlug show ?thesis by (simp add: port_step_def port_table_def comp_def)
next
  case Op_Integrity
  with assms(1) show ?thesis by (auto simp: port_step_def elim!: hdcp_elims dest: integrity_step)
qed

theorem port_manager_refines_table_witness:
  "port_step (Op_Enable 0 5 1) SUCCESS (port_table demo_pm)
     (port_table (set_obj 0 (AddRefAppId 5 (SetCpType 0 demo_object)) demo_pm))"
proof (rule port_manager_refines_table)
  show "pm_exec idle_os demo_drm idle_gwl wl_start (\<lambda>w. example_mem) (Op_Enable 0 5 1)
      (demo_pm, \<lparr>m_CallBackList = [], m_CallBackListMutex = False\<rparr>) 0 =
    ret ((SUCCESS, set_obj 0 (AddRefAppId 5 (SetCpType 0 demo_object)) demo_pm,
      \<lparr>m_CallBackList = [], m_CallBackListMutex = False\<rparr>), 2)" by (simp add: demo_enable)
qed (simp_all add: demo_inv pm_admissible_def app_id_def)

end
