(* ===== verification/DaemonReturns.thy ===== *)
theory DaemonReturns
  imports DaemonProperties
begin

text \<open>
  No request and no event makes the daemon hang: every mutex an operation takes is free when it starts
  and free again when it ends, and every retry loop ends if the system does not interrupt it forever.
\<close>

section \<open>The port manager\<close>

lemma unlocked_obj: "pm_inv pm \<Longrightarrow> GetDrmObjectByPortId pm p = Some i \<Longrightarrow> unlocked (obj pm i)"
  using by_port_id [of pm p i] by (auto simp: pm_inv_def obj_def)

lemma lock_ends:
  "\<not> m_CpTypeMutex ob \<Longrightarrow> ends (CpTypeAtomicBegin ob)" "\<not> m_ConnectionMutex ob \<Longrightarrow> ends (ConnAtomicBegin ob)"
  "ends (CpTypeAtomicEnd ob)" "ends (ConnAtomicEnd ob)"
  by (simp_all add: CpTypeAtomicBegin_def ConnAtomicBegin_def CpTypeAtomicEnd_def ConnAtomicEnd_def)

lemma EnablePort_ends:
  assumes "pm_inv pm"
  shows "ends (EnablePort os D G wl pm portId appId level w)"
  using unlocked_obj [OF assms, of portId] unfolding EnablePort_def Let_def
  by (auto simp: unlocked_def split: option.splits prod.splits intro!: ends_obind lock_ends)

lemma DisablePort_ends:
  assumes "pm_inv pm"
  shows "ends (DisablePort os D G wl pm portId appId w)"
  using unlocked_obj [OF assms, of portId] unfolding DisablePort_def Let_def
  by (auto simp: unlocked_def RemoveRefAppId_def split: option.splits prod.splits intro!: ends_obind lock_ends)

lemma remove_app_ends: "pm_inv pm \<Longrightarrow> ends (remove_app_loop os D G wl appId is pm w)"
proof (induction "is" arbitrary: pm w)
  case (Cons i "is")
  then show ?case
    by (auto intro!: ends_obind DisablePort_ends dest!: DisablePort_touched intro: pm_touched_inv)
qed simp

lemma enumerate_ends: "\<forall>ob \<in> set obs. unlocked ob \<Longrightarrow> ends (enumerate_loop D fd obs ps n w)"
  by (induction obs arbitrary: ps n w)
    (auto simp: unlocked_def Let_def split: option.splits prod.splits intro!: ends_obind lock_ends)

section \<open>Messages\<close>

lemma SendResponse_ends: "finitely_stalled os stall \<Longrightarrow> ends (SendResponse os d fd w)"
  using write_loop_returns [of os stall] by (simp add: SendResponse_def WriteData_def ends_def)

lemma SendKsvListData_ends: "finitely_stalled os stall \<Longrightarrow> ends (SendKsvListData os ks n fd w)"
  using write_loop_returns [of os stall]
  by (auto simp: SendKsvListData_def WriteData_def ends_def split: option.splits)

lemma GetSrmData_ends: "finitely_stalled os stall \<Longrightarrow> ends (GetSrmData os data n fd w)"
  using read_loop_returns [of os stall, folded ends_def]
  by (auto simp: GetSrmData_def ReadData_def split: option.splits intro!: ends_obind)

lemma report_loop_ends: "finitely_stalled os stall \<Longrightarrow> ends (report_loop os d fds w)"
  by (induction fds arbitrary: w) (auto simp: Let_def split: prod.splits intro!: ends_obind intro: SendResponse_ends)

lemma ReportStatus_ends:
  assumes "finitely_stalled os stall" "\<not> m_CallBackListMutex cb"
  shows "ends (ReportStatus os mem cb e p w)"
  using assms(2) unfolding ReportStatus_def acquire_callbacks_def release_callbacks_def Let_def
  by (auto intro!: ends_obind intro: report_loop_ends [OF assms(1)])

section \<open>The two threads\<close>

lemma hotplug_ends:
  "\<forall>ob \<in> set obs. unlocked ob \<Longrightarrow> finitely_stalled os stall \<Longrightarrow> \<not> m_CallBackListMutex cb \<Longrightarrow>
     ends (hotplug_loop os D mem fd obs cb w)"
proof (induction obs arbitrary: cb w)
  case (Cons ob obs)
  note rep = ReportStatus_ends [OF Cons.prems(2)]
  from Cons.prems show ?case
    by (auto simp: unlocked_def Let_def split: option.splits prod.splits if_splits intro!: ends_obind lock_ends rep Cons.IH
        elim!: hdcp_elims dest: ReportStatus_unlocks)
qed simp

lemma integrity_ends:
  "\<forall>ob \<in> set obs. unlocked ob \<Longrightarrow> finitely_stalled os stall \<Longrightarrow> \<not> m_CallBackListMutex cb \<Longrightarrow>
     ends (integrity_loop os D mem pm obs cb w)"
proof (induction obs arbitrary: cb w)
  case (Cons ob obs)
  note rep = ReportStatus_ends [OF Cons.prems(2)]
  from Cons.prems show ?case
    by (auto simp: unlocked_def Let_def split: prod.splits if_splits intro!: ends_obind lock_ends rep Cons.IH
        elim!: hdcp_elims dest: ReportStatus_unlocks)
qed simp

section \<open>The SRM\<close>

lemma RetrieveSrm_ends:
  assumes "srm_inv t" "srm_bounded data"
  shows "ends (RetrieveSrmFromBuffer os S t (Some data) w)"
proof (cases "8 \<le> length data")
  case True
  have "srm_RevocationLists t \<noteq> None" using assms(1) by (auto simp: srm_inv_def)
  from RetrieveSrm_cases [OF True assms(2) this, of os S w] show ?thesis by auto
next
  case False
  then have "parse_gen1_length data = Undef" by (simp add: parse_gen1_length_def ubind_def rd_def)
  then show ?thesis by (auto simp: RetrieveSrmFromBuffer_def intro!: ends_obind)
qed

lemma StoreSrm_ends: "srm_ginv g \<Longrightarrow> srm_bounded data \<Longrightarrow> ends (StoreSrm os S g data w)"
  unfolding StoreSrm_def Let_def srm_ginv_def
  by (auto intro!: ends_obind intro: RetrieveSrm_ends split: option.splits sum.splits prod.splits)

text \<open>
  \<open>writes_progress\<close>: a write to a file that is not interrupted writes something, and it is not
  interrupted forever.
\<close>

definition writes_progress :: "'w os_api \<Rightarrow> ('w \<Rightarrow> nat) \<Rightarrow> bool" where
  "writes_progress os stall \<longleftrightarrow> (\<forall>fd bs w. case os_write os fd bs w of
       (Inl e, w') \<Rightarrow> e \<in> {EINTR, EAGAIN} \<longrightarrow> stall w' < stall w
     | (Inr n, w') \<Rightarrow> n \<le> length bs \<and> (bs \<noteq> [] \<longrightarrow> 0 < n) \<and> stall w' \<le> stall w)"

lemma srm_write_loop_ends:
  assumes "writes_progress os stall"
  shows "written \<le> length data \<Longrightarrow> ends (srm_write_loop os fd data written w)"
proof (induction "length data - written + stall w" arbitrary: written w rule: less_induct)
  case less
  obtain q w1 where q: "os_write os fd (drop written data) w = (q, w1)" by fastforce
  note law = assms [unfolded writes_progress_def, THEN spec, of fd, THEN spec, of "drop written data", THEN spec, of w]
  show ?case
  proof (cases q)
    case (Inl e)
    show ?thesis
    proof (cases "e = EINTR \<or> e = EAGAIN")
      case True
      then have "stall w1 < stall w" using law q Inl by auto
      then have "ends (srm_write_loop os fd data written w1)" using less.prems by (intro less.hyps) auto
      with True q Inl show ?thesis by (subst srm_write_loop.simps) auto
    next
      case False
      with q Inl show ?thesis by (subst srm_write_loop.simps) simp
    qed
  next
    case (Inr n)
    then have n: "n \<le> length data - written" "written < length data \<longrightarrow> 0 < n" "stall w1 \<le> stall w"
      using law q by auto
    show ?thesis
    proof (cases "written + n = length data")
      case True
      with q Inr show ?thesis by (subst srm_write_loop.simps) (simp add: Let_def)
    next
      case False
      with n less.prems have "0 < n" "written + n \<le> length data" by auto
      with n have "ends (srm_write_loop os fd data (written + n) w1)" by (intro less.hyps) auto
      with False \<open>0 < n\<close> q Inr show ?thesis by (subst srm_write_loop.simps) simp
    qed
  qed
qed

lemma PM_SendSRMData_ends: "writes_progress os stall \<Longrightarrow> ends (PM_SendSRMData os data w)"
  by (auto simp: PM_SendSRMData_def Let_def split: prod.splits sum.splits intro!: ends_obind intro: srm_write_loop_ends)

section \<open>Requests\<close>

lemma EnumeratePorts_ends:
  assumes "pred_option pm_inv (g_portMgr d)"
  shows "ends (EnumeratePorts E data appId d w)"
  using assms
  by (auto simp: EnumeratePorts_def PortManagerEnumeratePorts_def PM_EnumeratePorts_def Let_def pm_inv_def
      split: option.splits intro!: ends_obind intro: enumerate_ends)

lemma SetProtectionLevel_ends:
  assumes "pred_option pm_inv (g_portMgr d)"
  shows "ends (SetProtectionLevel E data appId d w)"
  using assms
  by (auto simp: SetProtectionLevel_def PortManagerEnablePort_def PortManagerDisablePort_def Let_def
      split: option.splits intro!: ends_obind intro: EnablePort_ends DisablePort_ends)

lemma GetKsvList_ends:
  assumes "finitely_stalled (e_os E) stall"
  shows "ends (GetKsvList E data appId d w)"
  by (auto simp: GetKsvList_def Let_def split: prod.splits
      intro!: ends_obind SendResponse_ends [OF assms] SendKsvListData_ends [OF assms])

lemma received_length:
  assumes "GetSrmData os (Some buf) (int (length buf)) fd w = ret ((SUCCESS, data), w')" "reads_in_order os inc"
    "length buf < 2 ^ 32"
  shows "length (the data) = length buf"
proof -
  have "ReadData os fd (Some buf) (int (length buf)) w = ret ((SUCCESS, data), w')"
    using assms(1) by (simp add: GetSrmData_def split: if_splits)
  then show ?thesis
  proof (rule ReadData_partial [OF _ assms(2)])
    fix sts got v
    assume "Ret ((SUCCESS, data), w') = Ret ((sts, Some (got @ drop (length got) buf)), v)"
      and "length got \<le> nat (int (length buf))"
    then show ?thesis by simp
  qed (use assms(3) in simp_all)
qed

lemma SendSRMData_ends:
  assumes "finitely_stalled (e_os E) stall" "writes_progress (e_os E) stall" "reads_in_order (e_os E) inc"
    and "srm_ginv (g_pSrmTable d)"
  shows "ends (SendSRMData E data appId d w)"
proof (cases "SRM_FIRST_GEN_MAX_SIZE < sd_SrmOrKsvListDataSz data")
  case True
  then show ?thesis by (simp add: SendSRMData_def)
next
  case False
  let ?n = "unat (sd_SrmOrKsvListDataSz data)"
  have n: "?n \<le> 5116" using False by (simp add: word_less_nat_alt)
  have store: "ends (StoreSrm (e_os E) (e_ssl E) (g_pSrmTable d) (the m) w2)"
    if "GetSrmData (e_os E) (Some (fresh E ?n w0)) (int ?n) appId w1 = ret ((SUCCESS, m), w2)" for w0 w1 m w2
  proof -
    have "length (the m) = length (fresh E ?n w0)"
      by (rule received_length [OF _ assms(3)]) (use that n in auto)
    then show ?thesis using n by (intro StoreSrm_ends [OF assms(4)]) (simp add: srm_bounded_def)
  qed
  show ?thesis unfolding SendSRMData_def Let_def PortManagerSendSRMDdata_def using False
    by (auto split: prod.splits intro!: ends_obind store SendResponse_ends [OF assms(1)] GetSrmData_ends [OF assms(1)]
        PM_SendSRMData_ends [OF assms(2)])
qed

lemma HandleAppExit_ends:
  "pred_option pm_inv g \<Longrightarrow> ends (PortManagerHandleAppExit os D G wl g a w)"
  by (auto simp: PortManagerHandleAppExit_def RemoveAppFromPorts_def split: option.splits intro!: ends_obind
      intro: remove_app_ends)

lemma replies_ends: "ends m \<Longrightarrow> ends (replies b m)"
  by (auto simp: replies_def intro!: ends_obind)

lemma DispatchCommand_ends:
  assumes "finitely_stalled (e_os E) stall" "writes_progress (e_os E) stall" "reads_in_order (e_os E) inc"
    and "daemon_inv d"
  shows "ends (DispatchCommand E data appId d w)"
proof -
  have d: "pred_option pm_inv (g_portMgr d)" "srm_ginv (g_pSrmTable d)" "\<not> m_CallBackListMutex (m_CallBacks d)"
    using assms(4) by (simp_all add: daemon_inv_def)
  have "ends (register_callback appId (m_CallBacks d))"
    using d(3) by (simp add: register_callback_def acquire_callbacks_def release_callbacks_def)
  moreover have "ends (GetStatus E data appId d w)" "ends (GetSRMVersion E data appId d w)" "ends (Config E data appId d w)"
    by (simp_all add: GetStatus_def GetSRMVersion_def Config_def Let_def split: prod.splits)
  ultimately show ?thesis
    using EnumeratePorts_ends [OF d(1)] SetProtectionLevel_ends [OF d(1)] GetKsvList_ends [OF assms(1)]
      SendSRMData_ends [OF assms(1-3) d(2)] HandleAppExit_ends [OF d(1)]
    unfolding DispatchCommand_def Let_def by (auto intro!: ends_obind replies_ends)
qed

lemma send_reply_ends:
  assumes "finitely_stalled (e_os E) stall" "pred_option pm_inv (g_portMgr d)"
  shows "ends (send_reply E b data appId d w)"
  using SendResponse_ends [OF assms(1)] HandleAppExit_ends [OF assms(2)]
  by (auto simp: send_reply_def intro!: ends_obind)

text \<open>C21: The daemon never hangs on a request, a hot plug event or an integrity check: in every state it can
  be in between two of them, whatever the request, whatever libdrm and the compositor answer and
  whichever of its calls fail, handling it comes to an end, as long as the system does not interrupt
  the transfers and the file writes forever.\<close>

theorem daemon_never_hangs:
  assumes "finitely_stalled (e_os E) stall" "writes_progress (e_os E) stall" "reads_in_order (e_os E) inc"
    and "daemon_inv d" "0 \<le> appId" "appId < 2 ^ 31"
  shows "handle_task E data appId d w \<noteq> None \<and> daemon_exec E Op_ThreadHotPlug d w \<noteq> None \<and>
    daemon_exec E Op_ThreadIntegrity d w \<noteq> None"
proof -
  have d: "pred_option pm_inv (g_portMgr d)" "\<not> m_CallBackListMutex (m_CallBacks d)"
    using assms(4) by (simp_all add: daemon_inv_def)
  have reply: "ends (send_reply E b data' appId d' w')"
    if "DispatchCommand E data appId d w = ret ((b, data', d'), w1)" for b data' d' w1 w'
  proof -
    have "kept d d'" using DispatchCommand_kept [OF that assms(5)] assms(6) by simp
    from kept_inv [OF this assms(4)] show ?thesis
      by (intro send_reply_ends [OF assms(1)]) (simp add: daemon_inv_def)
  qed
  have "ends (handle_task E data appId d w)"
    unfolding handle_task_def
    by (auto intro!: ends_obind send_reply_ends [OF assms(1) d(1)] reply
        intro: DispatchCommand_ends [OF assms(1-4)])
  moreover have "ends (daemon_exec E Op_ThreadHotPlug d w)" "ends (daemon_exec E Op_ThreadIntegrity d w)"
    using d hotplug_ends [OF _ assms(1)] integrity_ends [OF _ assms(1)]
    by (cases "g_portMgr d"; auto simp: PortManagerProcessHotPlug_def ProcessHotPlug_def CheckIntegrity_def pm_inv_def
        intro!: ends_obind)+
  ultimately show ?thesis by (simp add: ends_def)
qed

theorem daemon_never_hangs_witness:
  "handle_task sending_env (example_mem\<lparr>sd_Command := api HDCP_API_SENDSRMDATA, sd_SrmOrKsvListDataSz := 200\<rparr>)
     5 demo_daemon [] \<noteq> None"
proof -
  have "finitely_stalled (e_os sending_env) (\<lambda>w. 0)" "writes_progress (e_os sending_env) (\<lambda>w. 0)"
    "reads_in_order (e_os sending_env) (\<lambda>w fd. [])"
    by (auto simp: finitely_stalled_def writes_progress_def reads_in_order_def sending_env_def sending_os_def idle_simps)
  moreover have "daemon_inv demo_daemon"
    by (rule daemon_start_inv [OF demo_start, THEN conjunct1])
      (simp add: socket_laws_def demo_env_def idle_simps)
  ultimately show ?thesis by (intro conjunct1 [OF daemon_never_hangs]) simp_all
qed

end
