(* ===== verification/PortThreads.thy ===== *)
theory PortThreads
  imports PortProperties
begin

text \<open>
  The threads of the daemon in the port manager: the message loop, which enables and disables ports,
  and the thread that checks the integrity of the links (\<^verbatim>\<open>InitPeriodicIntegrityCheck\<close> in
  \<^verbatim>\<open>src/daemon/portmanager.cpp\<close>), with hot plug events in between. A step is what lies between two
  accesses to the mutex of a port's content type, or to the system while a thread waits.
\<close>

section \<open>Requests up to the critical section, and in it\<close>

datatype main_request = Enable u32 u32 u8 | Disable u32 u32

text \<open>
  \<open>Inl sts\<close>: the request has returned \<open>sts\<close>; \<open>Inr i\<close>: it goes on with the connector at \<open>i\<close>.
\<close>

definition enable_request ::
  "'w os_api \<Rightarrow> 'w drm_api \<Rightarrow> 'w gwl_api \<Rightarrow> wl_state \<Rightarrow> PortManager \<Rightarrow> u32 \<Rightarrow> u32 \<Rightarrow> u8 \<Rightarrow> 'w \<Rightarrow>
     (((int + nat) \<times> PortManager) \<times> 'w) outcome" where
  "enable_request os D G wl pm portId appId level w =
     (case GetDrmObjectByPortId pm portId of None \<Rightarrow> Ret ((Inl ENOENT, pm), w) | Some i \<Rightarrow>
      let ob = obj pm i in
      if m_Connection ob = DRM_MODE_DISCONNECTED then Ret ((Inl ENOENT, pm), w) else
      let type1Capable = (GetPropertyId CP_CONTENT_TYPE ob \<noteq> UINT32_MAX) in
      if \<not> type1Capable \<and> level = HDCP_LEVEL2 then Ret ((Inl EINVAL, pm), w) else
      let currCpType = GetCpType ob in
      if currCpType \<noteq> CP_TYPE_INVALID \<and> (ucast level :: u32) - 1 \<le> ucast currCpType
      then Ret ((Inl SUCCESS, set_obj i (AddRefAppId appId ob) pm), w) else
      let cpType = (if level = HDCP_LEVEL1 then CP_TYPE_0 else if level = HDCP_LEVEL2 then CP_TYPE_1
            else CP_VALUE_INVALID) in
      ubind (if type1Capable
             then SetPortProperty os D G wl pm (m_DrmId ob) (GetPropertyId CP_CONTENT_TYPE ob)
               [cpType] AUTH_NUM_RETRY w
             else Ret (SUCCESS, w)) (\<lambda>(sts, w).
      if sts \<noteq> SUCCESS then Ret ((Inl EBUSY, pm), w) else
      ubind (SetPortProperty os D G wl pm (m_DrmId ob) (GetPropertyId CONTENT_PROTECTION ob)
               [CP_DESIRED] AUTH_NUM_RETRY w) (\<lambda>(sts, w).
      if sts \<noteq> SUCCESS then Ret ((Inl EBUSY, pm), w) else Ret ((Inr i, pm), w))))"

definition disable_request ::
  "'w os_api \<Rightarrow> 'w drm_api \<Rightarrow> 'w gwl_api \<Rightarrow> wl_state \<Rightarrow> PortManager \<Rightarrow> u32 \<Rightarrow> u32 \<Rightarrow> 'w \<Rightarrow>
     (((int + nat) \<times> PortManager) \<times> 'w) outcome" where
  "disable_request os D G wl pm portId appId w =
     (case GetDrmObjectByPortId pm portId of None \<Rightarrow> Ret ((Inl SUCCESS, pm), w) | Some i \<Rightarrow>
      let ob = obj pm i in
      if m_Connection ob = DRM_MODE_DISCONNECTED then Ret ((Inl SUCCESS, pm), w) else
      let ob = RemoveRefAppId appId ob; pm = set_obj i ob pm in
      if 1 \<le> GetRefAppCount ob then Ret ((Inl SUCCESS, pm), w) else
      ubind (SetPortProperty os D G wl pm (m_DrmId ob) (GetPropertyId CONTENT_PROTECTION ob)
               [CP_OFF] 1 w) (\<lambda>(sts, w).
      if sts \<noteq> SUCCESS then Ret ((Inl EBUSY, pm), w) else Ret ((Inr i, pm), w)))"

definition begin_request ::
  "'w os_api \<Rightarrow> 'w drm_api \<Rightarrow> 'w gwl_api \<Rightarrow> wl_state \<Rightarrow> main_request \<Rightarrow> PortManager \<Rightarrow> 'w \<Rightarrow>
     (((int + nat) \<times> PortManager) \<times> 'w) outcome" where
  "begin_request os D G wl rq pm w =
     (case rq of Enable p a l \<Rightarrow> enable_request os D G wl pm p a l w
      | Disable p a \<Rightarrow> disable_request os D G wl pm p a w)"

text \<open>Enabling waits for the authentication before it looks at the result.\<close>

definition settle :: "'w os_api \<Rightarrow> main_request \<Rightarrow> 'w \<Rightarrow> 'w" where
  "settle os rq w = (case rq of Enable p a l \<Rightarrow> os_sleep_ms os AUTH_CHECK_DELAY_MS w | Disable p a \<Rightarrow> w)"

text \<open>In the section: what the driver reports decides, and is recorded if it is what was asked for.\<close>

definition confirmed :: "main_request \<Rightarrow> int \<times> u8 \<times> u8 \<Rightarrow> DrmObject \<Rightarrow> int \<times> DrmObject" where
  "confirmed rq info ob =
     (case info of (sts, cpValue, cpType) \<Rightarrow>
      (case rq of
         Enable p a l \<Rightarrow> if sts \<noteq> SUCCESS \<or> cpValue \<noteq> CP_ENABLED then (EBUSY, ob)
           else (SUCCESS, AddRefAppId a (SetCpType cpType ob))
       | Disable p a \<Rightarrow> if sts \<noteq> SUCCESS \<or> cpValue \<noteq> CP_OFF then (EBUSY, ob)
           else (SUCCESS, SetCpType CP_TYPE_INVALID ob)))"

definition confirm ::
  "'w drm_api \<Rightarrow> main_request \<Rightarrow> nat \<Rightarrow> PortManager \<Rightarrow> 'w \<Rightarrow> ((int \<times> PortManager) \<times> 'w) outcome option" where
  "confirm D rq i pm w =
     (let (info, w) = GetProtectionInfo D pm (obj pm i) w;
          (sts, ob) = confirmed rq info (obj pm i) in
      obind (CpTypeAtomicEnd ob) (\<lambda>ob. ret ((sts, set_obj i ob pm), w)))"

text \<open>One after the other these are \<^verbatim>\<open>EnablePort\<close> and \<^verbatim>\<open>DisablePort\<close>.\<close>

definition alone ::
  "'w os_api \<Rightarrow> 'w drm_api \<Rightarrow> 'w gwl_api \<Rightarrow> wl_state \<Rightarrow> main_request \<Rightarrow> PortManager \<Rightarrow> 'w \<Rightarrow>
     ((int \<times> PortManager) \<times> 'w) outcome option" where
  "alone os D G wl rq pm w =
     obind (Some (begin_request os D G wl rq pm w)) (\<lambda>((r, pm), w).
     case r of Inl sts \<Rightarrow> ret ((sts, pm), w)
     | Inr i \<Rightarrow> let w = settle os rq w in
         obind (CpTypeAtomicBegin (obj pm i)) (\<lambda>ob. confirm D rq i (set_obj i ob pm) w))"

lemma set_property_twice:
  fixes A :: "(int \<times> 'w) outcome"
  assumes "\<And>w. K' i pm w = K w"
  shows "obind (if t then Some A else ret (SUCCESS, w)) (\<lambda>(sts, w).
      if sts \<noteq> SUCCESS then ret ((EBUSY, pm), w) else
      obind (Some (B w)) (\<lambda>(sts, w). if sts \<noteq> SUCCESS then ret ((EBUSY, pm), w) else K w)) =
    obind (Some (ubind (if t then A else Ret (SUCCESS, w)) (\<lambda>(sts, w).
      if sts \<noteq> SUCCESS then Ret ((Inl EBUSY, pm), w) else
      ubind (B w) (\<lambda>(sts, w). if sts \<noteq> SUCCESS then Ret ((Inl EBUSY, pm), w) else Ret ((Inr i, pm), w)))))
    (\<lambda>((r, pm), w). case r of Inl sts \<Rightarrow> ret ((sts, pm), w) | Inr i \<Rightarrow> K' i pm w)"
  using assms by (cases "if t then A else Ret (SUCCESS, w)") (auto simp: ubind_def split: outcome.split if_splits)

lemma EnablePort_alone: "EnablePort os D G wl pm p a l w = alone os D G wl (Enable p a l) pm w"
proof (cases "GetDrmObjectByPortId pm p")
  case None
  then show ?thesis by (simp add: EnablePort_def alone_def begin_request_def enable_request_def)
next
  case (Some i)
  then have i: "i < length (m_DrmObjects pm)" using by_port_id by blast
  have tail: "obind (CpTypeAtomicBegin (obj pm i)) (\<lambda>ob.
      let ((sts, cpValue, cpType), w) = GetProtectionInfo D pm ob w in
      if sts \<noteq> SUCCESS \<or> cpValue \<noteq> CP_ENABLED
      then obind (CpTypeAtomicEnd ob) (\<lambda>ob. ret ((EBUSY, set_obj i ob pm), w)) else
      let ob = AddRefAppId a (SetCpType cpType ob) in
      obind (CpTypeAtomicEnd ob) (\<lambda>ob. ret ((SUCCESS, set_obj i ob pm), w))) =
    obind (CpTypeAtomicBegin (obj pm i)) (\<lambda>ob. confirm D (Enable p a l) i (set_obj i ob pm) w)" for w
    using i by (intro obind_cong refl) (simp add: confirm_def confirmed_def Let_def split: prod.splits)
  note e = EnablePort_def [of os D G wl pm p a l w, unfolded Some option.case Let_def [of "obj pm i"], unfolded tail]
  show ?thesis
  proof (cases "m_Connection (obj pm i) = DRM_MODE_DISCONNECTED \<or>
      GetPropertyId CP_CONTENT_TYPE (obj pm i) = UINT32_MAX \<and> l = HDCP_LEVEL2 \<or>
      GetCpType (obj pm i) \<noteq> CP_TYPE_INVALID \<and> (ucast l :: u32) - 1 \<le> ucast (GetCpType (obj pm i))")
    case True
    with Some show ?thesis
      by (auto simp: e alone_def begin_request_def enable_request_def Let_def)
  next
    case False
    then have g: "(m_Connection (obj pm i) = DRM_MODE_DISCONNECTED) = False"
      "(\<not> GetPropertyId CP_CONTENT_TYPE (obj pm i) \<noteq> UINT32_MAX \<and> l = HDCP_LEVEL2) = False"
      "(GetCpType (obj pm i) \<noteq> CP_TYPE_INVALID \<and> (ucast l :: u32) - 1 \<le> ucast (GetCpType (obj pm i))) = False"
      by blast+
    show ?thesis
      unfolding e alone_def begin_request_def enable_request_def main_request.case Some option.case Let_def g if_False
      by (rule set_property_twice) (simp add: settle_def)
  qed
qed

lemma DisablePort_alone: "DisablePort os D G wl pm p a w = alone os D G wl (Disable p a) pm w"
proof (cases "GetDrmObjectByPortId pm p")
  case None
  then show ?thesis by (simp add: DisablePort_def alone_def begin_request_def disable_request_def)
next
  case (Some i)
  then have i: "i < length (m_DrmObjects pm)" using by_port_id by blast
  let ?ob = "RemoveRefAppId a (obj pm i)" and ?pm = "set_obj i (RemoveRefAppId a (obj pm i)) pm"
  have tail: "obind (CpTypeAtomicBegin ?ob) (\<lambda>ob.
      let ((sts, cpValue, cpType), w) = GetProtectionInfo D ?pm ob w in
      if sts \<noteq> SUCCESS \<or> cpValue \<noteq> CP_OFF
      then obind (CpTypeAtomicEnd ob) (\<lambda>ob. ret ((EBUSY, set_obj i ob ?pm), w)) else
      obind (CpTypeAtomicEnd (SetCpType CP_TYPE_INVALID ob)) (\<lambda>ob. ret ((SUCCESS, set_obj i ob ?pm), w))) =
    obind (CpTypeAtomicBegin (obj ?pm i)) (\<lambda>ob. confirm D (Disable p a) i (set_obj i ob ?pm) w)" for w
    using i by (simp, intro obind_cong refl) (simp add: confirm_def confirmed_def Let_def split: prod.splits)
  note e = DisablePort_def [of os D G wl pm p a w,
      unfolded Some option.case Let_def [of "obj pm i"] Let_def [of ?ob] Let_def [of ?pm], unfolded tail]
  show ?thesis
    unfolding e alone_def begin_request_def disable_request_def main_request.case Some option.case
      Let_def [of "obj pm i"] Let_def [of ?ob] Let_def [of ?pm]
    by (simp add: ubind_def settle_def split: outcome.split prod.split)
qed

section \<open>The integrity check of one port\<close>

text \<open>Whether the link is lost: the port is recorded as protected and the driver says it is not.\<close>

definition integrity_check :: "'w drm_api \<Rightarrow> PortManager \<Rightarrow> DrmObject \<Rightarrow> 'w \<Rightarrow> bool \<times> 'w" where
  "integrity_check D pm ob w =
     (if GetCpType ob = CP_TYPE_INVALID then (False, w) else
      let ((sts, cpValue, cpType), w) = GetProtectionInfo D pm ob w in
      (sts = SUCCESS \<and> cpValue \<noteq> CP_ENABLED, w))"

lemma integrity_loop_check:
  "integrity_loop os D mem pm (ob # obs) cb w =
     obind (CpTypeAtomicBegin ob) (\<lambda>ob. let (lost, w) = integrity_check D pm ob w in
     obind (if lost
            then obind (ReportStatus os mem cb PORT_EVENT_LINK_LOST (m_PortId ob) w) (\<lambda>(cb, w).
              ret ((SetCpType CP_TYPE_INVALID ob, cb), w))
            else ret ((ob, cb), w)) (\<lambda>((ob, cb), w).
     obind (CpTypeAtomicEnd ob) (\<lambda>ob.
     obind (integrity_loop os D mem pm obs cb w) (\<lambda>((obs, cb), w). ret ((ob # obs, cb), w)))))"
  unfolding integrity_loop.simps
  by (intro obind_cong refl) (auto simp: integrity_check_def Let_def split: prod.splits)

section \<open>The steps\<close>

datatype main_pc = M_idle int | M_waiting main_request nat | M_entering main_request nat | M_inside main_request nat

datatype check_pc = C_entering nat | C_inside nat | C_lost nat

text \<open>
  A configuration: where the message loop is, where the integrity thread is, the port manager, the
  callback list, the world, and the ports that were reported as lost so far.
\<close>

type_synonym 'w pt_config = "main_pc \<times> check_pc \<times> PortManager \<times> CallBacks \<times> 'w \<times> u32 list"

inductive pt_step ::
  "'w os_api \<Rightarrow> 'w drm_api \<Rightarrow> 'w gwl_api \<Rightarrow> wl_state \<Rightarrow> ('w \<Rightarrow> SocketData) \<Rightarrow> 'w pt_config \<Rightarrow> 'w pt_config \<Rightarrow> bool"
  for os :: "'w os_api" and D :: "'w drm_api" and G :: "'w gwl_api" and wl :: wl_state
    and mem :: "'w \<Rightarrow> SocketData" where
  refused: "begin_request os D G wl rq pm w = Ret ((Inl sts, pm'), w') \<Longrightarrow>
    pt_step os D G wl mem (M_idle r, c, pm, cb, w, l) (M_idle sts, c, pm', cb, w', l)"
| requested: "begin_request os D G wl rq pm w = Ret ((Inr i, pm'), w') \<Longrightarrow>
    pt_step os D G wl mem (M_idle r, c, pm, cb, w, l) (M_waiting rq i, c, pm', cb, w', l)"
| settled: "pt_step os D G wl mem (M_waiting rq i, c, pm, cb, w, l) (M_entering rq i, c, pm, cb, settle os rq w, l)"
| enter: "CpTypeAtomicBegin (obj pm i) = ret ob \<Longrightarrow>
    pt_step os D G wl mem (M_entering rq i, c, pm, cb, w, l) (M_inside rq i, c, set_obj i ob pm, cb, w, l)"
| leave: "confirm D rq i pm w = ret ((sts, pm'), w') \<Longrightarrow>
    pt_step os D G wl mem (M_inside rq i, c, pm, cb, w, l) (M_idle sts, c, pm', cb, w', l)"
| check_enter: "j < length (m_DrmObjects pm) \<Longrightarrow> CpTypeAtomicBegin (obj pm j) = ret ob \<Longrightarrow>
    pt_step os D G wl mem (m, C_entering j, pm, cb, w, l) (m, C_inside j, set_obj j ob pm, cb, w, l)"
| check_fine: "integrity_check D pm (obj pm j) w = (False, w') \<Longrightarrow> CpTypeAtomicEnd (obj pm j) = ret ob \<Longrightarrow>
    pt_step os D G wl mem (m, C_inside j, pm, cb, w, l) (m, C_entering (Suc j), set_obj j ob pm, cb, w', l)"
| check_lost: "integrity_check D pm (obj pm j) w = (True, w') \<Longrightarrow>
    pt_step os D G wl mem (m, C_inside j, pm, cb, w, l) (m, C_lost j, pm, cb, w', l)"
| check_report: "ReportStatus os mem cb PORT_EVENT_LINK_LOST (m_PortId (obj pm j)) w = ret (cb', w') \<Longrightarrow>
    CpTypeAtomicEnd (SetCpType CP_TYPE_INVALID (obj pm j)) = ret ob \<Longrightarrow>
    pt_step os D G wl mem (m, C_lost j, pm, cb, w, l)
      (m, C_entering (Suc j), set_obj j ob pm, cb', w', l @ [m_PortId (obj pm j)])"
| check_again: "\<not> j < length (m_DrmObjects pm) \<Longrightarrow>
    pt_step os D G wl mem (m, C_entering j, pm, cb, w, l) (m, C_entering 0, pm, cb, w, l)"
| plug: "j < length (m_DrmObjects pm) \<Longrightarrow>
    hotplug_loop os D mem (m_DrmFd pm) [obj pm j] cb w = ret (([ob], cb'), w') \<Longrightarrow>
    pt_step os D G wl mem (m, c, pm, cb, w, l) (m, c, set_obj j ob pm, cb', w', l)"
| hardware: "pt_step os D G wl mem (m, c, pm, cb, w, l) (m, c, pm, cb, w', l)"

text \<open>The sections that the mutex of a port guards.\<close>

definition main_inside :: "main_pc \<Rightarrow> nat \<Rightarrow> bool" where
  "main_inside m i \<longleftrightarrow> (\<exists>rq. m = M_inside rq i)"

definition check_inside :: "check_pc \<Rightarrow> nat \<Rightarrow> bool" where
  "check_inside c i \<longleftrightarrow> c = C_inside i \<or> c = C_lost i"

text \<open>The connectors a thread works on exist.\<close>

definition main_at :: "main_pc \<Rightarrow> nat \<Rightarrow> bool" where
  "main_at m i \<longleftrightarrow> (\<exists>rq. m = M_waiting rq i \<or> m = M_entering rq i \<or> m = M_inside rq i)"

lemmas pc_defs = main_inside_def check_inside_def main_at_def

definition pt_inv :: "'w pt_config \<Rightarrow> bool" where
  "pt_inv s = (case s of (m, c, pm, cb, w, l) \<Rightarrow>
     (\<forall>i. \<not> (main_inside m i \<and> check_inside c i)) \<and>
     (\<forall>i < length (m_DrmObjects pm). m_CpTypeMutex (obj pm i) \<longleftrightarrow> main_inside m i \<or> check_inside c i) \<and>
     (\<forall>i < length (m_DrmObjects pm). \<not> m_ConnectionMutex (obj pm i)) \<and>
     (\<forall>i. main_at m i \<or> check_inside c i \<longrightarrow> i < length (m_DrmObjects pm)) \<and>
     (\<forall>j. c = C_lost j \<longrightarrow> GetCpType (obj pm j) \<noteq> CP_TYPE_INVALID) \<and> \<not> m_CallBackListMutex cb)"

lemma set_obj_length [simp]: "length (m_DrmObjects (set_obj i ob pm)) = length (m_DrmObjects pm)"
  by (simp add: set_obj_def)

lemma obj_set: "obj (set_obj i ob pm) j = (if j = i \<and> i < length (m_DrmObjects pm) then ob else obj pm j)"
  by (auto simp: obj_def set_obj_def list_update_beyond)

text \<open>A request changes references only, before it enters the section.\<close>

definition same_record :: "PortManager \<Rightarrow> PortManager \<Rightarrow> bool" where
  "same_record pm pm' \<longleftrightarrow> length (m_DrmObjects pm') = length (m_DrmObjects pm) \<and>
     (\<forall>j. m_CpTypeMutex (obj pm' j) = m_CpTypeMutex (obj pm j) \<and> GetCpType (obj pm' j) = GetCpType (obj pm j) \<and>
        m_ConnectionMutex (obj pm' j) = m_ConnectionMutex (obj pm j))"

lemma record_fields [simp]:
  "GetCpType (AddRefAppId a ob) = GetCpType ob" "GetCpType (RemoveRefAppId a ob) = GetCpType ob"
  "m_CpTypeMutex (SetConnection k ob) = m_CpTypeMutex ob" "GetCpType (SetConnection k ob) = GetCpType ob"
  by (simp_all add: AddRefAppId_def RemoveRefAppId_def GetCpType_def SetConnection_def)

lemma same_record_refl [simp]: "same_record pm pm"
  by (simp add: same_record_def)

lemma same_record_set: "same_record pm (set_obj i (AddRefAppId a (obj pm i)) pm)"
  "same_record pm (set_obj i (RemoveRefAppId a (obj pm i)) pm)"
  by (simp_all add: same_record_def obj_set)

lemma begin_request_same:
  assumes "begin_request os D G wl rq pm w = Ret ((r, pm'), w')"
  shows "same_record pm pm' \<and> (\<forall>i. r = Inr i \<longrightarrow> i < length (m_DrmObjects pm))"
  using assms unfolding begin_request_def enable_request_def disable_request_def Let_def
  by (auto elim!: hdcp_elims simp: same_record_set split: main_request.splits option.splits if_splits prod.splits
      dest!: by_port_id)

text \<open>What the owner of the section leaves behind: its mutex is free, the others are untouched.\<close>

lemma confirm_record:
  assumes "confirm D rq i pm w = ret ((sts, pm'), w')" "i < length (m_DrmObjects pm)"
  shows "length (m_DrmObjects pm') = length (m_DrmObjects pm) \<and> \<not> m_CpTypeMutex (obj pm' i) \<and>
    m_ConnectionMutex (obj pm' i) = m_ConnectionMutex (obj pm i) \<and> (\<forall>j. j \<noteq> i \<longrightarrow> obj pm' j = obj pm j)"
  using assms unfolding confirm_def confirmed_def Let_def
  by (auto elim!: hdcp_elims split: main_request.splits if_splits prod.splits)

lemma plug_record:
  assumes "hotplug_loop os D mem fd [ob] cb w = ret (([ob'], cb'), w')"
  shows "m_CpTypeMutex ob' = m_CpTypeMutex ob \<and> GetCpType ob' = GetCpType ob \<and> \<not> m_ConnectionMutex ob' \<and>
    (\<not> m_CallBackListMutex cb \<longrightarrow> \<not> m_CallBackListMutex cb')"
  using assms
  by (auto elim!: hdcp_elims simp: Let_def GetCpType_def SetConnection_def split: option.splits prod.splits if_splits
      dest!: ReportStatus_unlocks)

lemma pt_step_inv:
  assumes "pt_step os D G wl mem s s'" "pt_inv s"
  shows "pt_inv s'"
  using assms
proof (induction rule: pt_step.induct)
  case (refused rq pm w sts pm' w' r c cb l)
  with begin_request_same [OF refused(1)] show ?case by (auto simp: pt_inv_def pc_defs same_record_def)
next
  case (requested rq pm w i pm' w' r c cb l)
  with begin_request_same [OF requested(1)] show ?case by (auto simp: pt_inv_def pc_defs same_record_def)
next
  case (leave rq i pm w sts pm' w' c cb l)
  then have i: "i < length (m_DrmObjects pm)" "\<not> check_inside c i" by (auto simp: pt_inv_def pc_defs)
  from leave confirm_record [OF leave(1) i(1)] i(2) show ?case
    unfolding pt_inv_def prod.case by (auto simp: pc_defs)
next
  case (plug j pm cb w ob cb' w' m c l)
  with plug_record [OF plug(2)] show ?case by (auto simp: pt_inv_def obj_set)
next
  case (check_report cb pm j w cb' w' ob m l)
  with ReportStatus_unlocks [OF check_report(1)] show ?case by (auto simp: pt_inv_def obj_set pc_defs)
next
  case (check_lost pm j w w' m cb l)
  then show ?case by (auto simp: pt_inv_def pc_defs integrity_check_def split: if_splits)
qed (auto simp: pt_inv_def obj_set pc_defs)

lemma pt_steps_inv: "(pt_step os D G wl mem)\<^sup>*\<^sup>* s s' \<Longrightarrow> pt_inv s \<Longrightarrow> pt_inv s'"
  by (induction rule: rtranclp_induct) (auto dest: pt_step_inv)

lemma pt_inv_start:
  assumes "pm_inv pm" "\<not> m_CallBackListMutex cb"
  shows "pt_inv (M_idle r, C_entering 0, pm, cb, w, l)"
  using assms by (auto simp: pt_inv_def pc_defs pm_inv_def unlocked_def obj_def)

section \<open>Progress\<close>

lemma SendResponse_returns:
  assumes "finitely_stalled os stall" "sends_in_order os out" "sd_wf d"
  shows "\<exists>sts w'. SendResponse os d fd w = ret (sts, w')"
proof -
  have "SendResponse os d fd w \<noteq> None"
    using write_loop_returns [OF assms(1)] by (simp add: SendResponse_def WriteData_def)
  then obtain r where r: "SendResponse os d fd w = Some r" by blast
  show ?thesis
    by (rule WriteData_partial [OF r [unfolded SendResponse_def] assms(2)]) (use assms(3) r in auto)
qed

lemma report_loop_returns:
  assumes "finitely_stalled os stall" "sends_in_order os out" "sd_wf d"
  shows "\<exists>r. report_loop os d fds w = ret r"
proof (induction fds arbitrary: w)
  case (Cons fd fds)
  obtain sts w1 where "SendResponse os d fd w = ret (sts, w1)" using SendResponse_returns [OF assms] by blast
  moreover obtain r where "report_loop os d fds w1 = ret r" using Cons.IH by blast
  moreover obtain r2 where "report_loop os d fds (snd (os_close os fd w1)) = ret r2" using Cons.IH by blast
  ultimately show ?case by (cases r; cases r2) (auto simp: split_beta)
qed simp

lemma ReportStatus_returns:
  assumes "finitely_stalled os stall" "sends_in_order os out" "\<forall>u. sd_wf (mem u)" "\<not> m_CallBackListMutex cb"
  obtains cb' w' where "ReportStatus os mem cb e p w = ret (cb', w')"
proof -
  have "sd_wf (status_message (mem w) e p)" using status_message_wf assms(3) by blast
  from report_loop_returns [OF assms(1,2) this] obtain fds w' where
    "report_loop os (status_message (mem w) e p) (m_CallBackList cb) w = ret (fds, w')" by fastforce
  with assms(4) show ?thesis
    by (intro that) (simp add: ReportStatus_def acquire_callbacks_def release_callbacks_def)
qed

text \<open>Whoever is in the section of a port can leave it.\<close>

lemma confirm_possible:
  assumes "i < length (m_DrmObjects pm)" "m_CpTypeMutex (obj pm i)"
  shows "\<exists>sts pm' w'. confirm D rq i pm w = ret ((sts, pm'), w')"
  using assms unfolding confirm_def confirmed_def Let_def CpTypeAtomicEnd_def
  by (cases rq) (auto split: prod.split)

lemma main_leaves:
  assumes "pt_inv (M_inside rq i, c, pm, cb, w, l)"
  shows "\<exists>sts pm' w'. pt_step os D G wl mem (M_inside rq i, c, pm, cb, w, l) (M_idle sts, c, pm', cb, w', l) \<and>
    length (m_DrmObjects pm') = length (m_DrmObjects pm)"
proof -
  from assms have "i < length (m_DrmObjects pm)" "m_CpTypeMutex (obj pm i)" by (auto simp: pt_inv_def pc_defs)
  with confirm_possible confirm_record show ?thesis by (metis pt_step.leave)
qed

lemma check_leaves:
  assumes "finitely_stalled os stall" "sends_in_order os out" "\<forall>u. sd_wf (mem u)"
    and "pt_inv (m, c, pm, cb, w, l)" "check_inside c j"
  shows "\<exists>pm' cb' w' l'. (pt_step os D G wl mem)\<^sup>*\<^sup>* (m, c, pm, cb, w, l) (m, C_entering (Suc j), pm', cb', w', l')"
proof -
  have reported: "\<exists>pm' cb' w' l'. (pt_step os D G wl mem)\<^sup>*\<^sup>* (m, C_lost j, pm, cb, w1, l)
      (m, C_entering (Suc j), pm', cb', w', l')" if "m_CpTypeMutex (obj pm j)" for w1
  proof -
    obtain cb' w' where "ReportStatus os mem cb PORT_EVENT_LINK_LOST (m_PortId (obj pm j)) w1 = ret (cb', w')"
      by (rule ReportStatus_returns [OF assms(1-3)]) (use assms(4) in \<open>auto simp: pt_inv_def\<close>)
    moreover have "CpTypeAtomicEnd (SetCpType CP_TYPE_INVALID (obj pm j)) =
        ret ((SetCpType CP_TYPE_INVALID (obj pm j))\<lparr>m_CpTypeMutex := False\<rparr>)" using that by simp
    ultimately show ?thesis using pt_step.check_report r_into_rtranclp by metis
  qed
  from assms(4,5) have locked: "m_CpTypeMutex (obj pm j)" by (auto simp: pt_inv_def pc_defs)
  show ?thesis
  proof (cases "c = C_lost j")
    case True
    with reported [OF locked] show ?thesis by simp
  next
    case False
    with assms(5) have c: "c = C_inside j" by (simp add: check_inside_def)
    obtain lost w1 where i: "integrity_check D pm (obj pm j) w = (lost, w1)" by fastforce
    show ?thesis
    proof (cases lost)
      case True
      with i have "pt_step os D G wl mem (m, C_inside j, pm, cb, w, l) (m, C_lost j, pm, cb, w1, l)"
        by (simp add: pt_step.check_lost)
      with reported [OF locked, of w1] c show ?thesis by (meson converse_rtranclp_into_rtranclp)
    next
      case False
      have "CpTypeAtomicEnd (obj pm j) = ret ((obj pm j)\<lparr>m_CpTypeMutex := False\<rparr>)" using locked by simp
      with i False have "pt_step os D G wl mem (m, C_inside j, pm, cb, w, l)
          (m, C_entering (Suc j), set_obj j ((obj pm j)\<lparr>m_CpTypeMutex := False\<rparr>) pm, cb, w1, l)"
        by (simp add: pt_step.check_fine)
      with c show ?thesis by blast
    qed
  qed
qed

section \<open>Properties\<close>

text \<open>A port that application 5 uses, on a device that reports every port off; the request to disable
  it has entered the section.\<close>

definition off_drm :: "nat drm_api" where
  "off_drm = demo_drm\<lparr>drmModeObjectGetProperties := (\<lambda>fd i. Pair (Some [(1, 0), (2, 0)]))\<rparr>"

definition used_pm :: PortManager where
  "used_pm = set_obj 0 (AddRefAppId 5 (SetCpType 0 demo_object)) demo_pm"

definition held_pm :: PortManager where
  "held_pm = set_obj 0 ((RemoveRefAppId 5 (obj used_pm 0))\<lparr>m_CpTypeMutex := True\<rparr>) used_pm"

definition unheard :: CallBacks where
  "unheard = \<lparr>m_CallBackList = [], m_CallBackListMutex = False\<rparr>"

lemma unheard_free: "\<not> m_CallBackListMutex unheard"
  by (simp add: unheard_def)

lemma used_inv: "pm_inv used_pm"
proof -
  have "pm_touched demo_pm used_pm"
    using EnablePort_touched [OF demo_enable] by (simp add: used_pm_def app_id_def)
  from pm_touched_inv [OF this demo_inv] show ?thesis .
qed

lemma held_request:
  "begin_request idle_os off_drm idle_gwl wl_start (Disable 0 5) used_pm 0 =
     Ret ((Inr 0, set_obj 0 (RemoveRefAppId 5 (obj used_pm 0)) used_pm), Suc 0)"
  by code_simp

lemma held_reached:
  "(pt_step idle_os off_drm idle_gwl wl_start (\<lambda>w. example_mem))\<^sup>*\<^sup>*
     (M_idle 0, C_entering 0, used_pm, unheard, 0, [])
     (M_inside (Disable 0 5) 0, C_entering 0, held_pm, unheard, Suc 0, [])"
proof -
  let ?step = "pt_step idle_os off_drm idle_gwl wl_start (\<lambda>w. example_mem)"
  let ?pm = "set_obj 0 (RemoveRefAppId 5 (obj used_pm 0)) used_pm"
  have "?step (M_idle 0, C_entering 0, used_pm, unheard, 0, []) (M_waiting (Disable 0 5) 0, C_entering 0, ?pm, unheard, Suc 0, [])"
    by (rule pt_step.requested [OF held_request])
  moreover have "?step (M_waiting (Disable 0 5) 0, C_entering 0, ?pm, unheard, Suc 0, [])
      (M_entering (Disable 0 5) 0, C_entering 0, ?pm, unheard, Suc 0, [])"
    using pt_step.settled [where rq = "Disable 0 5" and w = "Suc 0" and os = idle_os] by (simp add: settle_def)
  moreover have "CpTypeAtomicBegin (obj ?pm 0) = ret ((RemoveRefAppId 5 (obj used_pm 0))\<lparr>m_CpTypeMutex := True\<rparr>)"
    by code_simp
  from pt_step.enter [OF this, of idle_os off_drm idle_gwl wl_start "\<lambda>w. example_mem" "Disable 0 5" "C_entering 0" unheard "Suc 0" "[]"]
  have "?step (M_entering (Disable 0 5) 0, C_entering 0, ?pm, unheard, Suc 0, [])
      (M_inside (Disable 0 5) 0, C_entering 0, held_pm, unheard, Suc 0, [])" by (simp add: held_pm_def)
  ultimately show ?thesis by (meson converse_rtranclp_into_rtranclp r_into_rtranclp)
qed

text \<open>C13: However the message loop, the integrity check and hot plug events interleave, whatever the
  requests and whatever the hardware does: never are both threads in the section of the same port, the
  mutex of every port is held exactly while one of them is, and from the moment the check has found a
  link lost to its report the port stays recorded as protected.\<close>

theorem port_threads_exclusive:
  assumes "(pt_step os D G wl mem)\<^sup>*\<^sup>* (M_idle r, C_entering 0, pm0, cb0, w0, l0) (m, c, pm, cb, w, l)"
    and "pm_inv pm0" "\<not> m_CallBackListMutex cb0"
  shows "(\<forall>i. \<not> (main_inside m i \<and> check_inside c i)) \<and>
    (\<forall>i < length (m_DrmObjects pm). m_CpTypeMutex (obj pm i) \<longleftrightarrow> main_inside m i \<or> check_inside c i) \<and>
    (\<forall>j. c = C_lost j \<longrightarrow> GetCpType (obj pm j) \<noteq> CP_TYPE_INVALID)"
  using pt_steps_inv [OF assms(1) pt_inv_start [OF assms(2,3)]] by (simp add: pt_inv_def)

theorem port_threads_exclusive_witness:
  "main_inside (M_inside (Disable 0 5) 0) 0 \<and> \<not> check_inside (C_entering 0) 0 \<and> m_CpTypeMutex (obj held_pm 0)"
proof -
  have "0 < length (m_DrmObjects held_pm)" by (simp add: held_pm_def used_pm_def demo_pm_def)
  moreover have "main_inside (M_inside (Disable 0 5) 0) 0" by (simp add: main_inside_def)
  ultimately show ?thesis
    using port_threads_exclusive [OF held_reached used_inv unheard_free] by blast
qed

text \<open>Neither thread locks the other out for good: in every reachable configuration a thread that is
  about to enter the section of a port can get there, if the transfers to the callback connections
  are not interrupted forever.\<close>

theorem port_threads_never_stuck:
  assumes "finitely_stalled os stall" "sends_in_order os out" "\<forall>u. sd_wf (mem u)"
    and "(pt_step os D G wl mem)\<^sup>*\<^sup>* (M_idle r, C_entering 0, pm0, cb0, w0, l0) (m, c, pm, cb, w, l)"
    and "pm_inv pm0" "\<not> m_CallBackListMutex cb0"
  shows "(\<forall>rq i. m = M_entering rq i \<longrightarrow> (\<exists>c' pm' cb' w' l'.
      (pt_step os D G wl mem)\<^sup>*\<^sup>* (m, c, pm, cb, w, l) (M_inside rq i, c', pm', cb', w', l'))) \<and>
    (\<forall>j < length (m_DrmObjects pm). c = C_entering j \<longrightarrow> (\<exists>m' pm' cb' w' l'.
      (pt_step os D G wl mem)\<^sup>*\<^sup>* (m, c, pm, cb, w, l) (m', C_inside j, pm', cb', w', l')))"
proof (intro conjI allI impI)
  have inv: "pt_inv (m, c, pm, cb, w, l)" using pt_steps_inv [OF assms(4) pt_inv_start [OF assms(5,6)]] .
  have enter: "\<exists>c' pm' cb' w' l'. (pt_step os D G wl mem)\<^sup>*\<^sup>* (M_entering rq i, c2, pm2, cb2, w2, l2)
      (M_inside rq i, c', pm', cb', w', l')"
    if "pt_inv (M_entering rq i, c2, pm2, cb2, w2, l2)" "\<not> check_inside c2 i" for rq i c2 pm2 cb2 w2 l2
  proof -
    from that have "CpTypeAtomicBegin (obj pm2 i) = ret ((obj pm2 i)\<lparr>m_CpTypeMutex := True\<rparr>)"
      by (auto simp: pt_inv_def pc_defs)
    then have "pt_step os D G wl mem (M_entering rq i, c2, pm2, cb2, w2, l2)
        (M_inside rq i, c2, set_obj i ((obj pm2 i)\<lparr>m_CpTypeMutex := True\<rparr>) pm2, cb2, w2, l2)"
      by (rule pt_step.enter)
    then show ?thesis by blast
  qed
  show "\<exists>c' pm' cb' w' l'. (pt_step os D G wl mem)\<^sup>*\<^sup>* (m, c, pm, cb, w, l) (M_inside rq i, c', pm', cb', w', l')"
    if m: "m = M_entering rq i" for rq i
  proof (cases "check_inside c i")
    case False
    with enter inv m show ?thesis by simp
  next
    case True
    obtain pm' cb' w' l' where go: "(pt_step os D G wl mem)\<^sup>*\<^sup>* (m, c, pm, cb, w, l)
        (m, C_entering (Suc i), pm', cb', w', l')" using check_leaves [OF assms(1-3) inv True] by blast
    from enter [OF pt_steps_inv [OF go inv, unfolded m]] obtain c2 pm2 cb2 w2 l2 where
      "(pt_step os D G wl mem)\<^sup>*\<^sup>* (M_entering rq i, C_entering (Suc i), pm', cb', w', l')
        (M_inside rq i, c2, pm2, cb2, w2, l2)" by (auto simp: check_inside_def)
    from rtranclp_trans [OF go [unfolded m] this] show ?thesis unfolding m by blast
  qed
  have check: "\<exists>m' pm' cb' w' l'. (pt_step os D G wl mem)\<^sup>*\<^sup>* (m2, C_entering j, pm2, cb2, w2, l2)
      (m', C_inside j, pm', cb', w', l')"
    if "pt_inv (m2, C_entering j, pm2, cb2, w2, l2)" "\<not> main_inside m2 j" "j < length (m_DrmObjects pm2)"
    for m2 j pm2 cb2 w2 l2
  proof -
    from that have "CpTypeAtomicBegin (obj pm2 j) = ret ((obj pm2 j)\<lparr>m_CpTypeMutex := True\<rparr>)"
      by (auto simp: pt_inv_def pc_defs)
    then have "pt_step os D G wl mem (m2, C_entering j, pm2, cb2, w2, l2)
        (m2, C_inside j, set_obj j ((obj pm2 j)\<lparr>m_CpTypeMutex := True\<rparr>) pm2, cb2, w2, l2)"
      by (rule pt_step.check_enter [OF that(3)])
    then show ?thesis by blast
  qed
  show "\<exists>m' pm' cb' w' l'. (pt_step os D G wl mem)\<^sup>*\<^sup>* (m, c, pm, cb, w, l) (m', C_inside j, pm', cb', w', l')"
    if j: "j < length (m_DrmObjects pm)" "c = C_entering j" for j
  proof (cases "main_inside m j")
    case False
    with check inv j show ?thesis by simp
  next
    case True
    then obtain rq where m: "m = M_inside rq j" by (auto simp: main_inside_def)
    obtain sts pm' w' where go: "pt_step os D G wl mem (m, c, pm, cb, w, l) (M_idle sts, c, pm', cb, w', l)"
      "length (m_DrmObjects pm') = length (m_DrmObjects pm)" 
      using main_leaves [of rq j c pm cb w l os D G wl mem] inv unfolding m by blast
    from check [OF pt_step_inv [OF go(1) inv, unfolded j(2)]] go(2) j(1) obtain m2 pm2 cb2 w2 l2 where
      "(pt_step os D G wl mem)\<^sup>*\<^sup>* (M_idle sts, C_entering j, pm', cb, w', l) (m2, C_inside j, pm2, cb2, w2, l2)"
      by (auto simp: main_inside_def)
    from converse_rtranclp_into_rtranclp [OF go(1) [unfolded j(2)] this] show ?thesis unfolding j(2) by blast
  qed
qed

theorem port_threads_never_stuck_witness:
  "\<exists>m' pm' cb' w' l'. (pt_step idle_os off_drm idle_gwl wl_start (\<lambda>w. example_mem))\<^sup>*\<^sup>*
     (M_inside (Disable 0 5) 0, C_entering 0, held_pm, unheard, Suc 0, []) (m', C_inside 0, pm', cb', w', l')"
proof -
  have "finitely_stalled (idle_os :: nat os_api) (\<lambda>w. 0)" "sends_in_order (idle_os :: nat os_api) (\<lambda>w fd. [])"
    "\<forall>u :: nat. sd_wf example_mem"
    using example_mem_wf by (auto simp: finitely_stalled_def sends_in_order_def idle_simps)
  note port_threads_never_stuck [OF this held_reached used_inv unheard_free, THEN conjunct2]
  moreover have "0 < length (m_DrmObjects held_pm)" by (simp add: held_pm_def used_pm_def demo_pm_def)
  ultimately show ?thesis by blast
qed

text \<open>The pieces of a request to disable a port for its last application, and of the check.\<close>

lemma last_user_leaves:
  assumes "pm_inv pm" "i < length (m_DrmObjects pm)" "app_refs (obj pm i) \<subseteq> {a}"
  shows "\<not> 1 \<le> GetRefAppCount (RemoveRefAppId a (obj pm i))"
proof -
  have "app_ok (RemoveRefAppId a (obj pm i))" using assms(1,2) by (intro apps.remove_ok) (auto simp: pm_inv_def obj_def)
  then show ?thesis
    using assms(3) apps.none_iff [of "RemoveRefAppId a (obj pm i)"] by (auto simp: no_apps_def apps.remove_refs)
qed

lemma disable_asked:
  assumes "pm_inv pm" "i < length (m_DrmObjects pm)" "m_Connection (obj pm i) \<noteq> DRM_MODE_DISCONNECTED"
    and "app_refs (obj pm i) \<subseteq> {a}"
    and "SetPortProperty os D G wl (set_obj i (RemoveRefAppId a (obj pm i)) pm) (m_DrmId (obj pm i))
      (GetPropertyId CONTENT_PROTECTION (obj pm i)) [CP_OFF] 1 w = Ret (SUCCESS, w1)"
  shows "(pt_step os D G wl mem)\<^sup>*\<^sup>* (M_idle r, c, pm, cb, w, l)
    (M_entering (Disable (of_nat i) a) i, c, set_obj i (RemoveRefAppId a (obj pm i)) pm, cb, w1, l)"
proof -
  let ?step = "pt_step os D G wl mem" and ?rq = "Disable (of_nat i) a" and ?pm = "set_obj i (RemoveRefAppId a (obj pm i)) pm"
  have "GetDrmObjectByPortId pm (of_nat i) = Some i" using find_own_port [OF assms(1,2)] port_id_of [OF assms(1,2)] by simp
  then have "begin_request os D G wl ?rq pm w = Ret ((Inr i, ?pm), w1)"
    using assms(3,5) last_user_leaves [OF assms(1,2,4)] by (simp add: begin_request_def disable_request_def Let_def)
  then have "?step (M_idle r, c, pm, cb, w, l) (M_waiting ?rq i, c, ?pm, cb, w1, l)"
    by (rule pt_step.requested)
  moreover have "?step (M_waiting ?rq i, c, ?pm, cb, w1, l) (M_entering ?rq i, c, ?pm, cb, w1, l)"
    using pt_step.settled [where rq = ?rq and w = w1] by (simp add: settle_def)
  ultimately show ?thesis by (meson converse_rtranclp_into_rtranclp r_into_rtranclp)
qed

lemma check_enters:
  assumes "i < length (m_DrmObjects pm)" "\<not> m_CpTypeMutex ob"
  shows "pt_step os D G wl mem (m, C_entering i, set_obj i ob pm, cb, v, l)
    (m, C_inside i, set_obj i (ob\<lparr>m_CpTypeMutex := True\<rparr>) pm, cb, v, l)"
  using pt_step.check_enter [of i "set_obj i ob pm" "ob\<lparr>m_CpTypeMutex := True\<rparr>" os D G wl mem] assms by simp

lemma disable_confirmed:
  assumes "i < length (m_DrmObjects pm)" "\<not> m_CpTypeMutex ob" "GetProtectionInfo D pm ob v = ((SUCCESS, CP_OFF, x), v')"
  shows "(pt_step os D G wl mem)\<^sup>*\<^sup>* (M_entering (Disable p a) i, c, set_obj i ob pm, cb, v, l)
    (M_idle SUCCESS, c, set_obj i (SetCpType CP_TYPE_INVALID ob) pm, cb, v', l)"
proof -
  let ?step = "pt_step os D G wl mem" and ?rq = "Disable p a" and ?lock = "ob\<lparr>m_CpTypeMutex := True\<rparr>"
  have "?step (M_entering ?rq i, c, set_obj i ob pm, cb, v, l) (M_inside ?rq i, c, set_obj i ?lock pm, cb, v, l)"
    using pt_step.enter [of "set_obj i ob pm" i ?lock os D G wl mem ?rq] assms(1,2) by simp
  moreover have "confirm D ?rq i (set_obj i ?lock pm) v = ret ((SUCCESS, set_obj i (SetCpType CP_TYPE_INVALID ob) pm), v')"
    using assms by (simp add: confirm_def confirmed_def Let_def CpTypeAtomicEnd_def)
  from pt_step.leave [OF this] have "?step (M_inside ?rq i, c, set_obj i ?lock pm, cb, v, l)
      (M_idle SUCCESS, c, set_obj i (SetCpType CP_TYPE_INVALID ob) pm, cb, v', l)" .
  ultimately show ?thesis by (meson converse_rtranclp_into_rtranclp r_into_rtranclp)
qed

text \<open>C15: Disabling a port can report that its link was lost, though it was switched off as asked for.
  After the driver has switched the port off and before the request enters the section that unrecords it
  the integrity check may look at the port: it finds it recorded as protected and reported off, and
  reports a lost link. If the check comes later the same request reports nothing.\<close>

theorem disabling_reports_link_lost:
  assumes inv: "pm_inv pm" "i < length (m_DrmObjects pm)" "m_Connection (obj pm i) \<noteq> DRM_MODE_DISCONNECTED"
    and last: "app_refs (obj pm i) \<subseteq> {a}" "GetCpType (obj pm i) \<noteq> CP_TYPE_INVALID"
    and off: "SetPortProperty os D G wl (set_obj i (RemoveRefAppId a (obj pm i)) pm) (m_DrmId (obj pm i))
      (GetPropertyId CONTENT_PROTECTION (obj pm i)) [CP_OFF] 1 w = Ret (SUCCESS, w1)"
    and check: "GetProtectionInfo D pm (obj pm i) w1 = ((SUCCESS, CP_OFF, t), w2)"
    and sent: "ReportStatus os mem cb PORT_EVENT_LINK_LOST (of_nat i) w2 = ret (cb', w3)"
    and again: "GetProtectionInfo D pm (obj pm i) w3 = ((SUCCESS, CP_OFF, t'), w4)"
  shows "(\<exists>pm'. (pt_step os D G wl mem)\<^sup>*\<^sup>* (M_idle r, C_entering i, pm, cb, w, l)
      (M_idle SUCCESS, C_entering (Suc i), pm', cb', w4, l @ [of_nat i])) \<and>
    (\<exists>pm'. (pt_step os D G wl mem)\<^sup>*\<^sup>* (M_idle r, C_entering i, pm, cb, w, l)
      (M_idle SUCCESS, C_entering (Suc i), pm', cb, w2, l))"
proof -
  let ?step = "pt_step os D G wl mem" and ?rq = "Disable (of_nat i) a"
  let ?ob = "RemoveRefAppId a (obj pm i)" and ?off = "SetCpType CP_TYPE_INVALID (RemoveRefAppId a (obj pm i))"
  let ?lock = "\<lambda>ob. ob\<lparr>m_CpTypeMutex := True\<rparr>" and ?pm = "\<lambda>ob. set_obj i ob pm"
  have pid: "m_PortId (obj pm i) = of_nat i" using port_id_of [OF inv(1,2)] .
  have free: "\<not> m_CpTypeMutex (obj pm i)" using inv(1,2) by (auto simp: pm_inv_def unlocked_def obj_def)
  note asked = disable_asked [OF inv last(1) off, of mem r "C_entering i" cb l]
  note enter = check_enters [OF inv(2), of _ os D G wl mem]
  note main = disable_confirmed [OF inv(2), of _ D _ _ _ os G wl mem]
  have type: "GetCpType ?ob \<noteq> CP_TYPE_INVALID" "GetCpType ?off = CP_TYPE_INVALID" "\<not> m_CpTypeMutex ?ob"
    using last(2) free by (simp_all add: GetCpType_def SetCpType_def)
  have info: "GetProtectionInfo D pm ob v = GetProtectionInfo D pm (obj pm i) v" if "ob \<in> {?ob, ?off}" for ob v
    using that by (intro GetProtectionInfo_cong) auto
  show ?thesis
  proof (intro conjI exI)
    have lost: "integrity_check D (?pm (?lock ?ob)) (obj (?pm (?lock ?ob)) i) w1 = (True, w2)"
      using type(1) check inv(2) by (simp add: integrity_check_def)
    have "?step (M_entering ?rq i, C_inside i, ?pm (?lock ?ob), cb, w1, l) (M_entering ?rq i, C_lost i, ?pm (?lock ?ob), cb, w2, l)"
      by (rule pt_step.check_lost [OF lost])
    moreover have "?step (M_entering ?rq i, C_lost i, ?pm (?lock ?ob), cb, w2, l)
        (M_entering ?rq i, C_entering (Suc i), ?pm ?off, cb', w3, l @ [of_nat i])"
      using pt_step.check_report [of os mem cb "?pm (?lock ?ob)" i w2 cb' w3 ?off D G wl "M_entering ?rq i" l]
        sent inv(2) pid free by simp
    moreover note enter [OF type(3), of "M_entering ?rq i" cb w1 l]
    ultimately have "?step\<^sup>*\<^sup>* (M_entering ?rq i, C_entering i, ?pm ?ob, cb, w1, l)
        (M_entering ?rq i, C_entering (Suc i), ?pm ?off, cb', w3, l @ [of_nat i])"
      by (meson converse_rtranclp_into_rtranclp r_into_rtranclp)
    moreover have "?step\<^sup>*\<^sup>* (M_entering ?rq i, C_entering (Suc i), ?pm ?off, cb', w3, l @ [of_nat i])
        (M_idle SUCCESS, C_entering (Suc i), ?pm (SetCpType CP_TYPE_INVALID ?off), cb', w4, l @ [of_nat i])"
      by (rule main) (use free info again in simp_all)
    ultimately show "?step\<^sup>*\<^sup>* (M_idle r, C_entering i, pm, cb, w, l)
        (M_idle SUCCESS, C_entering (Suc i), ?pm (SetCpType CP_TYPE_INVALID ?off), cb', w4, l @ [of_nat i])"
      using asked by (meson rtranclp_trans)
  next
    have "?step\<^sup>*\<^sup>* (M_entering ?rq i, C_entering i, ?pm ?ob, cb, w1, l) (M_idle SUCCESS, C_entering i, ?pm ?off, cb, w2, l)"
      by (rule main) (use type info check in simp_all)
    moreover have "?step (M_idle SUCCESS, C_entering i, ?pm ?off, cb, w2, l) (M_idle SUCCESS, C_inside i, ?pm (?lock ?off), cb, w2, l)"
      by (rule enter) (use free in simp)
    moreover have "integrity_check D (?pm (?lock ?off)) (obj (?pm (?lock ?off)) i) w2 = (False, w2)"
      using type(2) inv(2) by (simp add: integrity_check_def)
    from pt_step.check_fine [OF this, of ?off os G wl mem "M_idle SUCCESS" cb l] have
      "?step (M_idle SUCCESS, C_inside i, ?pm (?lock ?off), cb, w2, l) (M_idle SUCCESS, C_entering (Suc i), ?pm ?off, cb, w2, l)"
      using inv(2) free by simp
    ultimately show "?step\<^sup>*\<^sup>* (M_idle r, C_entering i, pm, cb, w, l) (M_idle SUCCESS, C_entering (Suc i), ?pm ?off, cb, w2, l)"
      using asked by (meson rtranclp_trans r_into_rtranclp)
  qed
qed

theorem disabling_reports_link_lost_witness:
  "\<exists>pm'. (pt_step idle_os off_drm idle_gwl wl_start (\<lambda>w. example_mem))\<^sup>*\<^sup>*
     (M_idle 0, C_entering 0, used_pm, unheard, 0, []) (M_idle SUCCESS, C_entering (Suc 0), pm', unheard, Suc 0, [0])"
proof -
  have "0 < length (m_DrmObjects used_pm)" "m_Connection (obj used_pm 0) \<noteq> DRM_MODE_DISCONNECTED"
    "app_refs (obj used_pm 0) \<subseteq> {5}" "GetCpType (obj used_pm 0) \<noteq> CP_TYPE_INVALID"
    "SetPortProperty idle_os off_drm idle_gwl wl_start (set_obj 0 (RemoveRefAppId 5 (obj used_pm 0)) used_pm)
       (m_DrmId (obj used_pm 0)) (GetPropertyId CONTENT_PROTECTION (obj used_pm 0)) [CP_OFF] 1 0 = Ret (SUCCESS, Suc 0)"
    "GetProtectionInfo off_drm used_pm (obj used_pm 0) (Suc 0) = ((SUCCESS, CP_OFF, 0), Suc 0)"
    by code_simp+
  moreover have "ReportStatus idle_os (\<lambda>w :: nat. example_mem) unheard PORT_EVENT_LINK_LOST (of_nat 0) (Suc 0) = ret (unheard, Suc 0)"
    by (simp add: ReportStatus_def acquire_callbacks_def release_callbacks_def unheard_def)
  ultimately show ?thesis
    using disabling_reports_link_lost [OF used_inv, of 0 5 idle_os off_drm idle_gwl wl_start 0 "Suc 0" 0 "Suc 0"
        "\<lambda>w. example_mem" unheard unheard "Suc 0" 0 "Suc 0" 0 "[]"] by simp
qed

end
