(* ===== verification/Signals.thy ===== *)
theory Signals
  imports PortThreads DaemonReturns
begin

text \<open>
  The signals that end the daemon: which handler is in force and what it does
  (\<^verbatim>\<open>LocalServerSocket\<close> in \<^verbatim>\<open>src/common/servsock.cpp\<close>, \<^verbatim>\<open>PortManager\<close> in \<^verbatim>\<open>src/daemon/portmanager.cpp\<close>).
\<close>

section \<open>Handlers\<close>

abbreviation (input) SIGINT :: int where "SIGINT \<equiv> 2"
abbreviation (input) SIGKILL :: int where "SIGKILL \<equiv> 9"
abbreviation (input) SIGTERM :: int where "SIGTERM \<equiv> 15"

datatype signal_handler = ServerCatcher | PortManagerCatcher

text \<open>\<^verbatim>\<open>sigaction\<close>: the last registration counts; that of \<^verbatim>\<open>SIGKILL\<close> fails.\<close>

definition os_sigaction :: "int \<Rightarrow> signal_handler \<Rightarrow> (int \<Rightarrow> signal_handler option) \<Rightarrow> int \<Rightarrow> signal_handler option" where
  "os_sigaction sig h t = (if sig = SIGKILL then t else t(sig \<mapsto> h))"

definition LocalServerSocket_sigactions :: "(int \<Rightarrow> signal_handler option) \<Rightarrow> int \<Rightarrow> signal_handler option" where
  "LocalServerSocket_sigactions t = os_sigaction SIGTERM ServerCatcher t"

definition PortManager_sigactions :: "(int \<Rightarrow> signal_handler option) \<Rightarrow> int \<Rightarrow> signal_handler option" where
  "PortManager_sigactions t =
     os_sigaction SIGKILL PortManagerCatcher (os_sigaction SIGINT PortManagerCatcher (os_sigaction SIGTERM PortManagerCatcher t))"

text \<open>The flag \<^verbatim>\<open>m_ReceivedKillSignal\<close>, which the message loop looks at.\<close>

definition ServerSigCatcher :: "int \<Rightarrow> bool \<Rightarrow> bool" where
  "ServerSigCatcher sig received = (if sig = SIGTERM then True else received)"

text \<open>\<^verbatim>\<open>PortManager::SigCatcher\<close>, which ends the process; the result is its exit status.\<close>

definition SigCatcher ::
  "'w os_api \<Rightarrow> 'w drm_api \<Rightarrow> 'w gwl_api \<Rightarrow> wl_state \<Rightarrow> int \<Rightarrow> PortManager option \<Rightarrow> 'w \<Rightarrow> (int \<times> 'w) outcome option" where
  "SigCatcher os D G wl sig portMgr w =
     obind (if sig = SIGTERM \<or> sig = SIGINT \<or> sig = SIGKILL then PortManagerDisableAllPorts os D G wl portMgr w
            else ret (portMgr, w)) (\<lambda>(portMgr, w). ret (SUCCESS, w))"

section \<open>Disabling all ports\<close>

text \<open>
  A driver that always does what it is told to, in a daemon that talks to it itself: \<^verbatim>\<open>XDG_RUNTIME_DIR\<close> is
  not set, so that no property is handed to the compositor.
\<close>

definition driver_obeys :: "'w os_api \<Rightarrow> 'w drm_api \<Rightarrow> bool" where
  "driver_obeys os D \<longleftrightarrow> (\<forall>w fd. os_getenv os ''XDG_RUNTIME_DIR'' w = None \<and> 0 \<le> fst (drmSetMaster D fd w) \<and>
     (\<forall>c p v. fst (drmModeConnectorSetProperty D fd c p v w) = SUCCESS) \<and> 0 \<le> fst (drmDropMaster D fd w))"

lemma find_by_same: "map f obs = map f obs' \<Longrightarrow> find_by (\<lambda>ob. f ob = x) obs = find_by (\<lambda>ob. f ob = x) obs'"
proof (induction obs arbitrary: obs')
  case (Cons ob obs)
  then show ?case by (cases obs') auto
qed simp

lemma SetPortProperty_obeys:
  assumes "driver_obeys os D" "i < length (m_DrmObjects pm)"
  shows "\<exists>w'. SetPortProperty os D G wl pm (m_DrmId (obj pm i)) p [v] (Suc 0) w = Ret (SUCCESS, w')"
proof -
  obtain k where "GetDrmObjectByDrmId pm (m_DrmId (obj pm i)) = Some k"
    using assms(2) by (cases "GetDrmObjectByDrmId pm (m_DrmId (obj pm i))")
      (auto simp: GetDrmObjectByDrmId_def find_by_None obj_def)
  with assms(1) show ?thesis
    unfolding driver_obeys_def SetPortProperty_def Let_def
    by (auto split: prod.splits) (metis fst_conv linorder_not_less)+
qed

lemma DisablePort_defined: "DisablePort os D G wl pm p a w \<noteq> Some Undef"
  unfolding DisablePort_def Let_def SetPortProperty_def CpTypeAtomicBegin_def CpTypeAtomicEnd_def
  by (auto simp: obind_eq_Undef split: option.splits prod.splits if_splits)

lemma disable_all_ends: "pm_inv pm \<Longrightarrow> \<exists>r. disable_all_loop os D G wl is pm w = ret r"
proof (induction "is" arbitrary: pm w)
  case (Cons i "is")
  let ?pm = "set_obj i (AddRefAppId 0 (ClearRefAppId (obj pm i))) pm"
  have pm: "pm_inv ?pm"
  proof (cases "i < length (m_DrmObjects pm)")
    case True
    have "touched (obj pm i) (AddRefAppId 0 (ClearRefAppId (obj pm i)))"
      by (rule touched_trans [OF touched_ops(4) touched_ops(5)]) (simp add: app_id_def)
    with pm_touched_inv [OF pm_touched_set [OF True] Cons.prems] show ?thesis by blast
  next
    case False
    then have "?pm = pm" by (simp add: set_obj_def list_update_beyond)
    with Cons.prems show ?thesis by simp
  qed
  have "DisablePort os D G wl ?pm (m_PortId (obj ?pm i)) 0 w \<noteq> None"
    using DisablePort_ends [OF pm] by (simp add: ends_def)
  then obtain sts pm' w' where run: "DisablePort os D G wl ?pm (m_PortId (obj ?pm i)) 0 w = ret ((sts, pm'), w')"
    using DisablePort_defined by (metis not_Some_eq outcome.exhaust surj_pair)
  from Cons.IH [OF pm_touched_inv [OF DisablePort_touched [OF run] pm]] run show ?case by (simp add: Let_def)
qed simp

text \<open>What stays the same while other ports are disabled and the mutex of the port at \<open>i\<close> is held.\<close>

definition held_at :: "nat \<Rightarrow> PortManager \<Rightarrow> PortManager \<Rightarrow> bool" where
  "held_at i pm0 pm \<longleftrightarrow> map m_PortId (m_DrmObjects pm) = map m_PortId (m_DrmObjects pm0) \<and>
     m_CpTypeMutex (obj pm i) \<and> m_Connection (obj pm i) \<noteq> DRM_MODE_DISCONNECTED"

lemma held_at_find:
  assumes "held_at i pm0 pm" "pm_inv pm0" "j < length (m_DrmObjects pm0)"
  shows "GetDrmObjectByPortId pm (m_PortId (obj pm j)) = Some j"
proof -
  have ids: "map m_PortId (m_DrmObjects pm) = map m_PortId (m_DrmObjects pm0)" using assms(1) by (simp add: held_at_def)
  moreover have "length (m_DrmObjects pm) = length (m_DrmObjects pm0)" using ids map_eq_imp_length_eq by blast
  with assms(3) have "m_PortId (obj pm j) = m_PortId (obj pm0 j)"
    unfolding obj_def using ids by (metis nth_map)
  moreover from find_by_same [OF ids] have "GetDrmObjectByPortId pm p = GetDrmObjectByPortId pm0 p" for p
    unfolding GetDrmObjectByPortId_def .
  ultimately show ?thesis using find_own_port [OF assms(2,3)] by (simp only:)
qed

lemma disable_all_hangs:
  assumes "driver_obeys os D" "pm_inv pm0" "i \<in> set is" "\<forall>j \<in> set is. j < length (m_DrmObjects pm0)"
  shows "held_at i pm0 pm \<Longrightarrow> disable_all_loop os D G wl is pm w = None"
  using assms(3,4)
proof (induction "is" arbitrary: pm w)
  case (Cons j "is")
  let ?pm = "set_obj j (AddRefAppId 0 (ClearRefAppId (obj pm j))) pm"
  have "map m_PortId (m_DrmObjects pm) = map m_PortId (m_DrmObjects pm0)" using Cons.prems(1) by (simp add: held_at_def)
  from map_eq_imp_length_eq [OF this] have len: "length (m_DrmObjects pm) = length (m_DrmObjects pm0)"
      "j < length (m_DrmObjects pm)"
    using Cons.prems(3) by simp_all
  have "map m_PortId (m_DrmObjects ?pm) = map m_PortId (m_DrmObjects pm)"
    using len(2) by (auto simp: set_obj_def obj_def list_eq_iff_nth_eq nth_list_update)
  then have h: "held_at i pm0 ?pm" using Cons.prems(1) by (auto simp: held_at_def obj_set)
  have found: "GetDrmObjectByPortId ?pm (m_PortId (obj ?pm j)) = Some j"
    using held_at_find [OF h assms(2), of j] len by (simp only:)
  show ?case
  proof (cases "i = j")
    case True
    have "no_apps (RemoveRefAppId 0 (obj ?pm j))"
      using len(2) by (simp add: apps.clear_add_remove app_id_def)
    moreover obtain w' where "SetPortProperty os D G wl (set_obj j (RemoveRefAppId 0 (obj ?pm j)) ?pm)
        (m_DrmId (obj ?pm j)) (GetPropertyId CONTENT_PROTECTION (obj ?pm j)) [CP_OFF] 1 w = Ret (SUCCESS, w')"
      using SetPortProperty_obeys [OF assms(1), of j "set_obj j (RemoveRefAppId 0 (obj ?pm j)) ?pm"] len(2) by fastforce
    ultimately have "DisablePort os D G wl ?pm (m_PortId (obj ?pm j)) 0 w = None"
      using found h len(2) True
      by (simp add: DisablePort_alone alone_def begin_request_def disable_request_def Let_def no_apps_def held_at_def settle_def
          CpTypeAtomicBegin_def obj_set)
    then show ?thesis by (simp add: Let_def)
  next
    case False
    show ?thesis
    proof (cases "DisablePort os D G wl ?pm (m_PortId (obj ?pm j)) 0 w")
      case None
      then show ?thesis by (simp add: Let_def)
    next
      case (Some r)
      then obtain sts pm' w' where run: "DisablePort os D G wl ?pm (m_PortId (obj ?pm j)) 0 w = ret ((sts, pm'), w')"
        using DisablePort_defined by (metis outcome.exhaust surj_pair)
      have same: "obj pm' i = obj ?pm i"
        using run by (cases rule: DisablePort_cases) (use found False in auto)
      have "map m_PortId (m_DrmObjects pm') = map m_PortId (m_DrmObjects ?pm)"
        using list_all2_touched_ids DisablePort_touched [OF run] by (auto simp: pm_touched_def)
      with h same have "held_at i pm0 pm'" by (simp add: held_at_def)
      from Cons.IH [OF this] Cons.prems False run show ?thesis by (simp add: Let_def)
    qed
  qed
qed simp

text \<open>C16: What \<open>SIGTERM\<close> does once the port manager has been constructed. Its handler, which disables all
  ports and exits, has replaced that of the server socket, so the flag that ends the message loop is
  never set. If no thread is in the section of a port the process exits. But a signal handler cannot
  wait for the thread it interrupts: if that thread is in the section of a connected port and the
  driver obeys the daemon, which is not run under the compositor, the handler waits for the port's mutex and the process never ends.\<close>

theorem sigterm_hangs_in_section:
  assumes "pm_inv pm" "i < length (m_DrmObjects pm)" "m_Connection (obj pm i) \<noteq> DRM_MODE_DISCONNECTED"
    and "driver_obeys os D"
  shows "PortManager_sigactions (LocalServerSocket_sigactions t) SIGTERM = Some PortManagerCatcher \<and>
    (\<exists>w'. SigCatcher os D G wl SIGTERM (Some pm) w = ret (SUCCESS, w')) \<and>
    SigCatcher os D G wl SIGTERM (Some (set_obj i ((obj pm i)\<lparr>m_CpTypeMutex := True\<rparr>) pm)) w = None"
proof (intro conjI)
  show "PortManager_sigactions (LocalServerSocket_sigactions t) SIGTERM = Some PortManagerCatcher"
    by (simp add: PortManager_sigactions_def os_sigaction_def)
  obtain pm' w' where "disable_all_loop os D G wl [0..<length (m_DrmObjects pm)] pm w = ret (pm', w')"
    using disable_all_ends [OF assms(1)] by (metis surj_pair)
  then show "\<exists>w'. SigCatcher os D G wl SIGTERM (Some pm) w = ret (SUCCESS, w')"
    by (simp add: SigCatcher_def PortManagerDisableAllPorts_def DisableAllPorts_def)
  let ?pm = "set_obj i ((obj pm i)\<lparr>m_CpTypeMutex := True\<rparr>) pm"
  have "map m_PortId (m_DrmObjects ?pm) = map m_PortId (m_DrmObjects pm)"
    using assms(2) by (auto simp: set_obj_def obj_def list_eq_iff_nth_eq nth_list_update)
  then have "held_at i pm ?pm" using assms(2,3) by (simp add: held_at_def)
  from disable_all_hangs [OF assms(4,1) _ _ this] assms(2)
  show "SigCatcher os D G wl SIGTERM (Some ?pm) w = None"
    by (simp add: SigCatcher_def PortManagerDisableAllPorts_def DisableAllPorts_def)
qed

theorem sigterm_hangs_in_section_witness:
  "SigCatcher idle_os demo_drm idle_gwl wl_start SIGTERM
     (Some (set_obj 0 ((obj used_pm 0)\<lparr>m_CpTypeMutex := True\<rparr>) used_pm)) 0 = None"
proof -
  have "driver_obeys idle_os demo_drm" by (simp add: driver_obeys_def demo_drm_def idle_simps)
  moreover have "0 < length (m_DrmObjects used_pm)" "m_Connection (obj used_pm 0) \<noteq> DRM_MODE_DISCONNECTED"
    by code_simp+
  ultimately show ?thesis by (intro sigterm_hangs_in_section [OF used_inv, THEN conjunct2, THEN conjunct2])
qed

end
