(* ===== verification/HWComposer.thy ===== *)
theory HWComposer
  imports PortProperties
begin

text \<open>
  The Android variant of the port manager (\<^verbatim>\<open>PortManagerHWComposer\<close> in \<^verbatim>\<open>src/daemon/portmanager.cpp\<close>):
  it overrides how a property of a connector is set, through the service of the hardware composer.
\<close>

section \<open>The service\<close>

definition CP_SRM :: string where "CP_SRM = ''CP_SRM''"

text \<open>\<open>hwc_connect\<close> says whether the handle is not null; the others are named after the functions they are.\<close>

record 'w hwc_api =
  hwc_connect :: "'w \<Rightarrow> bool \<times> 'w"
  hwc_DisableHDCPSession :: "u32 \<Rightarrow> 'w \<Rightarrow> int \<times> 'w"
  hwc_EnableHDCPSession :: "u32 \<Rightarrow> u8 \<Rightarrow> 'w \<Rightarrow> int \<times> 'w"
  hwc_SetHDCPSRM :: "u32 \<Rightarrow> u8 list \<Rightarrow> 'w \<Rightarrow> int \<times> 'w"
  hwc_disconnect :: "'w \<Rightarrow> 'w"

section \<open>Setting a property\<close>

text \<open>
  One attempt. For \<^const>\<open>CP_SRM\<close> the code passes \<^verbatim>\<open>(const int8_t *)&value\<close>, the address of the pointer
  and not the pointer; \<open>ptr\<close> are the bytes the pointer itself consists of, and the service reads
  \<^verbatim>\<open>size\<close> bytes from there.
\<close>

definition hwc_attempt ::
  "'w hwc_api \<Rightarrow> u8 list \<Rightarrow> DrmObject \<Rightarrow> u32 \<Rightarrow> u32 \<Rightarrow> u8 \<Rightarrow> nat \<Rightarrow> 'w \<Rightarrow> (int \<times> 'w) outcome" where
  "hwc_attempt H ptr ob drmId propId propValue sz w =
     (if propId = GetPropertyId CONTENT_PROTECTION ob \<and> propValue = CP_OFF
      then Ret (hwc_DisableHDCPSession H drmId w)
      else if propId = GetPropertyId CONTENT_PROTECTION ob then Ret (hwc_EnableHDCPSession H drmId propValue w)
      else if propId = GetPropertyId CP_CONTENT_TYPE ob then Ret (hwc_EnableHDCPSession H drmId propValue w)
      else if propId = GetPropertyId CP_SRM ob
      then ubind (rd_range ptr 0 sz) (\<lambda>bs. Ret (hwc_SetHDCPSRM H drmId bs w))
      else Ret (EINVAL, w))"

fun hwc_loop ::
  "'w hwc_api \<Rightarrow> u8 list \<Rightarrow> DrmObject \<Rightarrow> u32 \<Rightarrow> u32 \<Rightarrow> u8 \<Rightarrow> nat \<Rightarrow> nat \<Rightarrow> int \<Rightarrow> 'w \<Rightarrow> (int \<times> 'w) outcome" where
  "hwc_loop H ptr ob drmId propId propValue sz 0 r w = Ret (r, w)"
| "hwc_loop H ptr ob drmId propId propValue sz (Suc numRetry) r w =
     ubind (hwc_attempt H ptr ob drmId propId propValue sz w) (\<lambda>(r, w).
     if r = SUCCESS then Ret (r, w) else hwc_loop H ptr ob drmId propId propValue sz numRetry r w)"

text \<open>\<open>val\<close> is \<open>None\<close> for a null \<^verbatim>\<open>value\<close>, else the \<^verbatim>\<open>size\<close> bytes it points to.\<close>

definition HWC_SetPortProperty ::
  "'w hwc_api \<Rightarrow> u8 list \<Rightarrow> PortManager \<Rightarrow> u32 \<Rightarrow> u32 \<Rightarrow> u8 list option \<Rightarrow> nat \<Rightarrow> 'w \<Rightarrow> (int \<times> 'w) outcome" where
  "HWC_SetPortProperty H ptr pm drmId propId val numRetry w =
     (case GetDrmObjectByDrmId pm drmId of None \<Rightarrow> Ret (ENOENT, w) | Some i \<Rightarrow>
      (case val of None \<Rightarrow> Ret (ENOENT, w) | Some val \<Rightarrow>
       ubind (rd val 0) (\<lambda>propValue.
       let (hwcs, w) = hwc_connect H w in
       if \<not> hwcs then Ret (EINVAL, w) else
       ubind (hwc_loop H ptr (obj pm i) drmId propId propValue (length val) numRetry EINVAL w) (\<lambda>(r, w).
       Ret (r, hwc_disconnect H w)))))"

section \<open>Properties\<close>

text \<open>The attempts that the service answers, as a reference for the loop.\<close>

fun hwc_tries :: "('w \<Rightarrow> int \<times> 'w) \<Rightarrow> nat \<Rightarrow> int \<times> 'w \<Rightarrow> int \<times> 'w" where
  "hwc_tries f 0 (r, w) = (r, w)"
| "hwc_tries f (Suc n) (r, w) = (let (r, w) = f w in if r = SUCCESS then (r, w) else hwc_tries f n (r, w))"

lemma hwc_loop_tries:
  assumes "\<And>w. hwc_attempt H ptr ob drmId propId v sz w = Ret (f w)"
  shows "hwc_loop H ptr ob drmId propId v sz n r w = Ret (hwc_tries f n (r, w))"
  by (induction n arbitrary: r w) (auto simp: assms split: prod.split)

lemma hwc_own_id:
  assumes "i < length (m_DrmObjects pm)" "distinct (map m_DrmId (m_DrmObjects pm))"
  shows "GetDrmObjectByDrmId pm (m_DrmId (obj pm i)) = Some i"
proof -
  obtain k where k: "GetDrmObjectByDrmId pm (m_DrmId (obj pm i)) = Some k"
    using assms(1) by (cases "GetDrmObjectByDrmId pm (m_DrmId (obj pm i))")
      (auto simp: GetDrmObjectByDrmId_def find_by_None obj_def)
  from find_by_Some [OF this [unfolded GetDrmObjectByDrmId_def]] assms have "k = i"
    by (auto simp: obj_def distinct_conv_nth)
  with k show ?thesis by simp
qed

text \<open>Through the hardware composer, protection is switched by asking the service up to the given number
  of times until it agrees, and the last answer is the result; the service is left in any case. A
  system renewability message of more than the size of a pointer is not sent: the code passes the
  address of the pointer to it, so the service reads beyond the pointer.\<close>

theorem hwc_sets_protection_not_srm:
  assumes "pm_inv pm" "i < length (m_DrmObjects pm)" "hwc_connect H w = (True, w1)"
    and "GetPropertyId CP_SRM (obj pm i) \<notin> {GetPropertyId CONTENT_PROTECTION (obj pm i), GetPropertyId CP_CONTENT_TYPE (obj pm i)}"
    and "length ptr < length srm"
  shows "HWC_SetPortProperty H ptr pm (m_DrmId (obj pm i)) (GetPropertyId CONTENT_PROTECTION (obj pm i)) (Some [v]) n w =
      Ret (apsnd (hwc_disconnect H) (hwc_tries (if v = CP_OFF then hwc_DisableHDCPSession H (m_DrmId (obj pm i))
        else hwc_EnableHDCPSession H (m_DrmId (obj pm i)) v) n (EINVAL, w1))) \<and>
    HWC_SetPortProperty H ptr pm (m_DrmId (obj pm i)) (GetPropertyId CP_SRM (obj pm i)) (Some srm) (Suc n) w = Undef"
proof
  have own: "GetDrmObjectByDrmId pm (m_DrmId (obj pm i)) = Some i"
    by (rule hwc_own_id [OF assms(2)]) (use assms(1) in \<open>simp add: pm_inv_def\<close>)
  have loop: "hwc_loop H ptr (obj pm i) (m_DrmId (obj pm i)) (GetPropertyId CONTENT_PROTECTION (obj pm i)) v s n r u =
      Ret (hwc_tries (if v = CP_OFF then hwc_DisableHDCPSession H (m_DrmId (obj pm i))
        else hwc_EnableHDCPSession H (m_DrmId (obj pm i)) v) n (r, u))" for s r u
    by (rule hwc_loop_tries) (simp add: hwc_attempt_def)
  show "HWC_SetPortProperty H ptr pm (m_DrmId (obj pm i)) (GetPropertyId CONTENT_PROTECTION (obj pm i)) (Some [v]) n w =
      Ret (apsnd (hwc_disconnect H) (hwc_tries (if v = CP_OFF then hwc_DisableHDCPSession H (m_DrmId (obj pm i))
        else hwc_EnableHDCPSession H (m_DrmId (obj pm i)) v) n (EINVAL, w1)))"
    using assms(3) by (simp add: HWC_SetPortProperty_def own loop split_beta apsnd_def map_prod_def del: hwc_tries.simps)
  have "hwc_attempt H ptr (obj pm i) (m_DrmId (obj pm i)) (GetPropertyId CP_SRM (obj pm i)) x (length srm) u = Undef" for x u
    using assms(4,5) by (simp add: hwc_attempt_def rd_range_def)
  then show "HWC_SetPortProperty H ptr pm (m_DrmId (obj pm i)) (GetPropertyId CP_SRM (obj pm i)) (Some srm) (Suc n) w = Undef"
    using assms(3,5) by (cases srm) (simp_all add: HWC_SetPortProperty_def own)
qed

text \<open>A service that agrees at the second time, and a message of nine bytes.\<close>

definition demo_hwc :: "nat hwc_api" where
  "demo_hwc = \<lparr>hwc_connect = Pair True, hwc_DisableHDCPSession = (\<lambda>i w. (if w = 0 then EIO else SUCCESS, Suc w)),
     hwc_EnableHDCPSession = (\<lambda>i v w. (if w = 0 then EIO else SUCCESS, Suc w)), hwc_SetHDCPSRM = (\<lambda>i bs. Pair 0),
     hwc_disconnect = id\<rparr>"

theorem hwc_sets_protection_not_srm_witness:
  "HWC_SetPortProperty demo_hwc (replicate 8 0) demo_pm (m_DrmId (obj demo_pm 0))
     (GetPropertyId CP_SRM (obj demo_pm 0)) (Some (replicate 9 0)) (Suc 0) 0 = Undef"
proof -
  have "0 < length (m_DrmObjects demo_pm)" "hwc_connect demo_hwc 0 = (True, 0)"
    "GetPropertyId CP_SRM (obj demo_pm 0) \<notin>
      {GetPropertyId CONTENT_PROTECTION (obj demo_pm 0), GetPropertyId CP_CONTENT_TYPE (obj demo_pm 0)}"
    by code_simp+
  from hwc_sets_protection_not_srm [OF demo_inv this, of "replicate 8 0" "replicate 9 0" 0 0] show ?thesis by simp
qed

end
