(* ===== verification/OpenSslCompat.thy ===== *)
theory OpenSslCompat
  imports Srm
begin

text \<open>
  The compatibility layer of \<^verbatim>\<open>src/daemon/srm.cpp\<close> for versions of OpenSSL before 1.1, which lack the
  functions that hand numbers over to a key or a signature. A number is known by its address; each
  function also gives the numbers it releases (\<^verbatim>\<open>BN_free\<close> of null does nothing).
\<close>

section \<open>The structures and the functions\<close>

abbreviation (input) DSA_FAIL :: int where "DSA_FAIL \<equiv> 0"

record DSA =
  dsa_p :: bignum
  dsa_q :: bignum
  dsa_g :: bignum
  dsa_pub_key :: bignum
  dsa_priv_key :: bignum

record DSA_SIG =
  sig_r :: bignum
  sig_s :: bignum

definition BN_free :: "bignum \<Rightarrow> nat list" where
  "BN_free b = (case b of None \<Rightarrow> [] | Some a \<Rightarrow> [a])"

text \<open>\<open>replace x new\<close>: the new value of a field and what is released.\<close>

definition replace :: "bignum \<Rightarrow> bignum \<Rightarrow> bignum \<times> nat list" where
  "replace old new = (if new \<noteq> None then (new, BN_free old) else (old, []))"

definition DSA_set0_pqg :: "DSA option \<Rightarrow> bignum \<Rightarrow> bignum \<Rightarrow> bignum \<Rightarrow> (int \<times> DSA option) \<times> nat list" where
  "DSA_set0_pqg d p q g =
     (case d of None \<Rightarrow> ((DSA_FAIL, None), []) | Some d \<Rightarrow>
      if dsa_p d = None \<and> p = None \<or> dsa_q d = None \<and> q = None \<or> dsa_g d = None \<and> g = None
      then ((DSA_FAIL, Some d), []) else
      let (p, fp) = replace (dsa_p d) p; (q, fq) = replace (dsa_q d) q; (g, fg) = replace (dsa_g d) g in
      ((DSA_SUCCESS, Some (d\<lparr>dsa_p := p, dsa_q := q, dsa_g := g\<rparr>)), fp @ fq @ fg))"

definition DSA_SIG_set0 :: "DSA_SIG option \<Rightarrow> bignum \<Rightarrow> bignum \<Rightarrow> (int \<times> DSA_SIG option) \<times> nat list" where
  "DSA_SIG_set0 sig r s =
     (case sig of None \<Rightarrow> ((DSA_FAIL, None), []) | Some sg \<Rightarrow>
      if r = None \<or> s = None then ((DSA_FAIL, Some sg), []) else
      ((DSA_SUCCESS, Some (sg\<lparr>sig_r := r, sig_s := s\<rparr>)), BN_free (sig_r sg) @ BN_free (sig_s sg)))"

definition DSA_set0_key :: "DSA option \<Rightarrow> bignum \<Rightarrow> bignum \<Rightarrow> (int \<times> DSA option) \<times> nat list" where
  "DSA_set0_key d pub_key priv_key =
     (case d of None \<Rightarrow> ((DSA_FAIL, None), []) | Some d \<Rightarrow>
      if dsa_pub_key d = None \<and> pub_key = None then ((DSA_FAIL, Some d), []) else
      let (pub, f1) = replace (dsa_pub_key d) pub_key; (priv, f2) = replace (dsa_priv_key d) priv_key in
      ((DSA_SUCCESS, Some (d\<lparr>dsa_pub_key := pub, dsa_priv_key := priv\<rparr>)), f1 @ f2))"

section \<open>The signature check with them\<close>

text \<open>Fresh structures, as \<^verbatim>\<open>DSA_new\<close> and \<^verbatim>\<open>DSA_SIG_new\<close> give them.\<close>

definition new_DSA :: DSA where
  "new_DSA = \<lparr>dsa_p = None, dsa_q = None, dsa_g = None, dsa_pub_key = None, dsa_priv_key = None\<rparr>"

definition new_DSA_SIG :: DSA_SIG where
  "new_DSA_SIG = \<lparr>sig_r = None, sig_s = None\<rparr>"

text \<open>An OpenSSL without the three functions, completed with these.\<close>

definition compat_ssl :: "'w ssl_api \<Rightarrow> 'w ssl_api" where
  "compat_ssl S = S\<lparr>
     ssl_DSA_set0_pqg := (\<lambda>p q g. fst (fst (DSA_set0_pqg (Some new_DSA) p q g))),
     ssl_DSA_set0_key := (\<lambda>y. fst (fst (DSA_set0_key (Some new_DSA) y None))),
     ssl_DSA_SIG_set0 := (\<lambda>r s. fst (fst (DSA_SIG_set0 (Some new_DSA_SIG) r s)))\<rparr>"

lemma new_pqg: "DSA_set0_pqg (Some new_DSA) p q g =
    (if p = None \<or> q = None \<or> g = None then ((DSA_FAIL, Some new_DSA), [])
     else ((DSA_SUCCESS, Some (new_DSA\<lparr>dsa_p := p, dsa_q := q, dsa_g := g\<rparr>)), []))"
  by (auto simp: DSA_set0_pqg_def new_DSA_def replace_def BN_free_def)

lemma new_key: "DSA_set0_key (Some new_DSA) y None =
    (if y = None then ((DSA_FAIL, Some new_DSA), []) else ((DSA_SUCCESS, Some (new_DSA\<lparr>dsa_pub_key := y\<rparr>)), []))"
  by (auto simp: DSA_set0_key_def new_DSA_def replace_def BN_free_def)

lemma new_sig: "DSA_SIG_set0 (Some new_DSA_SIG) r s =
    (if r = None \<or> s = None then ((DSA_FAIL, Some new_DSA_SIG), [])
     else ((DSA_SUCCESS, Some (new_DSA_SIG\<lparr>sig_r := r, sig_s := s\<rparr>)), []))"
  by (auto simp: DSA_SIG_set0_def new_DSA_SIG_def BN_free_def)

text \<open>With the compatibility layer a signature is accepted only if all six numbers of the check, four
  of the key and two of the signature, could be made from the constants of the program and the bytes of
  the message, and OpenSSL accepts the digest of the message with exactly these; a number that could
  not be made is never used.\<close>

theorem compat_verifies_with_all_numbers:
  assumes "VerifySignature (compat_ssl S) msg msgLen r s w = Ret (SUCCESS, w')"
  shows "\<exists>p q g y R T w1 w2 w3 w4 w5.
    ssl_BN_bin2bn S g_dsaP w1 = (Some p, w2) \<and> ssl_BN_bin2bn S g_dsaQ w2 = (Some q, w3) \<and>
    ssl_BN_bin2bn S g_dsaG w3 = (Some g, w4) \<and> ssl_BN_bin2bn S g_publicKey w4 = (Some y, w5) \<and>
    fst (ssl_BN_bin2bn S (take 20 r) w5) = Some R \<and>
    ssl_BN_bin2bn S (take 20 s) (snd (ssl_BN_bin2bn S (take 20 r) w5)) = (Some T, w') \<and>
    ssl_DSA_do_verify S (ssl_SHA1 S (take (unat msgLen) msg)) (Some R, Some T) (Some p, Some q, Some g, Some y) = DSA_SUCCESS"
proof -
  from assms obtain p q g y R T w1 w2 w3 w4 w5 w6 where
    "ssl_BN_bin2bn S g_dsaP w1 = (Some p, w2)" "ssl_BN_bin2bn S g_dsaQ w2 = (Some q, w3)"
    "ssl_BN_bin2bn S g_dsaG w3 = (Some g, w4)" "ssl_BN_bin2bn S g_publicKey w4 = (Some y, w5)"
    "ssl_BN_bin2bn S (take 20 r) w5 = (Some R, w6)" "ssl_BN_bin2bn S (take 20 s) w6 = (Some T, w')"
    "ssl_DSA_do_verify S (ssl_SHA1 S (take (unat msgLen) msg)) (Some R, Some T) (Some p, Some q, Some g, Some y) = DSA_SUCCESS"
    unfolding VerifySignature_def compat_ssl_def Let_def
    by (auto simp: new_pqg new_key new_sig rd_range_def split: prod.splits if_splits elim!: hdcp_elims)
  then show ?thesis by (intro exI conjI) (assumption | simp)+
qed

theorem compat_verifies_with_all_numbers_witness:
  "\<exists>p q g y R T. ssl_DSA_do_verify (accepting_ssl :: unit ssl_api) (ssl_SHA1 (accepting_ssl :: unit ssl_api) [7])
    (Some R, Some T) (Some p, Some q, Some g, Some y) = DSA_SUCCESS"
proof -
  have "VerifySignature (compat_ssl accepting_ssl) [7] 1 (replicate 20 0) (replicate 20 0) () = Ret (SUCCESS, ())"
    by (simp add: VerifySignature_def compat_ssl_def idle_simps new_pqg new_key new_sig rd_range_def)
  from compat_verifies_with_all_numbers [OF this] have "\<exists>p q g y R T. ssl_DSA_do_verify (accepting_ssl :: unit ssl_api)
      (ssl_SHA1 (accepting_ssl :: unit ssl_api) (take (unat (1 :: u32)) [7])) (Some R, Some T) (Some p, Some q, Some g, Some y) = DSA_SUCCESS"
    by blast
  then show ?thesis by simp
qed

end
