(* ===== verification/PortRequests.thy ===== *)
theory PortRequests
  imports PortSpec Signals
begin

text \<open>
  What the driver or the compositor has to do for a request about a port to be served
  (\<^verbatim>\<open>EnablePort\<close>, \<^verbatim>\<open>DisablePort\<close> and \<^verbatim>\<open>SetPortProperty\<close> in \<^verbatim>\<open>src/daemon/portmanager.cpp\<close>): the
  order of the calls, the values they are given, the tries and the answer that is recorded.
\<close>

section \<open>Telling the driver\<close>

text \<open>A try that fails.\<close>

definition refuses :: "'v env \<Rightarrow> int \<Rightarrow> u32 \<Rightarrow> u32 \<Rightarrow> u8 \<Rightarrow> 'v \<Rightarrow> 'v \<Rightarrow> bool" where
  "refuses E fd i p x v v' \<longleftrightarrow>
     (\<exists>r. drmModeConnectorSetProperty (e_drm E) fd i p (ucast x) v = (r, v') \<and> r \<noteq> SUCCESS)"

text \<open>
  Property \<open>p\<close> of connector \<open>i\<close> is set to \<open>x\<close> within \<open>n\<close> tries, as the master of the device; or, when
  the compositor owns it, the compositor is given the value.
\<close>

definition told :: "'v env \<Rightarrow> int \<Rightarrow> u32 \<Rightarrow> u32 \<Rightarrow> u8 \<Rightarrow> nat \<Rightarrow> 'v \<Rightarrow> 'v \<Rightarrow> bool" where
  "told E fd i p x n v v' \<longleftrightarrow>
     (if os_getenv (e_os E) ''XDG_RUNTIME_DIR'' v = None
      then \<exists>r1 v1 k v2 v3 r4. drmSetMaster (e_drm E) fd v = (r1, v1) \<and> 0 \<le> r1 \<and>
        k < n \<and> (refuses E fd i p x ^^ k) v1 v2 \<and>
        drmModeConnectorSetProperty (e_drm E) fd i p (ucast x) v2 = (SUCCESS, v3) \<and>
        drmDropMaster (e_drm E) fd v3 = (r4, v') \<and> 0 \<le> r4
      else util_set_content_protection (e_gwl E) (e_wl E) i x v = (True, v'))"

lemma set_property_loop_success:
  "r \<noteq> SUCCESS \<Longrightarrow> set_property_loop (e_drm E) fd i p (ucast x) n r v = (SUCCESS, v') \<longleftrightarrow>
     (\<exists>k<n. \<exists>v2. (refuses E fd i p x ^^ k) v v2 \<and>
        drmModeConnectorSetProperty (e_drm E) fd i p (ucast x) v2 = (SUCCESS, v'))"
proof (induction n arbitrary: r v)
  case (Suc n)
  obtain r1 v1 where s: "drmModeConnectorSetProperty (e_drm E) fd i p (ucast x) v = (r1, v1)" by fastforce
  have first: "refuses E fd i p x v u \<longleftrightarrow> r1 \<noteq> SUCCESS \<and> u = v1" for u
    using s by (auto simp: refuses_def)
  have step: "(refuses E fd i p x ^^ Suc k) v v2 \<longleftrightarrow> r1 \<noteq> SUCCESS \<and> (refuses E fd i p x ^^ k) v1 v2" for k v2
    using first by (metis relpowp_Suc_D2 relpowp_Suc_I2)
  show ?case
    unfolding Ex_less_Suc2 step using Suc.IH [of r1 v1] by (auto simp: s)
qed simp

lemma told_iff:
  assumes "i < length (m_DrmObjects pm)"
  shows "SetPortProperty (e_os E) (e_drm E) (e_gwl E) (e_wl E) pm (m_DrmId (obj pm i)) p [x] n v = Ret (SUCCESS, v') \<longleftrightarrow>
    told E (m_DrmFd pm) (m_DrmId (obj pm i)) p x n v v'"
proof -
  obtain k where k: "GetDrmObjectByDrmId pm (m_DrmId (obj pm i)) = Some k"
    using assms by (cases "GetDrmObjectByDrmId pm (m_DrmId (obj pm i))")
      (auto simp: GetDrmObjectByDrmId_def find_by_None obj_def)
  then have same: "m_DrmId (obj pm k) = m_DrmId (obj pm i)"
    unfolding GetDrmObjectByDrmId_def obj_def by (auto dest: find_by_Some)
  have loop: "(set_property_loop (e_drm E) fd c p (ucast x) n EINVAL u = (SUCCESS, u')) \<longleftrightarrow>
     (\<exists>k<n. \<exists>v2. (refuses E fd c p x ^^ k) u v2 \<and>
        drmModeConnectorSetProperty (e_drm E) fd c p (ucast x) v2 = (SUCCESS, u'))" for fd c u u'
    by (rule set_property_loop_success) simp
  have wide: "(ucast (ucast x :: u32) :: u64) = ucast x" by (rule bit_word_eqI) (auto simp: bit_simps dest: bit_imp_le_length)
  show ?thesis
  proof (cases "os_getenv (e_os E) ''XDG_RUNTIME_DIR'' v = None")
    case False
    then show ?thesis
      using k by (auto simp: SetPortProperty_def told_def rd_def Let_def split: prod.splits)
  next
    case True
    obtain r1 v1 where m: "drmSetMaster (e_drm E) (m_DrmFd pm) v = (r1, v1)" by fastforce
    obtain r2 v3 where l: "set_property_loop (e_drm E) (m_DrmFd pm) (m_DrmId (obj pm i)) p (ucast x) n EINVAL v1 = (r2, v3)"
      by fastforce
    obtain r4 v4 where d: "drmDropMaster (e_drm E) (m_DrmFd pm) v3 = (r4, v4)" by fastforce
    have "told E (m_DrmFd pm) (m_DrmId (obj pm i)) p x n v v' \<longleftrightarrow>
        0 \<le> r1 \<and> (\<exists>v3 r4. set_property_loop (e_drm E) (m_DrmFd pm) (m_DrmId (obj pm i)) p (ucast x) n EINVAL v1 =
          (SUCCESS, v3) \<and> drmDropMaster (e_drm E) (m_DrmFd pm) v3 = (r4, v') \<and> 0 \<le> r4)"
      using True m unfolding told_def loop by auto
    then show ?thesis
      using k True m l d by (auto simp: SetPortProperty_def same wide Let_def)
  qed
qed

section \<open>Enabling\<close>

text \<open>The port is protected well enough already.\<close>

definition enough :: "DrmObject \<Rightarrow> u8 \<Rightarrow> bool" where
  "enough ob level \<longleftrightarrow> (level = HDCP_LEVEL1 \<or> GetPropertyId CP_CONTENT_TYPE ob \<noteq> UINT32_MAX) \<and>
     GetCpType ob \<noteq> CP_TYPE_INVALID \<and> (ucast level :: u32) - 1 \<le> ucast (GetCpType ob)"

text \<open>
  The port is enabled: it is told the type of the level, if it has the property, then to authenticate,
  each within three tries; one second later the driver reports it enabled, with type \<open>t\<close>.
\<close>

definition granted :: "'v env \<Rightarrow> PortManager \<Rightarrow> DrmObject \<Rightarrow> u8 \<Rightarrow> u8 \<Rightarrow> 'v \<Rightarrow> bool" where
  "granted E pm ob level t v \<longleftrightarrow> (\<exists>v1 v2 v3.
     (if GetPropertyId CP_CONTENT_TYPE ob \<noteq> UINT32_MAX
      then told E (m_DrmFd pm) (m_DrmId ob) (GetPropertyId CP_CONTENT_TYPE ob) (level - 1) 3 v v1
      else level = HDCP_LEVEL1 \<and> v1 = v) \<and>
     told E (m_DrmFd pm) (m_DrmId ob) (GetPropertyId CONTENT_PROTECTION ob) CP_DESIRED 3 v1 v2 \<and>
     GetProtectionInfo (e_drm E) pm ob (os_sleep_ms (e_os E) 1000 v2) = ((SUCCESS, CP_ENABLED, t), v3))"

lemma SetPortProperty_defined: "SetPortProperty os D G wl pm i p [x] n v \<noteq> Undef"
  unfolding SetPortProperty_def Let_def by (auto split: option.splits prod.splits if_splits)

lemma SetPortProperty_returns:
  assumes "i < length (m_DrmObjects pm)"
  obtains s u where "SetPortProperty (e_os E) (e_drm E) (e_gwl E) (e_wl E) pm (m_DrmId (obj pm i)) p [x] n v = Ret (s, u)"
    "\<And>u'. told E (m_DrmFd pm) (m_DrmId (obj pm i)) p x n v u' \<longleftrightarrow> s = SUCCESS \<and> u' = u"
proof -
  obtain s u where "SetPortProperty (e_os E) (e_drm E) (e_gwl E) (e_wl E) pm (m_DrmId (obj pm i)) p [x] n v = Ret (s, u)"
    by (metis SetPortProperty_defined outcome.exhaust surj_pair)
  moreover from this have "told E (m_DrmFd pm) (m_DrmId (obj pm i)) p x n v u' \<longleftrightarrow> s = SUCCESS \<and> u' = u" for u'
    using told_iff [OF assms, of E p x n v u'] by auto
  ultimately show ?thesis by (rule that)
qed

lemma EnablePort_granted:
  assumes "EnablePort (e_os E) (e_drm E) (e_gwl E) (e_wl E) pm port a l v = ret ((sts, pm'), v')"
    and "pm_inv pm" "unat port < length (m_DrmObjects pm)"
    and "m_Connection (obj pm (unat port)) \<noteq> DRM_MODE_DISCONNECTED" "l = HDCP_LEVEL1 \<or> l = HDCP_LEVEL2"
  shows "(sts = SUCCESS \<longleftrightarrow> enough (obj pm (unat port)) l \<or> (\<exists>t. granted E pm (obj pm (unat port)) l t v)) \<and>
    (sts = SUCCESS \<longrightarrow> (if enough (obj pm (unat port)) l then GetCpType (obj pm' (unat port)) = GetCpType (obj pm (unat port))
       else granted E pm (obj pm (unat port)) l (GetCpType (obj pm' (unat port))) v))"
proof -
  let ?ob = "obj pm (unat port)" and ?T = "GetPropertyId CP_CONTENT_TYPE (obj pm (unat port))"
  have i: "GetDrmObjectByPortId pm port = Some (unat port)" using port_index [OF assms(2), of port] assms(3) by simp
  have free: "\<not> m_CpTypeMutex ?ob" using assms(2,3) by (auto simp: pm_inv_def unlocked_def obj_def)
  show ?thesis
  proof (cases "?T = UINT32_MAX \<and> l = HDCP_LEVEL2 \<or> enough ?ob l")
    case True
    have "\<not> granted E pm ?ob l t v" if "?T = UINT32_MAX" "l = HDCP_LEVEL2" for t
      using that by (simp add: granted_def)
    with True assms i show ?thesis
      by (auto simp: EnablePort_def enough_def Let_def)
  next
    case False
    obtain s1 v1 where one: "(if ?T \<noteq> UINT32_MAX then Some (SetPortProperty (e_os E) (e_drm E) (e_gwl E) (e_wl E) pm
        (m_DrmId ?ob) ?T [l - 1] 3 v) else ret (SUCCESS, v)) = ret (s1, v1)"
      "\<And>u. (if ?T \<noteq> UINT32_MAX then told E (m_DrmFd pm) (m_DrmId ?ob) ?T (l - 1) 3 v u
         else l = HDCP_LEVEL1 \<and> u = v) \<longleftrightarrow> s1 = SUCCESS \<and> u = v1"
    proof (cases "?T = UINT32_MAX")
      case True
      with False assms(5) that [of SUCCESS v] show ?thesis by auto
    next
      case capable: False
      obtain s u where su: "SetPortProperty (e_os E) (e_drm E) (e_gwl E) (e_wl E) pm (m_DrmId ?ob) ?T [l - 1] 3 v = Ret (s, u)"
        "\<And>u'. told E (m_DrmFd pm) (m_DrmId ?ob) ?T (l - 1) 3 v u' \<longleftrightarrow> s = SUCCESS \<and> u' = u"
        by (rule SetPortProperty_returns [OF assms(3), of E ?T "l - 1" 3 v]) (rule that)
      show ?thesis by (rule that [of s u]) (simp_all only: capable if_False if_True su not_False_eq_True simp_thms)
    qed
    obtain s2 v2 where two: "SetPortProperty (e_os E) (e_drm E) (e_gwl E) (e_wl E) pm (m_DrmId ?ob)
        (GetPropertyId CONTENT_PROTECTION ?ob) [CP_DESIRED] 3 v1 = Ret (s2, v2)"
      "\<And>u. told E (m_DrmFd pm) (m_DrmId ?ob) (GetPropertyId CONTENT_PROTECTION ?ob) CP_DESIRED 3 v1 u \<longleftrightarrow> s2 = SUCCESS \<and> u = v2"
      by (rule SetPortProperty_returns [OF assms(3), of E "GetPropertyId CONTENT_PROTECTION ?ob" CP_DESIRED 3 v1]) (rule that)
    obtain s3 c t v3 where three: "GetProtectionInfo (e_drm E) pm ?ob (os_sleep_ms (e_os E) 1000 v2) = ((s3, c, t), v3)"
      by (metis prod.exhaust)
    have "granted E pm ?ob l t' v \<longleftrightarrow> s1 = SUCCESS \<and> s2 = SUCCESS \<and> s3 = SUCCESS \<and> c = CP_ENABLED \<and> t' = t" for t'
      unfolding granted_def one(2) using two(2) three by auto
    moreover have "EnablePort (e_os E) (e_drm E) (e_gwl E) (e_wl E) pm port a l v = ret
        (if s1 \<noteq> SUCCESS then ((EBUSY, pm), v1) else if s2 \<noteq> SUCCESS then ((EBUSY, pm), v2)
         else if s3 \<noteq> SUCCESS \<or> c \<noteq> CP_ENABLED then ((EBUSY, set_obj (unat port) (?ob\<lparr>m_CpTypeMutex := False\<rparr>) pm), v3)
         else ((SUCCESS, set_obj (unat port) ((AddRefAppId a (SetCpType t (?ob\<lparr>m_CpTypeMutex := True\<rparr>)))\<lparr>m_CpTypeMutex := False\<rparr>) pm), v3))"
      using i assms(4,5) False one(1) two(1) three free
      by (auto simp: EnablePort_def enough_def CpTypeAtomicBegin_def CpTypeAtomicEnd_def Let_def)
    ultimately show ?thesis using False assms(1,3) by (auto split: if_splits)
  qed
qed

section \<open>Disabling\<close>

text \<open>The port is switched off: it is told once, and then the driver reports it off.\<close>

definition switched_off :: "'v env \<Rightarrow> PortManager \<Rightarrow> DrmObject \<Rightarrow> 'v \<Rightarrow> bool" where
  "switched_off E pm ob v \<longleftrightarrow> (\<exists>v1 t v2.
     told E (m_DrmFd pm) (m_DrmId ob) (GetPropertyId CONTENT_PROTECTION ob) CP_OFF 1 v v1 \<and>
     GetProtectionInfo (e_drm E) pm ob v1 = ((SUCCESS, CP_OFF, t), v2))"

lemma DisablePort_type:
  assumes "DisablePort (e_os E) (e_drm E) (e_gwl E) (e_wl E) pm port a v = ret ((sts, pm'), v')"
    and "pm_inv pm" "unat port < length (m_DrmObjects pm)"
    and "m_Connection (obj pm (unat port)) \<noteq> DRM_MODE_DISCONNECTED"
  shows "GetCpType (obj pm' (unat port)) = (if app_refs (obj pm (unat port)) \<subseteq> {a} \<and> switched_off E pm (obj pm (unat port)) v
    then CP_TYPE_INVALID else GetCpType (obj pm (unat port)))"
proof -
  let ?ob = "RemoveRefAppId a (obj pm (unat port))" and ?i = "unat port"
  let ?pm = "set_obj ?i ?ob pm"
  have i: "GetDrmObjectByPortId pm port = Some ?i" using port_index [OF assms(2), of port] assms(3) by simp
  have free: "\<not> m_CpTypeMutex (obj pm ?i)" using assms(2,3) by (auto simp: pm_inv_def unlocked_def obj_def)
  have last: "no_apps ?ob \<longleftrightarrow> app_refs (obj pm ?i) \<subseteq> {a}"
  proof -
    have "app_ok (obj pm ?i)" using assms(2,3) by (simp add: pm_inv_def obj_def)
    with apps.remove_ok apps.none_iff [of ?ob] show ?thesis by (auto simp: apps.remove_refs)
  qed
  show ?thesis
  proof (cases "no_apps ?ob")
    case False
    with assms i show ?thesis by (auto simp: DisablePort_def no_apps_def GetCpType_def simp flip: last)
  next
    case True
    have "?i < length (m_DrmObjects ?pm)" "obj ?pm ?i = ?ob" "m_DrmFd ?pm = m_DrmFd pm"
      using assms(3) by (simp_all add: set_obj_def obj_def)
    then obtain s1 v1 where one: "SetPortProperty (e_os E) (e_drm E) (e_gwl E) (e_wl E) ?pm (m_DrmId ?ob)
        (GetPropertyId CONTENT_PROTECTION ?ob) [CP_OFF] 1 v = Ret (s1, v1)"
      "\<And>u. told E (m_DrmFd pm) (m_DrmId ?ob) (GetPropertyId CONTENT_PROTECTION ?ob) CP_OFF 1 v u \<longleftrightarrow> s1 = SUCCESS \<and> u = v1"
      using SetPortProperty_returns [of ?i ?pm E "GetPropertyId CONTENT_PROTECTION ?ob" CP_OFF 1 v] by metis
    obtain s3 c t v3 where three: "GetProtectionInfo (e_drm E) pm (obj pm ?i) v1 = ((s3, c, t), v3)"
      by (metis prod.exhaust)
    have "switched_off E pm (obj pm ?i) v \<longleftrightarrow> s1 = SUCCESS \<and> s3 = SUCCESS \<and> c = CP_OFF"
      unfolding switched_off_def using one(2) three by auto
    moreover have "GetCpType (obj pm' ?i) = (if s1 = SUCCESS \<and> s3 = SUCCESS \<and> c = CP_OFF then CP_TYPE_INVALID
        else GetCpType (obj pm ?i))"
      using assms i True one(1) three free
      by (auto simp: DisablePort_def no_apps_def CpTypeAtomicBegin_def CpTypeAtomicEnd_def Let_def split: if_splits)
    ultimately show ?thesis using True last by simp
  qed
qed

end
