(* ===== verification/EndToEndPorts.thy ===== *)
theory EndToEndPorts
  imports EndToEnd PortRequests
begin

text \<open>
  The requests about one port through the whole system: the client library over a link to the daemon,
  whose driver and compositor only do what they are for.
\<close>

section \<open>Quiet calls\<close>

text \<open>\<open>quiet\<close>: no call of the driver, the compositor or the clock sends anything to a client.\<close>

definition quiet :: "'v env \<Rightarrow> ('v \<Rightarrow> int \<Rightarrow> u8 list) \<Rightarrow> bool" where
  "quiet E out \<longleftrightarrow>
     (\<forall>fd w. out (snd (drmSetMaster (e_drm E) fd w)) = out w \<and> out (snd (drmDropMaster (e_drm E) fd w)) = out w) \<and>
     (\<forall>fd c p v w. out (snd (drmModeConnectorSetProperty (e_drm E) fd c p v w)) = out w) \<and>
     (\<forall>fd i w. out (snd (drmModeObjectGetProperties (e_drm E) fd i w)) = out w) \<and>
     (\<forall>fd bs w. out (snd (drmModeCreatePropertyBlob (e_drm E) fd bs w)) = out w) \<and>
     (\<forall>c v w. out (snd (gwl_set_content_protection (e_gwl E) c v w)) = out w) \<and>
     (\<forall>n w. out (os_sleep_ms (e_os E) n w) = out w)"

lemma quietD:
  assumes "quiet E out"
  shows "drmSetMaster (e_drm E) fd w = (r1, w') \<Longrightarrow> out w' = out w"
    "drmDropMaster (e_drm E) fd w = (r2, w') \<Longrightarrow> out w' = out w"
    "drmModeConnectorSetProperty (e_drm E) fd c p v w = (r3, w') \<Longrightarrow> out w' = out w"
    "drmModeObjectGetProperties (e_drm E) fd i w = (r4, w') \<Longrightarrow> out w' = out w"
    "drmModeCreatePropertyBlob (e_drm E) fd bs w = (r5, w') \<Longrightarrow> out w' = out w"
    "gwl_set_content_protection (e_gwl E) c8 v8 w = (r6, w') \<Longrightarrow> out w' = out w"
    "out (os_sleep_ms (e_os E) n w) = out w"
  using assms unfolding quiet_def by (metis snd_conv)+

lemma set_property_quiet:
  "set_property_loop (e_drm E) fd i p v n r w = (r', w') \<Longrightarrow> quiet E out \<Longrightarrow> out w' = out w"
proof (induction n arbitrary: r w)
  case (Suc n)
  obtain r1 w1 where s: "drmModeConnectorSetProperty (e_drm E) fd i p v w = (r1, w1)" by fastforce
  with Suc.prems Suc.IH [of r1 w1] quietD(3) [OF Suc.prems(2) s] show ?case by (auto split: if_splits)
qed simp

lemma SetPortProperty_quiet:
  assumes "SetPortProperty (e_os E) (e_drm E) (e_gwl E) wl pm i p val n w = Ret (r, w')" "quiet E out"
  shows "out w' = out w"
  using assms(1) unfolding SetPortProperty_def Let_def util_set_content_protection_def
  by (auto split: option.splits prod.splits if_splits elim!: hdcp_elims
      dest!: quietD(1-6) [OF assms(2)] set_property_quiet [OF _ assms(2)])

lemma GetProtectionInfo_quiet:
  "GetProtectionInfo (e_drm E) pm ob w = (r, w') \<Longrightarrow> quiet E out \<Longrightarrow> out w' = out w"
  unfolding GetProtectionInfo_def Let_def
  by (auto split: option.splits prod.splits dest: quietD(4))

lemma begin_request_quiet:
  assumes "begin_request (e_os E) (e_drm E) (e_gwl E) wl rq pm w = Ret (r, w')" "quiet E out"
  shows "out w' = out w"
  using assms(1) unfolding begin_request_def enable_request_def disable_request_def Let_def
  by (auto elim!: hdcp_elims split: main_request.splits option.splits if_splits prod.splits
      dest!: SetPortProperty_quiet [OF _ assms(2)])

lemma alone_quiet:
  assumes "alone (e_os E) (e_drm E) (e_gwl E) wl rq pm w = ret (r, w')" "quiet E out"
  shows "out w' = out w"
proof -
  from assms(1) obtain q pm1 w1 where b: "begin_request (e_os E) (e_drm E) (e_gwl E) wl rq pm w = Ret ((q, pm1), w1)"
    and rest: "(case q of Inl sts \<Rightarrow> ret ((sts, pm1), w1)
     | Inr i \<Rightarrow> let w = settle (e_os E) rq w1 in
         obind (CpTypeAtomicBegin (obj pm1 i)) (\<lambda>ob. confirm (e_drm E) rq i (set_obj i ob pm1) w)) = ret (r, w')"
    unfolding alone_def by (auto elim!: hdcp_elims)
  have settle: "out (settle (e_os E) rq w1) = out w1"
    using quietD(7) [OF assms(2)] by (simp add: settle_def split: main_request.split)
  have "out w' = out w1"
    using rest settle
    by (auto simp: Let_def confirm_def split: sum.splits prod.splits elim!: hdcp_elims
        dest!: GetProtectionInfo_quiet [OF _ assms(2)])
  with begin_request_quiet [OF b assms(2)] show ?thesis by simp
qed

lemma enable_request_defined: "enable_request os D G wl pm p a l w \<noteq> Undef"
  unfolding enable_request_def Let_def
  by (auto simp: ubind_eq_Undef SetPortProperty_defined split: option.splits prod.splits if_splits)

lemma EnablePort_defined: "EnablePort os D G wl pm p a l w \<noteq> Some Undef"
proof
  assume "EnablePort os D G wl pm p a l w = Some Undef"
  then obtain q pm1 w1 where b: "begin_request os D G wl (Enable p a l) pm w = Ret ((q, pm1), w1)"
    and c: "(case q of Inl sts \<Rightarrow> ret ((sts, pm1), w1)
      | Inr i \<Rightarrow> let w = settle os (Enable p a l) w1 in
          obind (CpTypeAtomicBegin (obj pm1 i)) (\<lambda>ob. confirm D (Enable p a l) i (set_obj i ob pm1) w)) = Some Undef"
    unfolding EnablePort_alone alone_def
    by (auto simp: obind_eq_Undef begin_request_def enable_request_defined)
  then obtain i where q: "q = Inr i" by (cases q) auto
  have i: "i < length (m_DrmObjects pm1)" using begin_request_same [OF b] q by (simp add: same_record_def)
  have "confirm D (Enable p a l) i (set_obj i ((obj pm1 i)\<lparr>m_CpTypeMutex := True\<rparr>) pm1) u \<noteq> Some Undef" for u
    using confirm_possible [of i "set_obj i ((obj pm1 i)\<lparr>m_CpTypeMutex := True\<rparr>) pm1" D "Enable p a l" u] i by auto
  with c q show False by (auto simp: obind_eq_Undef CpTypeAtomicBegin_def Let_def split: if_splits)
qed

lemma EnablePort_returns:
  assumes "pm_inv pm"
  obtains sts pm' w' where "EnablePort os D G wl pm p a l w = ret ((sts, pm'), w')"
  using EnablePort_ends [OF assms, of os D G wl p a l w] EnablePort_defined [of os D G wl pm p a l w]
  by (metis ends_def not_Some_eq outcome.exhaust surj_pair)

lemma DisablePort_returns:
  assumes "pm_inv pm"
  obtains sts pm' w' where "DisablePort os D G wl pm p a w = ret ((sts, pm'), w')"
  using DisablePort_ends [OF assms, of os D G wl p a w] DisablePort_defined [of os D G wl pm p a w]
  by (metis ends_def not_Some_eq outcome.exhaust surj_pair)

section \<open>Setting a level\<close>

text \<open>What a client asks for, and what the daemon has done when it has answered.\<close>

abbreviation (input) level_request :: "SocketData \<Rightarrow> u32 \<Rightarrow> u32 \<Rightarrow> SocketData" where
  "level_request mem port level \<equiv> (port_request mem HDCP_API_SET_PROTECTION_LEVEL port)\<lparr>sd_Level := ucast level\<rparr>"

lemma level_request_fields:
  assumes "sd_wf mem"
  shows "sd_wf (level_request mem port level)" "sd_Size (level_request mem port level) = of_nat sizeof_SocketData"
    "sd_Command (level_request mem port level) = api HDCP_API_SET_PROTECTION_LEVEL"
    "sd_PortCount (level_request mem port level) = 1" "Port_Id (SinglePort (level_request mem port level)) = port"
    "sd_Level (level_request mem port level) = ucast level"
proof -
  have r: "sd_wf (request mem HDCP_API_SET_PROTECTION_LEVEL)" using request_wf [OF assms] .
  then have "sd_wf ((request mem HDCP_API_SET_PROTECTION_LEVEL)\<lparr>sd_PortCount := 1\<rparr>)" by (simp add: sd_wf_def)
  then show "Port_Id (SinglePort (level_request mem port level)) = port"
    by (auto elim!: sd_wf_obtains simp: port_request_def set_SinglePort_def SinglePort_def)
  show "sd_wf (level_request mem port level)" using port_request_wf [OF assms] by (simp add: sd_wf_def)
qed (simp_all add: port_request_def set_SinglePort_def)

text \<open>How the daemon serves it: \<open>switched\<close> is the port manager afterwards.\<close>

definition level_served :: "'v env \<Rightarrow> PortManager \<Rightarrow> u32 \<Rightarrow> u32 \<Rightarrow> u8 \<Rightarrow> 'v \<Rightarrow> ((int \<times> PortManager) \<times> 'v) outcome option" where
  "level_served E pm port a l v =
     (if l = HDCP_LEVEL0 then DisablePort (e_os E) (e_drm E) (e_gwl E) (e_wl E) pm port a v
      else EnablePort (e_os E) (e_drm E) (e_gwl E) (e_wl E) pm port a l v)"

lemma level_served_quiet:
  "level_served E pm port a l v = ret (r, v') \<Longrightarrow> quiet E out \<Longrightarrow> out v' = out v"
  by (auto simp: level_served_def EnablePort_alone DisablePort_alone split: if_splits dest: alone_quiet)

lemma level_transaction:
  assumes "level_served E pm port (app_of appId) (ucast level) v = ret ((sts, pm'), v1)"
    and "g_portMgr d = Some pm" "\<not> PORT_ID_MAX < port" "level \<in> {0, 1, 2}"
    and "quiet E out" "sends_all (e_os E) out appId" "n = length (out v appId)" "sd_wf mem" "m_Fd s \<noteq> -1"
  shows "\<exists>rsp v'. PerformMessageTransaction (linked E appId out) s (level_request mem port level) (d, v, n) =
      ret ((st (if sts = SUCCESS then HDCP_STATUS_SUCCESSFUL else port_error sts), rsp),
        (d\<lparr>g_portMgr := Some pm'\<rparr>, v', n + 100)) \<and> length (out v' appId) = n + 100 \<and>
    handle_task E (level_request mem port level) appId d v = ret (d\<lparr>g_portMgr := Some pm'\<rparr>, v')"
proof -
  let ?data = "level_request mem port level"
  let ?rsp = "status (if sts = SUCCESS then HDCP_STATUS_SUCCESSFUL else port_error sts) ?data"
  note f = level_request_fields [OF assms(8), where port = port and level = level]
  have l: "sd_Level ?data = HDCP_LEVEL1 \<or> sd_Level ?data = HDCP_LEVEL2 \<or> sd_Level ?data = HDCP_LEVEL0"
    using assms(4) by (auto simp: f(6))
  have "SetProtectionLevel E ?data appId d v = ret ((?rsp, d\<lparr>g_portMgr := Some pm'\<rparr>), v1)"
    using assms(1-3) l unfolding SetProtectionLevel_def f(4-6)
    by (auto simp: level_served_def PortManagerEnablePort_def PortManagerDisablePort_def Let_def)
  then have dis: "DispatchCommand E ?data appId d v = ret ((True, ?rsp, d\<lparr>g_portMgr := Some pm'\<rparr>), v1)"
    unfolding DispatchCommand_def f(3) Let_def by (simp add: replies_def)
  have wf: "sd_wf ?rsp" using f(1) by (simp add: sd_wf_def)
  obtain v' where h: "handle_task E ?data appId d v = ret (d\<lparr>g_portMgr := Some pm'\<rparr>, v')"
    and o: "out v' appId = out v appId @ encode ?rsp"
    using handle_task_reply [OF dis f(2) assms(6) wf level_served_quiet [OF assms(1,5)]] .
  have "length (out v' appId) = n + 100" using o wf assms(7) by simp
  with linked_transaction [where out = out, OF h o f(1) wf assms(9,7)] h show ?thesis by auto
qed

lemma EnablePort_at:
  assumes "EnablePort os D G wl pm port a l w = ret ((sts, pm'), w')" "pm_inv pm" "unat port < length (m_DrmObjects pm)"
  shows "if sts = SUCCESS then app_refs (obj pm' (unat port)) = insert a (app_refs (obj pm (unat port))) \<and>
    (\<forall>j. j \<noteq> unat port \<longrightarrow> obj pm' j = obj pm j) else pm' = pm"
proof -
  have i: "GetDrmObjectByPortId pm port = Some (unat port)" using port_index [OF assms(2), of port] assms(3) by simp
  from assms(1) show ?thesis
    by (cases rule: EnablePort_cases) (use i assms(3) in \<open>auto simp: apps.add_refs\<close>)
qed

lemma level_served_off:
  assumes "level_served E pm port a 0 v = ret ((sts, pm'), v')" "pm_inv pm" "unat port < length (m_DrmObjects pm)"
    and "m_Connection (obj pm (unat port)) \<noteq> DRM_MODE_DISCONNECTED"
  shows "pm_inv pm' \<and> (\<forall>j. j \<noteq> unat port \<longrightarrow> obj pm' j = obj pm j) \<and>
    app_refs (obj pm' (unat port)) = app_refs (obj pm (unat port)) - {a} \<and>
    GetCpType (obj pm' (unat port)) = (if app_refs (obj pm (unat port)) \<subseteq> {a} \<and> switched_off E pm (obj pm (unat port)) v
      then CP_TYPE_INVALID else GetCpType (obj pm (unat port)))"
proof -
  have pid: "m_PortId (obj pm (unat port)) = port" using port_id_of [OF assms(2,3)] by simp
  have run: "DisablePort (e_os E) (e_drm E) (e_gwl E) (e_wl E) pm port a v = ret ((sts, pm'), v')"
    using assms(1) by (simp add: level_served_def)
  then have "DisablePort (e_os E) (e_drm E) (e_gwl E) (e_wl E) pm (m_PortId (obj pm (unat port))) a v = ret ((sts, pm'), v')"
    by (simp only: pid)
  from DisablePort_at [OF this assms(2,3)] show ?thesis
    using pm_touched_inv [OF DisablePort_touched [OF run] assms(2)]
      DisablePort_type [OF run assms(2-4)] assms(4) by simp
qed

lemma level_served_on:
  assumes "level_served E pm port a l v = ret ((sts, pm'), v')" "pm_inv pm" "unat port < length (m_DrmObjects pm)"
    and "m_Connection (obj pm (unat port)) \<noteq> DRM_MODE_DISCONNECTED" "l = HDCP_LEVEL1 \<or> l = HDCP_LEVEL2" "app_id a"
  shows "pm_inv pm' \<and> (\<forall>j. j \<noteq> unat port \<longrightarrow> obj pm' j = obj pm j) \<and>
    (sts = SUCCESS \<longleftrightarrow> enough (obj pm (unat port)) l \<or> (\<exists>t. granted E pm (obj pm (unat port)) l t v)) \<and>
    (if sts = SUCCESS then app_refs (obj pm' (unat port)) = insert a (app_refs (obj pm (unat port))) \<and>
       (if enough (obj pm (unat port)) l then GetCpType (obj pm' (unat port)) = GetCpType (obj pm (unat port))
        else granted E pm (obj pm (unat port)) l (GetCpType (obj pm' (unat port))) v)
     else pm' = pm)"
proof -
  have run: "EnablePort (e_os E) (e_drm E) (e_gwl E) (e_wl E) pm port a l v = ret ((sts, pm'), v')"
    using assms(1,5) by (auto simp: level_served_def)
  show ?thesis
    using EnablePort_at [OF run assms(2,3)] pm_touched_inv [OF EnablePort_touched [OF run assms(6)] assms(2)]
      EnablePort_granted [OF run assms(2-5)] by (cases "sts = SUCCESS") simp_all
qed

text \<open>C11: Setting a level through the whole system: a client asks for a connected port over a connection that
  is up, whatever the driver answers. It is told that it succeeded exactly if it asked for level 0, if
  the port is protected well enough already, or if the driver accepted the type of the level, accepted
  the request to authenticate and one second later reports the port enabled, with whatever type. Then
  its connection is counted for the port, and the recorded type is the one in force before, which is at
  least the one asked for, or the one reported. For level
  0, and after a refusal, its connection is not counted any more, even if it was before: a failed
  upgrade to level 2 gives up the protection at level 1. If it was the last one, the port is told to be
  off, and it is recorded as off exactly if the driver reports so. The other ports and the other
  applications' claims to the port are as before.\<close>

theorem set_level_end_to_end:
  assumes "sm_inv sm" "find (has_handle sm h) (sm_SessionList sm) = Some p"
    and "m_Fd (ss_SdkSocket (the (sm_Heap sm p))) \<noteq> -1"
    and "g_portMgr d = Some pm" "pm_inv pm" "unat port < length (m_DrmObjects pm)" "port \<le> 5"
    and "m_Connection (obj pm (unat port)) \<noteq> DRM_MODE_DISCONNECTED" "level \<in> {0, 1, 2}"
    and "quiet E out" "sends_all (e_os E) out appId" "0 \<le> appId" "appId < 2147483648"
    and "n = length (out v appId)" "\<forall>u. sd_wf (mem u)"
  shows "\<exists>sts pm' v' n'. HDCPSetProtectionLevel (linked E appId out) mem h port level sm (d, v, n) =
      ret ((sts, (), sm), (d\<lparr>g_portMgr := Some pm'\<rparr>, v', n')) \<and> pm_inv pm' \<and>
    (\<forall>j. j \<noteq> unat port \<longrightarrow> obj pm' j = obj pm j) \<and>
    (sts = st HDCP_STATUS_SUCCESSFUL \<longleftrightarrow> level = 0 \<or> enough (obj pm (unat port)) (ucast level) \<or>
       (\<exists>t. granted E pm (obj pm (unat port)) (ucast level) t v)) \<and>
    (if level \<noteq> 0 \<and> sts = st HDCP_STATUS_SUCCESSFUL
     then app_refs (obj pm' (unat port)) = insert (app_of appId) (app_refs (obj pm (unat port))) \<and>
       (if enough (obj pm (unat port)) (ucast level) then GetCpType (obj pm' (unat port)) = GetCpType (obj pm (unat port))
        else granted E pm (obj pm (unat port)) (ucast level) (GetCpType (obj pm' (unat port))) v)
     else app_refs (obj pm' (unat port)) = app_refs (obj pm (unat port)) - {app_of appId} \<and>
       (\<exists>u. (if level = 0 then u = v else handle_task E (level_request (mem (d, v, n)) port level) appId d v = ret (d, u)) \<and>
         GetCpType (obj pm' (unat port)) =
           (if app_refs (obj pm (unat port)) \<subseteq> {app_of appId} \<and> switched_off E pm (obj pm (unat port)) u
            then CP_TYPE_INVALID else GetCpType (obj pm (unat port)))))"
proof -
  let ?s = "ss_SdkSocket (the (sm_Heap sm p))" and ?a = "app_of appId"
  have app: "app_id ?a" using assms(12,13) by simp
  have ok: "\<not> PORT_ID_MAX < port" "\<not> of_nat NUM_PHYSICAL_PORTS_MAX < port" using assms(7) by simp_all
  have api: "HDCPSetProtectionLevel (linked E appId out) mem h port level sm w =
      obind (plain (Session_SetProtectionLevel (linked E appId out) mem ?s port level w)) (\<lambda>((sts, x), w). ret ((sts, x, sm), w))" for w
    using assms(2) ok by (simp add: HDCPSetProtectionLevel_def with_session_eq [OF assms(1)])
  obtain sts1 pm1 v1 where serve1: "level_served E pm port ?a (ucast level) v = ret ((sts1, pm1), v1)"
    using EnablePort_returns [OF assms(5)] DisablePort_returns [OF assms(5)] unfolding level_served_def by metis
  obtain rsp1 v2 where t1: "PerformMessageTransaction (linked E appId out) ?s (level_request (mem (d, v, n)) port level) (d, v, n) =
      ret ((st (if sts1 = SUCCESS then HDCP_STATUS_SUCCESSFUL else port_error sts1), rsp1), (d\<lparr>g_portMgr := Some pm1\<rparr>, v2, n + 100))"
    and n2: "length (out v2 appId) = n + 100"
    and h1: "handle_task E (level_request (mem (d, v, n)) port level) appId d v = ret (d\<lparr>g_portMgr := Some pm1\<rparr>, v2)"
    using level_transaction [OF serve1 assms(4) ok(1) assms(9-11,14) spec [OF assms(15), of "(d, v, n)"] assms(3)] by blast
  note session = set_level_result [where mem = mem, OF t1]
  have lvl: "level \<noteq> 0 \<Longrightarrow> ucast level = HDCP_LEVEL1 \<or> ucast level = HDCP_LEVEL2" using assms(9) by auto
  note on = level_served_on [OF serve1 assms(5,6,8) lvl app]
  show ?thesis
  proof (cases "level = 0 \<or> sts1 = SUCCESS")
    case True
    have "HDCPSetProtectionLevel (linked E appId out) mem h port level sm (d, v, n) =
        ret ((st HDCP_STATUS_SUCCESSFUL, (), sm), (d\<lparr>g_portMgr := Some pm1\<rparr>, v2, n + 100))"
      using True session api [of "(d, v, n)"] by (auto simp: plain_def)
    then have first: "\<exists>v' n'. HDCPSetProtectionLevel (linked E appId out) mem h port level sm (d, v, n) =
        ret ((st HDCP_STATUS_SUCCESSFUL, (), sm), (d\<lparr>g_portMgr := Some pm1\<rparr>, v', n'))" by blast
    show ?thesis
    proof (cases "level = 0")
      case off: True
      from level_served_off [OF serve1 [unfolded off unsigned_0] assms(5,6,8)] first off show ?thesis
        by (intro exI [of _ "st HDCP_STATUS_SUCCESSFUL"] exI [of _ pm1]) simp
    next
      case False
      from on [OF False] first True False show ?thesis
        by (intro exI [of _ "st HDCP_STATUS_SUCCESSFUL"] exI [of _ pm1]) simp
    qed
  next
    case False
    then have pm1: "pm1 = pm" and refused: "\<not> (enough (obj pm (unat port)) (ucast level) \<or>
        (\<exists>t. granted E pm (obj pm (unat port)) (ucast level) t v))"
      using on by auto
    obtain sts2 pm2 v3 where serve2: "level_served E pm port ?a (ucast (0 :: u32)) v2 = ret ((sts2, pm2), v3)"
      using DisablePort_returns [OF assms(5)] unfolding level_served_def by (metis unsigned_0)
    obtain rsp2 v4 where t2: "PerformMessageTransaction (linked E appId out) ?s
        (level_request (mem (d\<lparr>g_portMgr := Some pm1\<rparr>, v2, n + 100)) port 0) (d\<lparr>g_portMgr := Some pm1\<rparr>, v2, n + 100) =
        ret ((st (if sts2 = SUCCESS then HDCP_STATUS_SUCCESSFUL else port_error sts2), rsp2),
          (d\<lparr>g_portMgr := Some pm1\<rparr>\<lparr>g_portMgr := Some pm2\<rparr>, v4, n + 100 + 100))"
      using level_transaction [OF serve2 _ ok(1) _ assms(10,11) n2 [symmetric]
          spec [OF assms(15), of "(d\<lparr>g_portMgr := Some pm1\<rparr>, v2, n + 100)"] assms(3), of "d\<lparr>g_portMgr := Some pm1\<rparr>"]
        pm1 by auto
    have run: "\<exists>v' n'. HDCPSetProtectionLevel (linked E appId out) mem h port level sm (d, v, n) =
        ret ((st (port_error sts1), (), sm), (d\<lparr>g_portMgr := Some pm2\<rparr>, v', n'))"
      using False session t2 api [of "(d, v, n)"] by (simp add: plain_def port_error_def)
    have "st (port_error sts1) \<noteq> st HDCP_STATUS_SUCCESSFUL" by (simp add: port_error_def)
    moreover have "handle_task E (level_request (mem (d, v, n)) port level) appId d v = ret (d, v2)"
      using h1 pm1 assms(4) by simp
    moreover note level_served_off [OF serve2 [unfolded unsigned_0] assms(5,6,8)]
    ultimately show ?thesis
      using run refused False by (intro exI [of _ "st (port_error sts1)"] exI [of _ pm2]) (simp; blast)
  qed
qed

text \<open>Application 5 uses the only port at level 1 and asks for level 2; the driver refuses to set the type
  and otherwise does what it is told.\<close>

definition refusing_drm :: "u8 list drm_api" where
  "refusing_drm = idle_drm\<lparr>drmSetMaster := (\<lambda>fd. Pair 0), drmDropMaster := (\<lambda>fd. Pair 0),
     drmModeConnectorSetProperty := (\<lambda>fd c p v. Pair (if p = 2 then -1 else 0)),
     drmModeObjectGetProperties := (\<lambda>fd i. Pair (Some [(1, 0), (2, 0)]))\<rparr>"

definition refusing_env :: "u8 list env" where
  "refusing_env = sending_env\<lparr>e_drm := refusing_drm\<rparr>"

definition used_daemon :: HdcpDaemon where
  "used_daemon = demo_daemon\<lparr>g_portMgr := Some used_pm\<rparr>"

lemma refusing:
  "\<not> enough (obj used_pm 0) 2" "\<not> granted refusing_env used_pm (obj used_pm 0) 2 t v"
  "switched_off refusing_env used_pm (obj used_pm 0) v"
proof -
  have ids: "GetPropertyId CP_CONTENT_TYPE (obj used_pm 0) = 2" "GetPropertyId CONTENT_PROTECTION (obj used_pm 0) = 1"
    "GetCpType (obj used_pm 0) = 0" by code_simp+
  have env: "os_getenv (e_os refusing_env) s w = None" "e_drm refusing_env = refusing_drm" for s w
    by (simp_all add: refusing_env_def sending_env_def sending_os_def idle_simps)
  show "\<not> enough (obj used_pm 0) 2" by (simp add: enough_def ids)
  show "\<not> granted refusing_env used_pm (obj used_pm 0) 2 t v"
    by (simp add: granted_def told_def ids env) (simp add: refusing_drm_def)
  have "told refusing_env (m_DrmFd used_pm) (m_DrmId (obj used_pm 0)) 1 CP_OFF 1 v v"
    unfolding told_def env by (simp add: refusing_drm_def)
  then show "switched_off refusing_env used_pm (obj used_pm 0) v"
    unfolding switched_off_def ids
    by (intro exI conjI, assumption) (simp add: GetProtectionInfo_def env ids refusing_drm_def)
qed

theorem set_level_end_to_end_witness:
  "\<exists>sts pm' v' n'. HDCPSetProtectionLevel (linked refusing_env 5 (\<lambda>w fd. w)) linked_mem 1 0 2 demo_client (used_daemon, [], 0) =
      ret ((sts, (), demo_client), (used_daemon\<lparr>g_portMgr := Some pm'\<rparr>, v', n')) \<and>
    sts \<noteq> st HDCP_STATUS_SUCCESSFUL \<and> app_refs (obj used_pm 0) = {5} \<and> GetCpType (obj used_pm 0) = CP_TYPE_0 \<and>
    app_refs (obj pm' 0) = {} \<and> GetCpType (obj pm' 0) = CP_TYPE_INVALID"
proof -
  have quiet: "quiet refusing_env (\<lambda>w fd. w)"
    by (simp add: quiet_def refusing_env_def refusing_drm_def sending_env_def sending_os_def idle_simps)
  have all: "sends_all (e_os refusing_env) (\<lambda>w fd. w) 5"
    using sending_all by (simp add: refusing_env_def sending_env_def)
  have mgr: "g_portMgr used_daemon = Some used_pm" by (simp add: used_daemon_def)
  have port: "unat (0 :: u32) < length (m_DrmObjects used_pm)" "(0 :: u32) \<le> 5"
    "m_Connection (obj used_pm (unat (0 :: u32))) \<noteq> DRM_MODE_DISCONNECTED" "(2 :: u32) \<in> {0, 1, 2}"
    by code_simp+
  have used: "app_refs (obj used_pm 0) = {5}" "app_of 5 = 5" "GetCpType (obj used_pm 0) = CP_TYPE_0" by code_simp+
  from set_level_end_to_end [where mem = linked_mem and v = "[]" and n = 0, OF demo_client_inv demo_client_socket mgr used_inv port
      quiet all] used refusing obtain sts pm' v' n' where
    "HDCPSetProtectionLevel (linked refusing_env 5 (\<lambda>w fd. w)) linked_mem 1 0 2 demo_client (used_daemon, [], 0) =
      ret ((sts, (), demo_client), (used_daemon\<lparr>g_portMgr := Some pm'\<rparr>, v', n'))"
    "sts \<noteq> st HDCP_STATUS_SUCCESSFUL" "app_refs (obj pm' 0) = {}" "GetCpType (obj pm' 0) = CP_TYPE_INVALID"
    by (auto simp: linked_mem_def example_mem_wf)
  with used show ?thesis by blast
qed

end
