(* ===== verification/Answers.thy ===== *)
theory Answers
  imports EndToEndPorts
begin

text \<open>
  What the daemon says to a client: the bytes that answer a request are the messages, and the list of
  keys, that the command of the request asks for. The client library reads exactly these.
\<close>

section \<open>Calm calls\<close>

text \<open>\<open>calm\<close>: nothing but a send puts anything on a connection.\<close>

definition calm :: "'v env \<Rightarrow> ('v \<Rightarrow> int \<Rightarrow> u8 list) \<Rightarrow> bool" where
  "calm E out \<longleftrightarrow> quiet E out \<and>
     (\<forall>fd i w. out (snd (drmModeGetConnector (e_drm E) fd i w)) = out w) \<and>
     (\<forall>fd i w. out (snd (drmModeGetPropertyBlob (e_drm E) fd i w)) = out w) \<and>
     (\<forall>n w. out (snd (os_new (e_os E) n w)) = out w) \<and>
     (\<forall>p fl w. out (snd (os_open (e_os E) p fl w)) = out w) \<and>
     (\<forall>fd bs w. out (snd (os_write (e_os E) fd bs w)) = out w) \<and>
     (\<forall>fd n w. out (snd (os_read (e_os E) fd n w)) = out w) \<and>
     (\<forall>fd w. out (snd (os_close (e_os E) fd w)) = out w) \<and>
     (\<forall>w. out (snd (ssl_DSA_new (e_ssl E) w)) = out w \<and> out (snd (ssl_DSA_SIG_new (e_ssl E) w)) = out w) \<and>
     (\<forall>bs w. out (snd (ssl_BN_bin2bn (e_ssl E) bs w)) = out w)"

lemma calmD:
  assumes "calm E out"
  shows "drmModeGetConnector (e_drm E) fd i w = (r1, w') \<Longrightarrow> out w' = out w"
    "drmModeGetPropertyBlob (e_drm E) fd i w = (r2, w') \<Longrightarrow> out w' = out w"
    "os_new (e_os E) n w = (r3, w') \<Longrightarrow> out w' = out w"
    "os_open (e_os E) p fl w = (r4, w') \<Longrightarrow> out w' = out w"
    "os_write (e_os E) fd bs w = (r5, w') \<Longrightarrow> out w' = out w"
    "os_read (e_os E) fd n w = (r6, w') \<Longrightarrow> out w' = out w"
    "os_close (e_os E) fd w = (r7, w') \<Longrightarrow> out w' = out w"
    "ssl_DSA_new (e_ssl E) w = (r8, w') \<Longrightarrow> out w' = out w"
    "ssl_DSA_SIG_new (e_ssl E) w = (r9, w') \<Longrightarrow> out w' = out w"
    "ssl_BN_bin2bn (e_ssl E) bs w = (r10, w') \<Longrightarrow> out w' = out w"
  using assms unfolding calm_def by (metis snd_conv)+

lemma calm_quiet: "calm E out \<Longrightarrow> quiet E out"
  by (simp add: calm_def)

lemma VerifySignature_calm:
  assumes "VerifySignature (e_ssl E) m n r s w = Ret (x, w')" "calm E out"
  shows "out w' = out w"
  using assms(1) unfolding VerifySignature_def Let_def
  by (auto elim!: hdcp_elims split: prod.splits if_splits dest!: calmD(8-10) [OF assms(2)])

lemma VectorRevocationList_calm:
  assumes "VectorRevocationList (e_os E) buf n w = Ret (v, w')" "calm E out"
  shows "out w' = out w"
  using assms(1) unfolding VectorRevocationList_def Let_def
  by (auto elim!: hdcp_elims split: prod.splits if_splits dest!: calmD(3) [OF assms(2)])

lemma gen2_loop_calm_raw:
  assumes "gen2_loop os S buf offset vrls w = Some r"
  shows "os = e_os E \<longrightarrow> S = e_ssl E \<longrightarrow> calm E out \<longrightarrow> (\<forall>x w'. r = Ret (x, w') \<longrightarrow> out w' = out w)"
proof (rule gen2_loop.raw_induct [where P = "\<lambda>os S buf offset vrls w r.
    os = e_os E \<longrightarrow> S = e_ssl E \<longrightarrow> calm E out \<longrightarrow> (\<forall>x w'. r = Ret (x, w') \<longrightarrow> out w' = out w)", OF _ assms],
    intro allI impI, goal_cases)
  case (1 f os S buf offset vrls w r x w')
  note calm = calmD(3) [OF 1(5)] VectorRevocationList_calm [OF _ 1(5)] VerifySignature_calm [OF _ 1(5)]
  from 1(2) [unfolded 1(3,4,6) Let_def] consider "out w' = out w"
    | off v w0 where "f (e_os E) (e_ssl E) buf off (vrls @ [v]) w0 = ret (x, w')" "out w0 = out w"
    by (auto elim!: hdcp_elims split: if_splits prod.splits dest!: calm)
  then show ?case
  proof cases
    case 2
    with "1"(1) [OF 2(1)] \<open>calm E out\<close> show ?thesis by simp
  qed
qed

lemma gen2_loop_calm:
  "gen2_loop (e_os E) (e_ssl E) buf offset vrls w = ret (x, w') \<Longrightarrow> calm E out \<Longrightarrow> out w' = out w"
  using gen2_loop_calm_raw [where E = E and out = out, of "e_os E" "e_ssl E" buf offset vrls w "Ret (x, w')"] by simp

lemma StoreSrm_calm:
  assumes "StoreSrm (e_os E) (e_ssl E) g data w = ret (x, w')" "calm E out"
  shows "out w' = out w"
proof -
  have "RetrieveSrmFromBuffer (e_os E) (e_ssl E) t buf w = ret (y, w1) \<Longrightarrow> out w1 = out w" for t buf w y w1
    unfolding RetrieveSrmFromBuffer_def Let_def
    by (auto elim!: hdcp_elims split: option.splits prod.splits if_splits
        dest!: calmD(3) [OF assms(2)] VectorRevocationList_calm [OF _ assms(2)]
          VerifySignature_calm [OF _ assms(2)] gen2_loop_calm [OF _ assms(2)])
  with assms(1) show ?thesis unfolding StoreSrm_def Let_def
    by (auto elim!: hdcp_elims split: option.splits prod.splits sum.splits if_splits
        dest!: calmD(4,5,7) [OF assms(2)])
qed

lemma srm_write_loop_calm_raw:
  assumes "srm_write_loop os fd data n w = Some r"
  shows "os = e_os E \<longrightarrow> calm E out \<longrightarrow> (\<forall>x w'. r = Ret (x, w') \<longrightarrow> out w' = out w)"
proof (rule srm_write_loop.raw_induct [where P = "\<lambda>os fd data n w r.
    os = e_os E \<longrightarrow> calm E out \<longrightarrow> (\<forall>x w'. r = Ret (x, w') \<longrightarrow> out w' = out w)", OF _ assms],
    intro allI impI, goal_cases)
  case (1 f os fd data n w r x w')
  from 1(2) [unfolded 1(3,5) Let_def] consider "out w' = out w"
    | n0 w0 where "f (e_os E) fd data n0 w0 = ret (x, w')" "out w0 = out w"
    by (auto split: if_splits prod.splits sum.splits dest!: calmD(5) [OF 1(4)])
  then show ?case
  proof cases
    case 2
    with "1"(1) [OF 2(1)] \<open>calm E out\<close> show ?thesis by simp
  qed
qed

lemma SendSRM_calm:
  assumes "PortManagerSendSRMDdata (e_os E) g data w = ret (x, w')" "calm E out"
  shows "out w' = out w"
proof -
  have "srm_write_loop (e_os E) fd data n w = ret (y, w1) \<Longrightarrow> out w1 = out w" for fd n w y w1
    using srm_write_loop_calm_raw [where E = E and out = out, of "e_os E" fd data n w "Ret (y, w1)"] assms(2) by simp
  with assms(1) show ?thesis unfolding PortManagerSendSRMDdata_def PM_SendSRMData_def Let_def
    by (auto elim!: hdcp_elims split: prod.splits sum.splits if_splits dest!: calmD(4,7) [OF assms(2)])
qed

lemma read_loop_calm_raw:
  assumes "read_loop os fd data m off w = Some r"
  shows "os = e_os E \<longrightarrow> calm E out \<longrightarrow> (\<forall>x w'. r = Ret (x, w') \<longrightarrow> out w' = out w)"
proof (rule read_loop.raw_induct [where P = "\<lambda>os fd data m off w r.
    os = e_os E \<longrightarrow> calm E out \<longrightarrow> (\<forall>x w'. r = Ret (x, w') \<longrightarrow> out w' = out w)", OF _ assms],
    intro allI impI, goal_cases)
  case (1 f os fd data m off w r x w')
  from 1(2) [unfolded 1(3,5) Let_def] consider "out w' = out w"
    | d0 m0 off0 w0 where "f (e_os E) fd d0 m0 off0 w0 = ret (x, w')" "out w0 = out w"
    by (auto elim!: hdcp_elims split: if_splits prod.splits sum.splits dest!: calmD(6) [OF 1(4)])
  then show ?case
  proof cases
    case 2
    with "1"(1) [OF 2(1)] \<open>calm E out\<close> show ?thesis by simp
  qed
qed

lemma GetSrmData_calm:
  assumes "GetSrmData (e_os E) data n fd w = ret (x, w')" "calm E out"
  shows "out w' = out w"
proof -
  have "read_loop (e_os E) fd d m off w = ret (y, w1) \<Longrightarrow> out w1 = out w" for d m off w y w1
    using read_loop_calm_raw [where E = E and out = out, of "e_os E" fd d m off w "Ret (y, w1)"] assms(2) by simp
  with assms(1) show ?thesis unfolding GetSrmData_def ReadData_def
    by (auto elim!: hdcp_elims split: option.splits if_splits)
qed

lemma enumerate_loop_calm:
  assumes "calm E out"
  shows "enumerate_loop (e_drm E) fd obs ps n w = ret (x, w') \<Longrightarrow> out w' = out w"
proof (induction obs arbitrary: ps n w x)
  case (Cons ob obs)
  from Cons.prems show ?case
    by (auto simp: Let_def elim!: hdcp_elims split: prod.splits option.splits if_splits
        dest!: calmD(1) [OF assms] Cons.IH)
qed simp

lemma EnumeratePorts_calm:
  assumes "PortManagerEnumeratePorts (e_drm E) g ps n w = ret (x, w')" "calm E out"
  shows "out w' = out w"
  using assms(1) unfolding PortManagerEnumeratePorts_def PM_EnumeratePorts_def Let_def
  by (auto elim!: hdcp_elims split: option.splits if_splits dest!: enumerate_loop_calm [OF assms(2)])

lemma GetStatus_calm:
  assumes "PortManagerGetStatus (e_drm E) g p s w = (x, w')" "calm E out"
  shows "out w' = out w"
  using assms(1) unfolding PortManagerGetStatus_def PM_GetStatus_def Let_def
  by (auto split: option.splits prod.splits if_splits
      dest!: calmD(1) [OF assms(2)] GetProtectionInfo_quiet [OF _ calm_quiet [OF assms(2)]])

lemma GetKsvList_calm:
  assumes "PortManagerGetKsvList (e_drm E) g p n d ks w = Ret (x, w')" "calm E out"
  shows "out w' = out w"
  using assms(1) unfolding PortManagerGetKsvList_def PM_GetKsvList_def GetDownstreamInfo_def Let_def
  by (auto elim!: hdcp_elims split: option.splits prod.splits if_splits
      dest!: calmD(2) [OF assms(2)] quietD(4) [OF calm_quiet [OF assms(2)]])

lemma DisablePort_calm:
  assumes "DisablePort (e_os E) (e_drm E) (e_gwl E) wl pm p a w = ret (x, w')" "calm E out"
  shows "out w' = out w"
  using alone_quiet [OF assms(1) [unfolded DisablePort_alone] calm_quiet [OF assms(2)]] .

lemma EnablePort_calm:
  assumes "EnablePort (e_os E) (e_drm E) (e_gwl E) wl pm p a l w = ret (x, w')" "calm E out"
  shows "out w' = out w"
  using alone_quiet [OF assms(1) [unfolded EnablePort_alone] calm_quiet [OF assms(2)]] .

lemma app_exit_calm:
  assumes "PortManagerHandleAppExit (e_os E) (e_drm E) (e_gwl E) wl g a w = ret (x, w')" "calm E out"
  shows "out w' = out w"
proof -
  have "remove_app_loop (e_os E) (e_drm E) (e_gwl E) wl a is pm w = ret (y, w1) \<Longrightarrow> out w1 = out w" for "is" pm w y w1
  proof (induction "is" arbitrary: pm w)
    case (Cons i "is")
    from Cons.prems show ?case
      by (auto elim!: hdcp_elims dest!: DisablePort_calm [OF _ assms(2)] Cons.IH)
  qed simp
  with assms(1) show ?thesis unfolding PortManagerHandleAppExit_def RemoveAppFromPorts_def
    by (auto elim!: hdcp_elims split: option.splits)
qed

section \<open>What is sent\<close>

lemma sent_response:
  assumes "SendResponse (e_os E) r fd w = ret (sts, w')" "sends_all (e_os E) out fd" "sd_wf r"
  shows "sts = SUCCESS \<and> out w' fd = out w fd @ encode r"
  using sends_all_response [OF assms(2,3), of w] assms(1) by force

lemma keys_sent:
  assumes "sends_all (e_os E) out fd" "n \<le> length ks" "n \<le> KSV_SIZE * MAX_KSV_COUNT"
  shows "\<exists>w'. SendKsvListData (e_os E) (Some ks) (int n) fd w = ret (SUCCESS, w') \<and> out w' fd = out w fd @ take n ks"
proof -
  obtain w1 where s: "os_send (e_os E) fd (take n ks) w = (Inr (length (take n ks)), w1)"
    and o: "out w1 fd = out w fd @ take n ks" and fd: "fd \<noteq> -1"
    using assms(1) unfolding sends_all_def by blast
  have run: "SendKsvListData (e_os E) (Some ks) (int n) fd w = write_loop (e_os E) fd ks (int n) 0 w"
    using assms(3) fd by (simp add: SendKsvListData_def WriteData_def)
  show ?thesis
  proof (cases "n = 0")
    case True
    then show ?thesis unfolding run by (subst write_loop.simps) simp
  next
    case False
    then show ?thesis unfolding run using s o assms(2)
      by (subst write_loop.simps) (simp add: rd_range_def, subst write_loop.simps, simp)
  qed
qed

lemma sent_keys:
  assumes "SendKsvListData (e_os E) (Some ks) (int n) fd w = ret (sts, w')" "sends_all (e_os E) out fd"
    and "n \<le> length ks" "n \<le> KSV_SIZE * MAX_KSV_COUNT"
  shows "sts = SUCCESS \<and> out w' fd = out w fd @ take n ks"
  using keys_sent [OF assms(2-4), of w] assms(1) by auto

lemma wr_range_length: "wr_range xs i ys = Ret zs \<Longrightarrow> length zs = length xs"
  by (auto simp: wr_range_def split: if_splits)

lemma KsvList_length:
  assumes "PortManagerGetKsvList D g p n d ks w = Ret ((sts, n', d', ks'), w')"
  shows "length ks' = length ks"
  using assms unfolding PortManagerGetKsvList_def PM_GetKsvList_def Let_def
  by (auto elim!: hdcp_elims split: option.splits if_splits dest!: wr_range_length)

lemma enumerate_loop_length:
  "enumerate_loop D fd obs ps n w = ret ((sts, obs', ps', n'), w') \<Longrightarrow> length ps' = length ps"
proof (induction obs arbitrary: ps n w obs')
  case (Cons ob obs)
  from Cons.prems show ?case
    by (auto simp: Let_def upd_range_def elim!: hdcp_elims split: prod.splits option.splits if_splits dest!: Cons.IH)
qed simp

lemma EnumeratePorts_length:
  "PortManagerEnumeratePorts D g ps n w = ret ((sts, g', ps', n'), w') \<Longrightarrow> length ps' = length ps"
  unfolding PortManagerEnumeratePorts_def PM_EnumeratePorts_def Let_def
  by (auto elim!: hdcp_elims split: option.splits if_splits dest!: enumerate_loop_length)

text \<open>A reply, and how a request is answered: by messages and, for the list of keys, by the keys.\<close>

definition reply :: "SocketData \<Rightarrow> SocketData \<Rightarrow> bool" where
  "reply data r \<longleftrightarrow> sd_wf r \<and> sd_Size r = of_nat sizeof_SocketData \<and> sd_Command r = sd_Command data \<and>
     sd_Status r \<le> st HDCP_STATUS_ERROR_MSG_TRANSACTION"

lemma st_codes [simp]: "st s \<le> 12"
  by (cases s) simp_all

definition successful :: "SocketData \<Rightarrow> bool" where
  "successful r \<longleftrightarrow> sd_Status r = st HDCP_STATUS_SUCCESSFUL"

definition answers :: "SocketData \<Rightarrow> SocketData list \<Rightarrow> u8 list \<Rightarrow> bool" where
  "answers data rs ks \<longleftrightarrow> list_all (reply data) rs \<and>
     (let c = sd_Command data in
      if sd_Size data \<noteq> of_nat sizeof_SocketData
      then length rs = 1 \<and> sd_Status (hd rs) = st HDCP_STATUS_ERROR_INVALID_PARAMETER \<and> ks = []
      else if c \<in> {api HDCP_API_CREATE, api HDCP_API_DESTROY, api HDCP_API_CREATE_CALLBACK}
      then rs = [] \<and> ks = []
      else if c = api HDCP_API_GETKSVLIST
      then length rs = 1 \<and> length ks = (if successful (hd rs) then KSV_SIZE * unat (sd_KsvCount (hd rs)) else 0)
      else if c = api HDCP_API_SENDSRMDATA
      then length rs = (if successful (hd rs) then 2 else 1) \<and> ks = []
      else length rs = 1 \<and> ks = [])"

text \<open>A handler that leaves the reply to the message loop.\<close>

lemma plain_handlers:
  assumes "h E data a d w = ret ((r, d'), w')" "h \<in> {EnumeratePorts, SetProtectionLevel, GetStatus, GetSRMVersion, Config}"
    and "calm E out" "sd_wf data" "sd_Size data = of_nat sizeof_SocketData"
  shows "reply data r \<and> out w' = out w"
proof -
  note calm = EnumeratePorts_calm [OF _ assms(3)] GetStatus_calm [OF _ assms(3)]
    EnablePort_calm [OF _ assms(3)] DisablePort_calm [OF _ assms(3)]
  have wf: "length (sd_Ports data) = NUM_PHYSICAL_PORTS_MAX" using assms(4) by (simp add: sd_wf_def)
  consider "h = EnumeratePorts" | "h = SetProtectionLevel" | "h = GetStatus" | "h = GetSRMVersion" | "h = Config"
    using assms(2) by blast
  then show ?thesis
  proof cases
    case 1
    have ports: "PortManagerEnumeratePorts (e_drm E) g (sd_Ports data) n w = ret ((sts, g', ps, n'), w1) \<Longrightarrow>
        length ps = NUM_PHYSICAL_PORTS_MAX \<and> out w1 = out w" for g n sts g' ps n' w1
      using calm(1) EnumeratePorts_length wf by fastforce
    from assms(1) [unfolded 1 EnumeratePorts_def Let_def] assms(4,5) wf show ?thesis
      by (auto simp: reply_def sd_wf_def elim!: hdcp_elims split: if_splits dest!: ports)
  next
    case 2
    from assms(1) [unfolded 2 SetProtectionLevel_def Let_def] assms(4,5) show ?thesis
      by (auto simp: reply_def PortManagerEnablePort_def PortManagerDisablePort_def elim!: hdcp_elims
          split: if_splits option.splits dest: calm)
  next
    case 3
    from assms(1) [unfolded 3 GetStatus_def Let_def] assms(4,5) show ?thesis
      by (auto simp: reply_def set_SinglePort_def sd_wf_def split: if_splits prod.splits dest: calm)
  next
    case 4
    from assms(1) [unfolded 4 GetSRMVersion_def Let_def] assms(4,5) show ?thesis
      by (auto simp: reply_def split: if_splits prod.splits)
  next
    case 5
    from assms(1) [unfolded 5 Config_def Let_def] assms(4,5) show ?thesis
      by (auto simp: reply_def split: if_splits prod.splits)
  qed
qed

lemma GetKsvList_answers:
  assumes "GetKsvList E data a d w = ret ((r, d'), w')" "calm E out" "sends_all (e_os E) out a"
    and "sd_wf data" "sd_Size data = of_nat sizeof_SocketData"
  shows "reply data r \<and> (if successful r
    then \<exists>ks. out w' a = out w a @ encode r @ ks \<and> length ks = KSV_SIZE * unat (sd_KsvCount r)
    else out w' = out w)"
proof -
  have keys: "SendKsvListData (e_os E) (Some ks) (uint n * 5) a w = ret (sts, w1) \<Longrightarrow> \<not> 127 < unat (n :: u8) \<Longrightarrow>
      length ks = 635 \<Longrightarrow> sts = SUCCESS \<and> out w1 a = out w a @ take (unat n * 5) ks" for n ks sts w w1
    using sent_keys [OF _ assms(3), of ks "unat n * 5" w sts w1] by simp
  have sent: "SendResponse (e_os E) m a w = ret (sts, w1) \<Longrightarrow> sd_wf m \<Longrightarrow> sts = SUCCESS \<and> out w1 a = out w a @ encode m" for m sts w w1
    using sent_response [OF _ assms(3)] by blast
  have len: "PortManagerGetKsvList (e_drm E) g p n dp (fresh E k w0) w = Ret ((sts, n', d', ks'), w') \<Longrightarrow>
     out w' = out w \<and> length ks' = k" for g p n dp k w0 w sts n' d' ks' w'
    using GetKsvList_calm [OF _ assms(2)] KsvList_length by fastforce
  from assms(1) [unfolded GetKsvList_def Let_def] assms(4,5) show ?thesis
    by (auto simp: reply_def successful_def elim!: hdcp_elims split: if_splits prod.splits
        dest!: calmD(3) [OF assms(2)] len sent keys)
qed

lemma SendSRMData_answers:
  assumes "SendSRMData E data a d w = ret ((r, d'), w')" "calm E out" "sends_all (e_os E) out a"
    and "sd_wf data" "sd_Size data = of_nat sizeof_SocketData"
  shows "reply data r \<and> (out w' = out w \<and> \<not> successful r \<or>
    (\<exists>m. reply data m \<and> successful m \<and> out w' a = out w a @ encode m))"
proof -
  have sent: "SendResponse (e_os E) m a w = ret (sts, w1) \<Longrightarrow> sd_wf m \<Longrightarrow> sts = SUCCESS \<and> out w1 a = out w a @ encode m" for m sts w w1
    using sent_response [OF _ assms(3)] by blast
  let ?ack = "data\<lparr>sd_Status := st HDCP_STATUS_SUCCESSFUL\<rparr>"
  have ack: "reply data ?ack" "successful ?ack" using assms(4,5) by (simp_all add: reply_def successful_def)
  from assms(1) [unfolded SendSRMData_def Let_def] assms(4,5)
  have "reply data r \<and> (out w' = out w \<and> \<not> successful r \<or> out w' a = out w a @ encode ?ack)"
    by (auto simp: reply_def successful_def elim!: hdcp_elims split: if_splits prod.splits
        dest!: calmD(3) [OF assms(2)] sent GetSrmData_calm [OF _ assms(2)] StoreSrm_calm [OF _ assms(2)] SendSRM_calm [OF _ assms(2)])
  with ack show ?thesis by blast
qed

lemma DispatchCommand_answers:
  assumes "DispatchCommand E data a d w = ret ((due, r, d'), w')" "calm E out" "sends_all (e_os E) out a"
    and "sd_wf data" "sd_Size data = of_nat sizeof_SocketData"
  obtains rs ks where "answers data (rs @ (if due then [r] else [])) ks" "due \<longrightarrow> ks = []"
    "out w' a = out w a @ concat (map encode rs) @ ks" "due \<longrightarrow> sd_wf r"
proof -
  let ?c = "sd_Command data"
  have wf: "due \<Longrightarrow> reply data r \<Longrightarrow> sd_wf r" by (simp add: reply_def)
  consider (plain) h where "h \<in> {EnumeratePorts, SetProtectionLevel, GetStatus, GetSRMVersion, Config}"
      "replies (\<lambda>_. True) (h E data a d w) = ret ((due, r, d'), w')" "?c \<noteq> api HDCP_API_GETKSVLIST"
      "?c \<notin> {api HDCP_API_CREATE, api HDCP_API_DESTROY, api HDCP_API_CREATE_CALLBACK, api HDCP_API_SENDSRMDATA}"
    | (silent) "?c \<in> {api HDCP_API_CREATE, api HDCP_API_DESTROY, api HDCP_API_CREATE_CALLBACK}" "\<not> due" "out w' = out w"
    | (keys) "?c = api HDCP_API_GETKSVLIST" "due \<longleftrightarrow> sd_Status r \<noteq> st HDCP_STATUS_SUCCESSFUL" "GetKsvList E data a d w = ret ((r, d'), w')"
    | (srm) "?c = api HDCP_API_SENDSRMDATA" "due" "SendSRMData E data a d w = ret ((r, d'), w')"
    | (bad) "due" "reply data r" "out w' = out w" "?c \<notin> {api HDCP_API_CREATE, api HDCP_API_DESTROY, api HDCP_API_CREATE_CALLBACK,
        api HDCP_API_SENDSRMDATA, api HDCP_API_GETKSVLIST}"
  proof -
    note run = assms(1) [unfolded DispatchCommand_def Let_def]
    consider "?c = api HDCP_API_GETKSVLIST" | "?c = api HDCP_API_SENDSRMDATA"
      | "?c \<in> {api HDCP_API_CREATE, api HDCP_API_DESTROY, api HDCP_API_CREATE_CALLBACK}"
      | "?c = api HDCP_API_ENUMERATE_HDCP_DISPLAY" | "?c = api HDCP_API_SET_PROTECTION_LEVEL"
      | "?c = api HDCP_API_GETSTATUS" | "?c = api HDCP_API_GETSRMVERSION" | "?c = api HDCP_API_CONFIG"
      | "?c \<notin> api ` {HDCP_API_GETKSVLIST, HDCP_API_SENDSRMDATA, HDCP_API_CREATE, HDCP_API_DESTROY,
          HDCP_API_CREATE_CALLBACK, HDCP_API_ENUMERATE_HDCP_DISPLAY, HDCP_API_SET_PROTECTION_LEVEL,
          HDCP_API_GETSTATUS, HDCP_API_GETSRMVERSION, HDCP_API_CONFIG}"
      by blast
    then show thesis
    proof cases
      case 1 with run show ?thesis by (intro keys) (auto simp: replies_def elim!: hdcp_elims)
    next
      case 2 with run show ?thesis by (intro srm) (auto simp: replies_def elim!: hdcp_elims)
    next
      case 3 with run show ?thesis
        by (intro silent) (auto elim!: hdcp_elims dest: app_exit_calm [OF _ assms(2)])
    next
      case 4 with run show ?thesis by (intro plain [of EnumeratePorts]) simp_all
    next
      case 5 with run show ?thesis by (intro plain [of SetProtectionLevel]) simp_all
    next
      case 6 with run show ?thesis by (intro plain [of GetStatus]) simp_all
    next
      case 7 with run show ?thesis by (intro plain [of GetSRMVersion]) simp_all
    next
      case 8 with run show ?thesis by (intro plain [of Config]) simp_all
    next
      case 9 with run assms(4,5) show ?thesis by (intro bad) (auto simp: reply_def)
    qed
  qed
  then show thesis
  proof cases
    case plain
    then have due: "due" and h: "h E data a d w = ret ((r, d'), w')" by (auto simp: replies_def elim!: hdcp_elims)
    from plain_handlers [OF h plain(1) assms(2,4,5)] plain due wf show ?thesis
      by (intro that [of "[]" "[]"]) (auto simp: answers_def assms(5))
  next
    case silent
    with assms(5) show ?thesis by (intro that [of "[]" "[]"]) (auto simp: answers_def)
  next
    case keys
    note k = GetKsvList_answers [OF keys(3) assms(2-5)]
    show ?thesis
    proof (cases "successful r")
      case True
      with k obtain ks where "out w' a = out w a @ encode r @ ks" "length ks = KSV_SIZE * unat (sd_KsvCount r)" by auto
      with k keys True assms(5) show ?thesis
        by (intro that [of "[r]" ks]) (auto simp: answers_def successful_def)
    next
      case False
      with k keys assms(5) wf show ?thesis
        by (intro that [of "[]" "[]"]) (auto simp: answers_def successful_def)
    qed
  next
    case srm
    note k = SendSRMData_answers [OF srm(3) assms(2-5)]
    show ?thesis
    proof (cases "out w' = out w \<and> \<not> successful r")
      case True
      with k srm assms(5) wf show ?thesis by (intro that [of "[]" "[]"]) (auto simp: answers_def)
    next
      case False
      with k obtain m where "reply data m" "successful m" "out w' a = out w a @ encode m" by blast
      with k srm assms(5) wf show ?thesis by (intro that [of "[m]" "[]"]) (auto simp: answers_def)
    qed
  next
    case bad
    with assms(5) wf show ?thesis by (intro that [of "[]" "[]"]) (auto simp: answers_def)
  qed
qed

section \<open>The answer to a request\<close>

text \<open>C22: What the daemon puts on a client's connection while it handles a request is what the protocol asks
  for: a wrong size or an unknown command is answered by one message of refusal; creating, destroying and
  registering by nothing; the list of keys by a message and, if that is successful, as many keys as it says;
  SRM data by a message that asks for the data and one with the outcome, or by one of refusal; everything
  else by one message. Every message is well-formed, has the command of the request and a documented status.\<close>

theorem request_is_answered:
  assumes "handle_task E data appId d v = ret (d', v')" "sd_wf data"
    and "calm E out" "sends_all (e_os E) out appId"
  shows "\<exists>rs ks. answers data rs ks \<and> out v' appId = out v appId @ concat (map encode rs) @ ks"
proof -
  have send: "sd_wf r \<Longrightarrow> send_reply E b r appId d1 v1 = ret (d', v') \<Longrightarrow>
      out v' appId = out v1 appId @ (if b then encode r else [])" for b r d1 v1
    by (auto simp: send_reply_def elim!: hdcp_elims split: if_splits dest: sent_response [OF _ assms(4)])
  show ?thesis
  proof (cases "sd_Size data = of_nat sizeof_SocketData")
    case False
    let ?r = "(status HDCP_STATUS_ERROR_INVALID_PARAMETER data)\<lparr>sd_Size := of_nat sizeof_SocketData\<rparr>"
    have wf: "sd_wf ?r" using assms(2) by simp
    have run: "send_reply E True ?r appId d v = ret (d', v')" using assms(1) False by (simp add: handle_task_def)
    have "answers data [?r] []" using False wf by (simp add: answers_def reply_def Let_def)
    with send [OF wf run] show ?thesis by (intro exI [of _ "[?r]"] exI [of _ "[]"]) simp
  next
    case True
    from assms(1) True obtain due r d1 v1 where dis: "DispatchCommand E data appId d v = ret ((due, r, d1), v1)"
      and run: "send_reply E due r appId d1 v1 = ret (d', v')"
      by (auto simp: handle_task_def elim!: hdcp_elims)
    from DispatchCommand_answers [OF dis assms(3,4,2) True] obtain rs ks
      where a: "answers data (rs @ (if due then [r] else [])) ks" "due \<longrightarrow> ks = []"
        "out v1 appId = out v appId @ concat (map encode rs) @ ks" "due \<longrightarrow> sd_wf r" .
    have "out v' appId = out v1 appId @ (if due then encode r else [])"
      using send [OF _ run] run a(4) by (cases due) (auto simp: send_reply_def)
    with a show ?thesis
      by (intro exI [of _ "rs @ (if due then [r] else [])"] exI [of _ ks]) simp
  qed
qed

theorem request_is_answered_witness:
  "\<exists>rs ks. answers (request example_mem HDCP_API_GETSRMVERSION) rs ks \<and>
    encode (status HDCP_STATUS_SUCCESSFUL ((request example_mem HDCP_API_GETSRMVERSION)\<lparr>sd_SrmVersion := srm_Version example_table\<rparr>)) =
      concat (map encode rs) @ ks"
proof -
  let ?req = "request example_mem HDCP_API_GETSRMVERSION"
  let ?rsp = "status HDCP_STATUS_SUCCESSFUL (?req\<lparr>sd_SrmVersion := srm_Version example_table\<rparr>)"
  have wf: "sd_wf ?req" using request_wf [OF example_mem_wf] .
  have table: "g_pSrmTable demo_daemon = Some example_table" by (simp add: demo_daemon_def)
  from wf have "SendResponse sending_os ?rsp 5 [] = ret (SUCCESS, [] @ encode ?rsp)" by (intro sending_response) simp
  then have run: "handle_task sending_env ?req 5 demo_daemon [] = ret (demo_daemon, encode ?rsp)"
    by (simp add: handle_task_def DispatchCommand_def replies_def GetSRMVersion_def GetSrmVersion_def
        SrmTable_GetSrmVersion_def send_reply_def sending_env_def table)
  have calm: "calm sending_env (\<lambda>w fd. w)"
    by (simp add: calm_def quiet_def sending_env_def sending_os_def idle_simps)
  have all: "sends_all (e_os sending_env) (\<lambda>w fd. w) 5" using sending_all by (simp add: sending_env_def)
  from request_is_answered [OF run wf calm all] show ?thesis by (simp only: append_Nil)
qed

end
