(* ===== verification/EndToEndKeys.thy ===== *)
theory EndToEndKeys
  imports Answers
begin

text \<open>
  The topology behind a port through the whole system: from the driver's blob to the buffers of the
  application.
\<close>

section \<open>The daemon's part\<close>

lemma PM_GetKsvList_keys:
  assumes "GetDownstreamInfo D pm (GetDrmObjectByPortId pm port) w = Ret ((SUCCESS, Some bs), w1)"
    and "length bs = sizeof_DownstreamInfo" "length buf = MAX_KSV_COUNT * KSV_SIZE"
    and "n = ucast (un32 (chunk 12 4 bs) + 1)" "unat (n :: u8) < MAX_KSV_COUNT"
  shows "\<exists>rest. PM_GetKsvList D pm port c dp buf w =
    Ret ((SUCCESS, n, bs ! 11 + 1, chunk 5 KSV_SIZE bs @ take (KSV_SIZE * unat n) (drop 16 bs) @ rest), w1) \<and>
    length rest + KSV_SIZE * Suc (unat n) = MAX_KSV_COUNT * KSV_SIZE"
proof -
  have len: "length (chunk 16 635 bs) = 635" "length (chunk 5 5 bs) = 5" using assms(2) by simp_all
  let ?ksvs = "take (5 * unat n) (drop 16 bs)"
  have w0: "wr_range buf 0 (chunk 5 5 bs) = Ret (chunk 5 5 bs @ drop 5 buf)" using assms(3) len by simp
  have "rd_range (chunk 16 635 bs) 0 (unat n * 5) = Ret ?ksvs"
    using assms(5) len by (subst rd_range_in) (simp_all add: chunk_def min_def mult.commute)
  moreover have "length ?ksvs = 5 * unat n" using assms(2,5) by simp
  then have "wr_range (chunk 5 5 bs @ drop 5 buf) 5 ?ksvs =
      Ret (chunk 5 5 bs @ ?ksvs @ drop (5 * Suc (unat n)) buf)"
    using assms(3,5) len by (subst wr_range_in) (simp_all add: add.commute)
  ultimately show ?thesis
    using assms w0 by (simp add: PM_GetKsvList_def decode_downstream_def Let_def)
qed

text \<open>\<open>topology\<close>: what the driver says about a port, whenever it is asked.\<close>

definition topology :: "'w drm_api \<Rightarrow> PortManager \<Rightarrow> u32 \<Rightarrow> u8 list \<Rightarrow> bool" where
  "topology D pm port bs \<longleftrightarrow> length bs = sizeof_DownstreamInfo \<and>
     (\<forall>w. \<exists>w'. GetDownstreamInfo D pm (GetDrmObjectByPortId pm port) w = Ret ((SUCCESS, Some bs), w'))"

lemma keys_handled:
  assumes "topology (e_drm E) pm port bs" "n = ucast (un32 (chunk 12 4 bs) + 1)" "unat (n :: u8) < MAX_KSV_COUNT"
    and "unat (bs ! 11 + 1) \<le> MAX_TOPOLOGY_DEPTH" "g_portMgr d = Some pm" "\<forall>k w. fst (os_new (e_os E) k w)"
    and "calm E out" "sends_all (e_os E) out appId" "sd_wf data" "sd_Size data = of_nat sizeof_SocketData"
    and "sd_Command data = api HDCP_API_GETKSVLIST" "sd_PortCount data = 1" "Port_Id (SinglePort data) = port" "\<not> PORT_ID_MAX < port"
  defines "rsp \<equiv> status HDCP_STATUS_SUCCESSFUL (data\<lparr>sd_KsvCount := n, sd_Depth := bs ! 11 + 1\<rparr>)"
  shows "\<exists>v'. handle_task E data appId d v = ret (d, v') \<and>
    out v' appId = out v appId @ encode rsp @ take (KSV_SIZE * unat n) (chunk 5 KSV_SIZE bs @ drop 16 bs)"
proof -
  have bs: "length bs = sizeof_DownstreamInfo" using assms(1) by (simp add: topology_def)
  obtain v1 where new: "os_new (e_os E) 635 v = (True, v1)" using assms(6) by (metis prod.collapse eq_fst_iff)
  have o1: "out v1 = out v" using calmD(3) [OF assms(7) new] .
  obtain v2 where info: "GetDownstreamInfo (e_drm E) pm (GetDrmObjectByPortId pm port) v1 = Ret ((SUCCESS, Some bs), v2)"
    using assms(1) unfolding topology_def by blast
  obtain rest where list: "PM_GetKsvList (e_drm E) pm port (sd_KsvCount data) (sd_Depth data) (fresh E 635 v1) v1 =
      Ret ((SUCCESS, n, bs ! 11 + 1, chunk 5 5 bs @ take (5 * unat n) (drop 16 bs) @ rest), v2)"
    and rest: "length rest + 5 * Suc (unat n) = 635"
    using PM_GetKsvList_keys [OF info bs _ assms(2,3), of "fresh E 635 v1"] by auto
  let ?ks = "chunk 5 5 bs @ take (5 * unat n) (drop 16 bs) @ rest"
  have o2: "out v2 = out v1"
    using GetKsvList_calm [OF _ assms(7), of "Some pm" port "sd_KsvCount data" "sd_Depth data" "fresh E 635 v1" v1] list
    by (simp add: PortManagerGetKsvList_def)
  have wf: "sd_wf rsp" using assms(9) by (simp add: rsp_def)
  obtain v3 where r: "SendResponse (e_os E) rsp appId v2 = ret (SUCCESS, v3)" and o3: "out v3 appId = out v2 appId @ encode rsp"
    using sends_all_response [OF assms(8) wf, of v2] .
  have len: "length (chunk 5 5 bs) = 5" "length (take (5 * unat n) (drop 16 bs)) = 5 * unat n"
    using bs assms(3) by simp_all
  then have all: "unat n * 5 \<le> length ?ks" using rest by simp
  obtain v4 where k: "SendKsvListData (e_os E) (Some ?ks) (uint n * 5) appId v3 = ret (SUCCESS, v4)"
    and o4: "out v4 appId = out v3 appId @ take (unat n * 5) ?ks"
    using keys_sent [OF assms(8), of "unat n * 5" ?ks v3] all assms(3) by auto
  have front: "take (unat n * 5) ?ks = take (5 * unat n) (chunk 5 5 bs @ drop 16 bs)"
    using len by (simp add: mult.commute)
  have "GetKsvList E data appId d v = ret ((rsp, d), v4)"
    unfolding GetKsvList_def using assms(3-5,12-14) new list r k
    by (simp add: rsp_def PortManagerGetKsvList_def)
  then have "handle_task E data appId d v = ret (d, v4)"
    using assms(10,11) by (simp add: handle_task_def DispatchCommand_def replies_def send_reply_def rsp_def)
  with o1 o2 o3 o4 front show ?thesis by simp
qed

section \<open>The client's part\<close>

lemma linked_keys:
  assumes "out v appId = pre @ ks" "n = length pre" "length ks = KSV_SIZE * unat k" "length ks \<le> length buf"
    and "0 < unat k" "unat k \<le> MAX_KSV_COUNT" "m_Fd s \<noteq> -1"
  shows "ReceiveKsvList (linked E appId out) s (Some buf) k (d, v, n) =
    ret ((SUCCESS, Some (ks @ drop (length ks) buf)), (d, v, n + length ks))"
proof -
  have k: "k \<noteq> 0" using assms(5) by auto
  have ks: "ks \<noteq> []" using assms(3,5) by auto
  have "read_loop (linked E appId out) (m_Fd s) buf (int (length ks)) 0 (d, v, n) =
      ret ((SUCCESS, ks @ drop (length ks) buf), (d, v, n + length ks))"
    using assms(1,2,4) ks
    by (subst read_loop.simps) (simp add: linked_def idle_simps Let_def, subst read_loop.simps, simp)
  with k assms(3,6,7) show ?thesis by (simp add: ReceiveKsvList_def ReadData_def mult.commute)
qed

text \<open>C24: The topology of a port through the whole system: if the driver reports a topology whose count of keys,
  a byte with one more than the number of devices, is between 1 and 126, and whose depth is at most
  seven, an application that asks for the keys of the port gets this count, the depth, and in the front of
  its buffer the key of the sink followed by those of the devices; the rest of its buffer, the daemon and
  the port manager are as they were, and nothing the daemon sent is left unread. The bytes of a key arrive
  in the order in which the driver gives them, which is little-endian for the sink and for the devices
  of HDCP 1.4, although the interface of the library promises big-endian keys.\<close>

theorem ksv_list_end_to_end:
  assumes "sm_inv sm" "find (has_handle sm h) (sm_SessionList sm) = Some p"
    and "m_Fd (ss_SdkSocket (the (sm_Heap sm p))) \<noteq> -1"
    and "g_portMgr d = Some pm" "topology (e_drm E) pm port bs" "port \<le> 5"
    and "k = ucast (un32 (chunk 12 4 bs) + 1)" "0 < unat k" "unat k < MAX_KSV_COUNT"
    and "unat (bs ! 11 + 1) \<le> MAX_TOPOLOGY_DEPTH" "\<forall>m w. fst (os_new (e_os E) m w)"
    and "calm E out" "sends_all (e_os E) out appId" "n = length (out v appId)" "sd_wf (mem (d, v, n))"
    and "length buf = MAX_KSV_COUNT * KSV_SIZE"
  shows "\<exists>v'. HDCPGetKsvList (linked E appId out) mem h port (Some c0) (Some d0) (Some buf) sm (d, v, n) =
      ret ((st HDCP_STATUS_SUCCESSFUL, (Some k, Some (bs ! 11 + 1),
        Some (chunk 5 KSV_SIZE bs @ take (KSV_SIZE * (unat k - 1)) (drop 16 bs) @ drop (KSV_SIZE * unat k) buf)), sm),
        (d, v', n + 100 + KSV_SIZE * unat k)) \<and>
    length (out v' appId) = n + 100 + KSV_SIZE * unat k"
proof -
  let ?s = "ss_SdkSocket (the (sm_Heap sm p))" and ?req = "port_request (mem (d, v, n)) HDCP_API_GETKSVLIST port"
  let ?rsp = "status HDCP_STATUS_SUCCESSFUL (?req\<lparr>sd_KsvCount := k, sd_Depth := bs ! 11 + 1\<rparr>)"
  let ?ks = "take (KSV_SIZE * unat k) (chunk 5 KSV_SIZE bs @ drop 16 bs)"
  have bs: "length bs = sizeof_DownstreamInfo" using assms(5) by (simp add: topology_def)
  have ok: "\<not> PORT_ID_MAX < port" "\<not> of_nat NUM_PHYSICAL_PORTS_MAX < port" using assms(6) by simp_all
  have wf: "sd_wf ?req" using port_request_wf [OF assms(15)] .
  have id: "Port_Id (SinglePort ?req) = port"
  proof -
    have "sd_wf ((request (mem (d, v, n)) HDCP_API_GETKSVLIST)\<lparr>sd_PortCount := 1\<rparr>)"
      using request_wf [OF assms(15)] by (simp add: sd_wf_def)
    then show ?thesis by (auto elim!: sd_wf_obtains simp: port_request_def set_SinglePort_def SinglePort_def)
  qed
  obtain v' where h: "handle_task E ?req appId d v = ret (d, v')"
    and o: "out v' appId = out v appId @ encode ?rsp @ ?ks"
    using keys_handled [OF assms(5,7,9,10,4,11,12,13) wf _ _ _ id ok(1)] by (auto simp: port_request_def set_SinglePort_def)
  have rsp: "sd_wf ?rsp" using wf by simp
  have "length (encode ?rsp) = 100" using rsp by simp
  then have pre: "n + 100 = length (out v appId @ encode ?rsp)" using assms(14) by simp
  have len: "length ?ks = KSV_SIZE * unat k" using bs assms(9) by simp
  have t: "PerformMessageTransaction (linked E appId out) ?s ?req (d, v, n) = ret ((sd_Status ?rsp, ?rsp), (d, v', n + 100))"
    using linked_exchange [where out = out, OF h o wf rsp assms(3,14)] .
  have r: "ReceiveKsvList (linked E appId out) ?s (Some buf) k (d, v', n + 100) =
      ret ((SUCCESS, Some (?ks @ drop (length ?ks) buf)), (d, v', n + 100 + length ?ks))"
    using linked_keys [where out = out, OF _ pre len _ assms(8) _ assms(3)] o assms(9,16) len by simp
  have split: "?ks = chunk 5 KSV_SIZE bs @ take (KSV_SIZE * (unat k - 1)) (drop 16 bs)"
    using bs assms(8) by (simp add: diff_mult_distrib2)
  have "HDCPGetKsvList (linked E appId out) mem h port (Some c0) (Some d0) (Some buf) sm (d, v, n) =
      ret ((st HDCP_STATUS_SUCCESSFUL, (Some k, Some (bs ! 11 + 1), Some (?ks @ drop (length ?ks) buf)), sm), (d, v', n + 100 + length ?ks))"
    using t r ok by (simp add: HDCPGetKsvList_def with_session_eq [OF assms(1)] assms(2) Session_GetKsvList_def)
  moreover have "length (out v' appId) = n + 100 + KSV_SIZE * unat k" using o pre len by simp
  ultimately show ?thesis using len split by (metis append.assoc)
qed

text \<open>A driver that reports one device behind the sink.\<close>

definition pair_blob :: "u8 list" where
  "pair_blob = replicate 5 0 @ [1, 2, 3, 4, 5, 0, 1, 1, 0, 0, 0, 6, 7, 8, 9, 10] @ replicate 631 0"

definition pair_env :: "u8 list env" where
  "pair_env = sending_env\<lparr>e_drm := idle_drm\<lparr>drmModeObjectGetProperties := (\<lambda>fd i. Pair (Some [(3, 9)])),
     drmModeGetPropertyBlob := (\<lambda>fd i. Pair (Some (Some pair_blob)))\<rparr>\<rparr>"

theorem ksv_list_end_to_end_witness:
  "\<exists>v'. HDCPGetKsvList (linked pair_env 5 (\<lambda>w fd. w)) linked_mem 1 0 (Some 0) (Some 0) (Some (replicate 635 0))
      demo_client (demo_daemon, [], 0) =
    ret ((st HDCP_STATUS_SUCCESSFUL, (Some 2, Some 2, Some ([1, 2, 3, 4, 5] @ [6, 7, 8, 9, 10] @ replicate 625 0)), demo_client),
      (demo_daemon, v', 110))"
proof -
  let ?bs = pair_blob
  have len: "length ?bs = sizeof_DownstreamInfo" by (simp add: pair_blob_def)
  have mgr: "g_portMgr demo_daemon = Some demo_pm" by (simp add: demo_daemon_def)
  have top: "topology (e_drm pair_env) demo_pm 0 ?bs"
    using len by (simp add: topology_def GetDownstreamInfo_def GetDrmObjectByPortId_def demo_pm_def demo_object_def
        DrmObject_new_def pair_env_def idle_simps)
  have k: "2 = (ucast (un32 (chunk 12 4 ?bs) + 1) :: u8)"
    by (simp add: pair_blob_def chunk_def un32_def)
  have depth: "?bs ! 11 + 1 = 2" by (simp add: pair_blob_def nth_append)
  have calm: "calm pair_env (\<lambda>w fd. w)"
    by (simp add: calm_def quiet_def pair_env_def sending_env_def sending_os_def idle_simps)
  have all: "sends_all (e_os pair_env) (\<lambda>w fd. w) 5" using sending_all by (simp add: pair_env_def sending_env_def)
  have new: "\<forall>m w. fst (os_new (e_os pair_env) m w)" by (simp add: pair_env_def sending_env_def sending_os_def idle_simps)
  have keys: "chunk 5 KSV_SIZE ?bs = [1, 2, 3, 4, 5]" "take 5 (drop 16 ?bs) = [6, 7, 8, 9, 10]"
    by (simp_all add: pair_blob_def chunk_def)
  from ksv_list_end_to_end [where mem = linked_mem and buf = "replicate 635 0" and n = 0 and v = "[]" and ?c0.0 = 0 and ?d0.0 = 0,
      OF demo_client_inv demo_client_socket mgr top _ k _ _ _ new calm all]
  show ?thesis unfolding depth keys by (auto simp: linked_mem_def example_mem_wf keys)
qed

end
