(* ===== verification/EndToEndSrm.thy ===== *)
theory EndToEndSrm
  imports Answers
begin

text \<open>
  The upload of a system renewability message, which takes two rounds: the client announces the size, the
  daemon agrees, the client sends the message, the daemon says what became of it. Since the daemon's
  handler waits for the client in between, the two sides are put together by their streams: what one
  sends is what the other reads.
\<close>

section \<open>The daemon's part\<close>

lemma Retrieve_failed:
  "RetrieveSrmFromBuffer os S t buf w = ret ((sts, t'), w') \<Longrightarrow> sts \<noteq> SUCCESS \<Longrightarrow> t' = t"
  unfolding RetrieveSrmFromBuffer_def Let_def
  by (auto elim!: hdcp_elims split: option.splits prod.splits if_splits)

text \<open>\<open>inbox\<close>: \<open>inc\<close> is what the clients will have sent; allocating and sending do not consume it.\<close>

definition inbox :: "'v env \<Rightarrow> ('v \<Rightarrow> int \<Rightarrow> u8 list) \<Rightarrow> bool" where
  "inbox E inc \<longleftrightarrow> reads_in_order (e_os E) inc \<and> (\<forall>n w. inc (snd (os_new (e_os E) n w)) = inc w) \<and>
     (\<forall>fd bs w. inc (snd (os_send (e_os E) fd bs w)) = inc w)"

lemma SendResponse_inbox:
  assumes "SendResponse (e_os E) r fd w = ret (sts, w')" "inbox E inc" "sends_all (e_os E) out fd" "sd_wf r"
  shows "sts = SUCCESS \<and> inc w' = inc w"
proof -
  have len: "length (encode r) = 100" using assms(4) by simp
  obtain w1 where s: "os_send (e_os E) fd (encode r) w = (Inr (length (encode r)), w1)" and fd: "fd \<noteq> -1"
    using assms(3) unfolding sends_all_def by blast
  have "SendResponse (e_os E) r fd w = ret (SUCCESS, w1)"
    using len s fd by (simp add: SendResponse_def WriteData_def)
      (subst write_loop.simps, simp, subst write_loop.simps, simp)
  moreover have "inc w1 = inc w" using assms(2) s unfolding inbox_def by (metis snd_conv)
  ultimately show ?thesis using assms(1) by simp
qed

lemma GetSrmData_inbox:
  assumes "GetSrmData (e_os E) (Some buf) (int (length buf)) fd w = ret ((SUCCESS, data), w')" "inbox E inc"
    and "inc w fd = srm @ rest" "length srm = length buf" "length buf < 2 ^ 32"
  shows "data = Some srm"
proof -
  have "ReadData (e_os E) fd (Some buf) (int (length buf)) w = ret ((SUCCESS, data), w')"
    using assms(1) by (simp add: GetSrmData_def split: if_splits)
  then show ?thesis
  proof (rule ReadData_partial)
    show "reads_in_order (e_os E) inc" using assms(2) by (simp add: inbox_def)
    fix sts got v
    assume "Ret ((SUCCESS, data), w') = Ret ((sts, Some (got @ drop (length got) buf)), v)"
      "inc w fd = got @ inc v fd" "sts = SUCCESS \<Longrightarrow> fd \<noteq> -1 \<and> length got = nat (int (length buf))"
    with assms(3,4) show ?thesis by (simp add: append_eq_append_conv)
  qed (use assms(5) in simp_all)
qed

text \<open>What a reply about SRM data means for the table.\<close>

definition srm_outcome :: "'v env \<Rightarrow> u8 list \<Rightarrow> HdcpDaemon \<Rightarrow> u32 \<Rightarrow> HdcpDaemon \<Rightarrow> bool" where
  "srm_outcome E srm d sts d' \<longleftrightarrow>
     (sts = st HDCP_STATUS_SUCCESSFUL \<longrightarrow> (\<exists>t t' v1 v2. g_pSrmTable d = Some t \<and>
        RetrieveSrmFromBuffer (e_os E) (e_ssl E) t (Some srm) v1 = ret ((SUCCESS, t'), v2) \<and>
        d' = d\<lparr>g_pSrmTable := Some t'\<rparr>)) \<and>
     (sts \<in> {st HDCP_STATUS_ERROR_SRM_INVALID, st HDCP_STATUS_ERROR_SRM_NOT_RECENT} \<longrightarrow> d' = d)"

lemma StoreSrm_outcome:
  assumes "StoreSrm (e_os E) (e_ssl E) (g_pSrmTable d) srm v = ret ((sts, g), v')"
  shows "(sts = SUCCESS \<longrightarrow> srm_outcome E srm d (st HDCP_STATUS_SUCCESSFUL) (d\<lparr>g_pSrmTable := g\<rparr>)) \<and>
    (sts = EINVAL \<or> sts = EAGAIN \<longrightarrow> d\<lparr>g_pSrmTable := g\<rparr> = d)"
proof (cases "g_pSrmTable d")
  case None
  with assms show ?thesis by (simp add: StoreSrm_def)
next
  case (Some t)
  with assms obtain s1 t1 v1 where r: "RetrieveSrmFromBuffer (e_os E) (e_ssl E) t (Some srm) v = ret ((s1, t1), v1)"
    and g: "g = Some t1" "s1 \<noteq> SUCCESS \<Longrightarrow> sts = s1" "s1 = SUCCESS \<Longrightarrow> sts = SUCCESS \<or> sts = EIO"
    unfolding StoreSrm_def Let_def
    by (auto elim!: hdcp_elims split: option.splits prod.splits sum.splits if_splits)
  show ?thesis
  proof (cases "s1 = SUCCESS")
    case True
    with r g Some show ?thesis by (auto simp: srm_outcome_def)
  next
    case False
    with Retrieve_failed [OF r False] g Some show ?thesis by auto
  qed
qed

lemma SendSRMData_stores:
  assumes "SendSRMData E data a d w = ret ((r, d'), w')" "inbox E inc" "sends_all (e_os E) out a" "sd_wf data"
    and "inc w a = srm @ rest" "length srm = unat (sd_SrmOrKsvListDataSz data)"
  shows "srm_outcome E srm d (sd_Status r) d'"
proof -
  have new: "os_new (e_os E) n w = (ok, w1) \<Longrightarrow> inc w1 = inc w" for n ok w1
    using assms(2) unfolding inbox_def by (metis snd_conv)
  have sent: "SendResponse (e_os E) m a w = ret (sts, w1) \<Longrightarrow> sd_wf m \<Longrightarrow> sts = SUCCESS \<and> inc w1 = inc w" for m sts w w1
    using SendResponse_inbox [OF _ assms(2,3)] by blast
  let ?n = "unat (sd_SrmOrKsvListDataSz data)"
  have got: "GetSrmData (e_os E) (Some (fresh E ?n u)) (uint (sd_SrmOrKsvListDataSz data)) a v = ret ((SUCCESS, x), v') \<Longrightarrow>
      inc v = inc w \<Longrightarrow> x = Some srm" for u v x v'
    using GetSrmData_inbox [of E "fresh E ?n u" a v x v' inc srm rest] assms(2,5,6) unsigned_less [of "sd_SrmOrKsvListDataSz data"]
    by simp
  show ?thesis
  proof (cases "SRM_FIRST_GEN_MAX_SIZE < sd_SrmOrKsvListDataSz data")
    case True
    with assms(1) show ?thesis by (auto simp: SendSRMData_def Let_def srm_outcome_def)
  next
    case False
    obtain ok w1 where n: "os_new (e_os E) ?n w = (ok, w1)" by fastforce
    let ?data = "status HDCP_STATUS_SUCCESSFUL data"
    have wf: "sd_wf ?data" using assms(4) by simp
    show ?thesis
    proof (cases ok)
      case False
      with n assms(1) \<open>\<not> SRM_FIRST_GEN_MAX_SIZE < sd_SrmOrKsvListDataSz data\<close> show ?thesis
        by (auto simp: SendSRMData_def Let_def srm_outcome_def)
    next
      case True
      with n False assms(1) obtain s1 w2 where r1: "SendResponse (e_os E) ?data a w1 = ret (s1, w2)"
        by (auto simp: SendSRMData_def Let_def elim!: hdcp_elims)
      from sent [OF r1 wf] new [OF n] have s1: "s1 = SUCCESS" "inc w2 = inc w" by simp_all
      from n True False assms(1) r1 s1(1) obtain s2 x w3 where
        r2: "GetSrmData (e_os E) (Some (fresh E ?n w1)) (uint (sd_SrmOrKsvListDataSz data)) a w2 = ret ((s2, x), w3)"
        by (auto simp: SendSRMData_def Let_def elim!: hdcp_elims)
      show ?thesis
      proof (cases "s2 = SUCCESS")
        case bad: False
        with n True False assms(1) r1 s1(1) r2 show ?thesis by (auto simp: SendSRMData_def Let_def srm_outcome_def)
      next
        case good: True
        have x: "x = Some srm" using got [OF r2 [unfolded good] s1(2)] .
        from n True False assms(1) r1 s1(1) r2 good x obtain s3 g w4 where
          r3: "StoreSrm (e_os E) (e_ssl E) (g_pSrmTable d) srm w3 = ret ((s3, g), w4)"
          by (auto simp: SendSRMData_def Let_def elim!: hdcp_elims)
        note store = StoreSrm_outcome [OF r3]
        show ?thesis
        proof (cases "s3 = SUCCESS")
          case True
          with n \<open>ok\<close> False assms(1) r1 s1(1) r2 good x r3 have "d' = d\<lparr>g_pSrmTable := g\<rparr>"
            "sd_Status r = st HDCP_STATUS_SUCCESSFUL \<or> sd_Status r = st HDCP_STATUS_ERROR_INTERNAL"
            by (auto simp: SendSRMData_def Let_def elim!: hdcp_elims split: if_splits)
          with store True show ?thesis by (elim disjE) (simp_all add: srm_outcome_def)
        next
          case bad: False
          with n \<open>ok\<close> False assms(1) r1 s1(1) r2 good x r3 have "r = status (srm_error s3) ?data" "d' = d\<lparr>g_pSrmTable := g\<rparr>"
            by (auto simp: SendSRMData_def Let_def)
          with bad store show ?thesis by (auto simp: srm_outcome_def srm_error_def)
        qed
      qed
    qed
  qed
qed

section \<open>The client's part\<close>

text \<open>\<open>connection\<close>: \<open>inc w\<close> is all the other side will send, in order, \<open>out w\<close> all that was sent to it.\<close>

definition connection :: "'c os_api \<Rightarrow> ('c \<Rightarrow> u8 list) \<Rightarrow> ('c \<Rightarrow> u8 list) \<Rightarrow> int \<Rightarrow> bool" where
  "connection C inc out fd \<longleftrightarrow> fd \<noteq> -1 \<and>
     (\<forall>bs w. \<exists>w'. os_send C fd bs w = (Inr (length bs), w') \<and> out w' = out w @ bs \<and> inc w' = inc w) \<and>
     (\<forall>n w. \<exists>w'. os_read C fd n w = (Inr (take n (inc w)), w') \<and> inc w' = drop n (inc w) \<and> out w' = out w)"

lemma connection_write:
  assumes "connection C inc out fd" "bs \<noteq> []"
  shows "\<exists>w'. WriteData C fd (Some bs) (int (length bs)) w = ret (SUCCESS, w') \<and> out w' = out w @ bs \<and> inc w' = inc w"
proof -
  obtain w' where s: "os_send C fd bs w = (Inr (length bs), w')" and o: "out w' = out w @ bs" "inc w' = inc w" and fd: "fd \<noteq> -1"
    using assms(1) unfolding connection_def by blast
  have "WriteData C fd (Some bs) (int (length bs)) w = ret (SUCCESS, w')"
    using s fd assms(2) by (simp add: WriteData_def) (subst write_loop.simps, simp, subst write_loop.simps, simp)
  with o show ?thesis by blast
qed

lemma connection_read:
  assumes "connection C inc out fd" "inc w = bs @ rest" "length buf = length bs" "bs \<noteq> []"
  shows "\<exists>w'. ReadData C fd (Some buf) (int (length bs)) w = ret ((SUCCESS, Some bs), w') \<and> inc w' = rest \<and> out w' = out w"
proof -
  obtain w' where s: "os_read C fd (length bs) w = (Inr bs, w')" and o: "inc w' = rest" "out w' = out w" and fd: "fd \<noteq> -1"
    using assms(1) [unfolded connection_def, THEN conjunct2, THEN conjunct2, THEN spec, of "length bs", THEN spec, of w] assms(1,2)
    by (auto simp: connection_def)
  have "ReadData C fd (Some buf) (int (length bs)) w = ret ((SUCCESS, Some bs), w')"
    using s fd assms(3,4) by (simp add: ReadData_def) (subst read_loop.simps, simp, subst read_loop.simps, simp)
  with o show ?thesis by blast
qed

lemma connection_message:
  assumes "connection C inc out (m_Fd s)" "inc w = encode r @ rest" "sd_wf r" "sd_wf buf"
  shows "\<exists>w'. GetMessage C s buf w = ret ((SUCCESS, r), w') \<and> inc w' = rest \<and> out w' = out w"
proof -
  have len: "length (encode r) = 100" "length (encode buf) = 100" using assms(3,4) by simp_all
  then have "encode r \<noteq> []" by auto
  from connection_read [OF assms(1,2) _ this, of "encode buf"] len assms(3) show ?thesis
    by (auto simp: GetMessage_def read_message_def decode_encode)
qed

lemma connection_transaction:
  assumes "connection C inc out (m_Fd s)" "inc w = encode r @ rest" "sd_wf r" "sd_wf data"
  shows "\<exists>w'. PerformMessageTransaction C s data w = ret ((sd_Status r, r), w') \<and> inc w' = rest \<and>
    out w' = out w @ encode data"
proof -
  have len: "length (encode data) = 100" using assms(4) by simp
  then have "encode data \<noteq> []" by auto
  from connection_write [OF assms(1) this, of w] len obtain w1
    where w1: "SendMessage C s data w = ret (SUCCESS, w1)" "out w1 = out w @ encode data" "inc w1 = inc w"
    by (auto simp: SendMessage_def)
  from connection_message [OF assms(1) _ assms(3,4), of w1 rest] w1 assms(2) show ?thesis
    by (auto simp: PerformMessageTransaction_def)
qed

lemma connection_upload:
  assumes "connection C cin cout (m_Fd s)" "sd_wf (mem w)" "0 < length srm" "length srm \<le> 5116"
    and "req = (request (mem w) HDCP_API_SENDSRMDATA)\<lparr>sd_SrmOrKsvListDataSz := of_nat (length srm)\<rparr>"
    and "sd_wf r" "cin w = encode r \<and> \<not> successful r \<or> (\<exists>m. sd_wf m \<and> successful m \<and> cin w = encode m @ encode r)"
  shows "\<exists>w'. Session_SendSRMData C mem s (of_nat (length srm)) (Some srm) w = ret (sd_Status r, w') \<and> cin w' = [] \<and>
    (cout w' = cout w @ encode req @ srm \<or> cout w' = cout w @ encode req \<and> \<not> successful r)"
proof -
  have req: "sd_wf req" using request_wf [OF assms(2)] assms(5) by (simp add: sd_wf_def)
  have size: "sint (of_nat (length srm) :: u32) = int (length srm)"
    using assms(4) by (simp add: signed_of_nat signed_take_bit_int_eq_self)
  from assms(7) show ?thesis
  proof
    assume a: "cin w = encode r \<and> \<not> successful r"
    then have "cin w = encode r @ []" by simp
    from connection_transaction [OF assms(1) this assms(6) req] obtain w1 where
      "PerformMessageTransaction C s req w = ret ((sd_Status r, r), w1)" "cin w1 = []" "cout w1 = cout w @ encode req" by blast
    with a show ?thesis by (simp add: Session_SendSRMData_def assms(5) successful_def)
  next
    assume "\<exists>m. sd_wf m \<and> successful m \<and> cin w = encode m @ encode r"
    then obtain m where m: "sd_wf m" "successful m" "cin w = encode m @ encode r" by blast
    from connection_transaction [OF assms(1) m(3,1) req] obtain w1 where
      t: "PerformMessageTransaction C s req w = ret ((sd_Status m, m), w1)" "cin w1 = encode r" "cout w1 = cout w @ encode req" by blast
    from connection_write [OF assms(1), of srm w1] assms(3,4) obtain w2 where
      d: "SendSrmData_sock C s (Some srm) (int (length srm)) w1 = ret (SUCCESS, w2)" "cout w2 = cout w1 @ srm" "cin w2 = cin w1"
      by (auto simp: SendSrmData_sock_def)
    have "cin w2 = encode r @ []" using t(2) d(3) by simp
    from connection_message [OF assms(1) this assms(6) m(1)] obtain w3 where
      g: "GetMessage C s m w2 = ret ((SUCCESS, r), w3)" "cin w3 = []" "cout w3 = cout w2" by blast
    have "Session_SendSRMData C mem s (of_nat (length srm)) (Some srm) w = ret (sd_Status r, w3)"
      using t(1) m(2) d(1) g(1) size by (simp add: Session_SendSRMData_def assms(5) successful_def)
    with g t d show ?thesis by simp
  qed
qed

text \<open>C23: Uploading an SRM through the whole system: if what each side sends is what the other reads, the
  application that uploads a message gets an answer, and nothing the daemon sent is left unread. If it is
  told of success, its whole message was sent, the module of the daemon accepted exactly this message, and
  the table in force is the one made from it; if it is told that the message is invalid or not recent
  enough, the daemon is as it was.\<close>

theorem srm_upload_end_to_end:
  assumes "sm_inv sm" "find (has_handle sm h) (sm_SessionList sm) = Some p"
    and "connection C cin cout (m_Fd (ss_SdkSocket (the (sm_Heap sm p))))" "sd_wf (mem w)"
    and "8 \<le> length srm" "length srm \<le> 5116"
    and "req = (request (mem w) HDCP_API_SENDSRMDATA)\<lparr>sd_SrmOrKsvListDataSz := of_nat (length srm)\<rparr>"
    and "handle_task E req appId d v = ret (d', v')"
    and "inbox E inc" "inc v appId = srm @ rest" "calm E out" "sends_all (e_os E) out appId"
    and "out v' appId = out v appId @ cin w"
  shows "\<exists>sts w'. HDCPSendSRMData C mem h (of_nat (length srm)) (Some srm) sm w = ret ((sts, (), sm), w') \<and>
    srm_outcome E srm d sts d' \<and> cin w' = [] \<and>
    (sts = st HDCP_STATUS_SUCCESSFUL \<longrightarrow> cout w' = cout w @ encode req @ srm)"
proof -
  let ?s = "ss_SdkSocket (the (sm_Heap sm p))"
  have req: "sd_wf req" "sd_Size req = of_nat sizeof_SocketData" "sd_Command req = api HDCP_API_SENDSRMDATA"
    using request_wf [OF assms(4)] assms(7) by (simp_all add: sd_wf_def)
  have len: "length srm = unat (sd_SrmOrKsvListDataSz req)"
    using assms(6,7) by (simp add: unsigned_of_nat take_bit_eq_mod)
  from assms(8) obtain r d1 v1 where run1: "SendSRMData E req appId d v = ret ((r, d1), v1)"
    and reply: "send_reply E True r appId d1 v1 = ret (d', v')"
    using req by (auto simp: handle_task_def DispatchCommand_def replies_def elim!: hdcp_elims)
  have wf: "sd_wf r" using SendSRMData_answers [OF run1 assms(11,12) req(1,2)] by (simp add: reply_def)
  from reply have d1: "d1 = d'" and o: "out v' appId = out v1 appId @ encode r"
    using sent_response [OF _ assms(12) wf] by (auto simp: send_reply_def elim!: hdcp_elims split: if_splits)
  note run = run1 [unfolded d1]
  note a = SendSRMData_answers [OF run assms(11,12) req(1,2)]
  have got: "cin w = encode r \<and> \<not> successful r \<or> (\<exists>m. sd_wf m \<and> successful m \<and> cin w = encode m @ encode r)"
    using a o assms(13) by (auto simp: reply_def)
  have pos: "0 < length srm" using assms(5) by linarith
  from connection_upload [where cin = cin and cout = cout and mem = mem and w = w, OF assms(3,4) pos assms(6,7) wf got] obtain w' where
    up: "Session_SendSRMData C mem ?s (of_nat (length srm)) (Some srm) w = ret (sd_Status r, w')" "cin w' = []"
      "cout w' = cout w @ encode req @ srm \<or> cout w' = cout w @ encode req \<and> \<not> successful r" by blast
  have "\<not> (of_nat (length srm) :: u32) < 8"
    using assms(5,6) by (simp add: word_less_nat_alt unsigned_of_nat take_bit_eq_mod)
  then have "HDCPSendSRMData C mem h (of_nat (length srm)) (Some srm) sm w = ret ((sd_Status r, (), sm), w')"
    using up(1) by (simp add: HDCPSendSRMData_def with_session_eq [OF assms(1)] assms(2) plain_def)
  moreover have "srm_outcome E srm d (sd_Status r) d'"
    by (rule SendSRMData_stores [OF run assms(9,12) req(1) assms(10) len])
  ultimately show ?thesis using up(2,3) by (auto simp: successful_def)
qed

text \<open>A pipe at both sides, files that can be written, and a signature check that accepts.\<close>

definition upload_os :: "(u8 list \<times> u8 list) os_api" where
  "upload_os = idle_os\<lparr>os_read := (\<lambda>fd n (i, out). (Inr (take n i), (drop n i, out))),
     os_send := (\<lambda>fd bs (i, out). (Inr (length bs), (i, out @ bs))),
     os_open := (\<lambda>p fl. Pair (Inr 9)), os_write := (\<lambda>fd bs. Pair (Inr (length bs)))\<rparr>"

definition upload_env :: "(u8 list \<times> u8 list) env" where
  "upload_env = \<lparr>e_os = upload_os, e_drm = idle_drm, e_gwl = idle_gwl, e_ssl = accepting_ssl,
     e_nl = \<lparr>nl_socket = Pair 3, nl_setsockopt = (\<lambda>fd. Pair 0), nl_bind = (\<lambda>fd. Pair 0),
       nl_recv = (\<lambda>fd n w. (Inl EINTR, w))\<rparr>,
     e_mem = (\<lambda>w. example_mem), e_heap = (\<lambda>w. []), e_killed = (\<lambda>w. False), e_wl = wl_start\<rparr>"

abbreviation (input) upload_request :: SocketData where
  "upload_request \<equiv> (request example_mem HDCP_API_SENDSRMDATA)\<lparr>sd_SrmOrKsvListDataSz := of_nat (length example_srm)\<rparr>"

abbreviation (input) upload_replies :: "u8 list" where
  "upload_replies \<equiv> encode (status HDCP_STATUS_SUCCESSFUL upload_request) @ encode (status HDCP_STATUS_SUCCESSFUL upload_request)"

definition stored_daemon :: HdcpDaemon where
  "stored_daemon = demo_daemon\<lparr>g_pSrmTable := Some (example_table\<lparr>srm_RevocationLists := Some [example_vrl], srm_Version := 1\<rparr>)\<rparr>"

lemma upload_run: "handle_task upload_env upload_request 5 demo_daemon (example_srm, []) = ret (stored_daemon, ([], upload_replies))"
  by code_simp

theorem srm_upload_end_to_end_witness:
  "\<exists>sts w'. HDCPSendSRMData upload_os (\<lambda>w. example_mem) 1 (of_nat (length example_srm)) (Some example_srm) demo_client (upload_replies, []) =
      ret ((sts, (), demo_client), w') \<and> srm_outcome upload_env example_srm demo_daemon sts stored_daemon \<and> fst w' = [] \<and>
      (sts = st HDCP_STATUS_SUCCESSFUL \<longrightarrow> snd w' = [] @ encode upload_request @ example_srm)"
proof -
  let ?w = "(upload_replies, []) :: u8 list \<times> u8 list"
  have conn: "connection upload_os fst snd (m_Fd (ss_SdkSocket (the (sm_Heap demo_client 1))))"
    using demo_client_socket by (auto simp: connection_def upload_os_def)
  have len: "8 \<le> length example_srm" "length example_srm \<le> 5116" by (simp_all add: example_srm_def)
  have inbox: "inbox upload_env (\<lambda>w fd. fst w)"
    by (auto simp: inbox_def reads_in_order_def upload_env_def upload_os_def idle_simps)
  have in0: "fst (example_srm, []) = example_srm @ []" by simp
  have calm: "calm upload_env (\<lambda>w fd. snd w)"
    by (auto simp: calm_def quiet_def upload_env_def upload_os_def idle_simps)
  have all: "sends_all (e_os upload_env) (\<lambda>w fd. snd w) 5" by (auto simp: sends_all_def upload_env_def upload_os_def)
  have out: "snd ([] :: u8 list, upload_replies) = snd (example_srm, []) @ fst ?w" by simp
  show ?thesis
    using srm_upload_end_to_end [where cin = fst and cout = snd and w = ?w and mem = "\<lambda>w. example_mem" and inc = "\<lambda>w fd. fst w"
        and out = "\<lambda>w fd. snd w" and rest = "[]", OF demo_client_inv conn example_mem_wf len refl upload_run inbox in0 calm all out]
    by simp
qed

end
