(* ===== verification/SrmTestKey.thy ===== *)
theory SrmTestKey
  imports Srm
begin

text \<open>
  The test build of \<^verbatim>\<open>src/daemon/srm.cpp\<close> (\<^verbatim>\<open>SRM_ULT_BUILD\<close>), in which the signatures can be checked with
  the public key of the specification's example messages.
\<close>

section \<open>The facsimile key and its switch\<close>

definition g_facsimilePublicKey :: "u8 list" where
  "g_facsimilePublicKey =
    [0x8d, 0x13, 0xe1, 0x9f, 0x34, 0x0e, 0x11, 0xce, 0xb0, 0xdb, 0x95, 0xeb,
     0x3e, 0xb0, 0x74, 0x31, 0x95, 0xdf, 0xc4, 0x02, 0xb7, 0xdc, 0x8c, 0xaa,
     0xc7, 0x75, 0x2e, 0x47, 0xde, 0xd8, 0xe8, 0xc0, 0x0b, 0x11, 0x5f, 0x8e,
     0x5e, 0x08, 0xc7, 0xa6, 0x64, 0xcb, 0xbb, 0xa3, 0x97, 0x86, 0xef, 0xd7,
     0x1c, 0x01, 0x2e, 0x83, 0x94, 0xaf, 0x79, 0xcd, 0x01, 0xf7, 0x22, 0xa0,
     0x92, 0x69, 0x52, 0xe8, 0xde, 0x85, 0x7c, 0xbd, 0x2e, 0x72, 0x95, 0xe6,
     0xb1, 0xd8, 0x8c, 0xc0, 0xff, 0x5d, 0xcc, 0x0a, 0xb1, 0x6d, 0x14, 0xfa,
     0x11, 0xa4, 0x8e, 0xb5, 0x0f, 0xca, 0x83, 0xa3, 0x7e, 0xd1, 0x8d, 0xe1,
     0x6d, 0x97, 0x35, 0x65, 0xdf, 0x8a, 0x78, 0x4e, 0x85, 0x42, 0x96, 0xac,
     0x70, 0x0b, 0x2e, 0x03, 0x0f, 0xd2, 0xa9, 0x81, 0x83, 0xaa, 0x7b, 0x22,
     0xa6, 0x3b, 0x57, 0xbe, 0xe5, 0xc2, 0xb9, 0x46]"

text \<open>The state is \<^verbatim>\<open>g_UseFacsimileKey\<close>.\<close>

definition g_UseFacsimileKey :: bool where
  "g_UseFacsimileKey = False"

definition EnableFacsimileKeyUse :: "bool \<Rightarrow> bool" where
  "EnableFacsimileKeyUse useKey = True"

definition DisableFacsimileKeyUse :: "bool \<Rightarrow> bool" where
  "DisableFacsimileKeyUse useKey = False"

text \<open>
  The function of the test build. It reads \<^verbatim>\<open>sizeof(g_publicKey)\<close> bytes of either key.
\<close>

definition ult_VerifySignature ::
  "bool \<Rightarrow> 'w ssl_api \<Rightarrow> u8 list \<Rightarrow> u32 \<Rightarrow> u8 list \<Rightarrow> u8 list \<Rightarrow> 'w \<Rightarrow> (int \<times> 'w) outcome" where
  "ult_VerifySignature useKey S pMsg msgLen pR pS w =
     (let (dsa, w) = ssl_DSA_new S w in
      if \<not> dsa then Ret (ENOMEM, w) else
      let (sig, w) = ssl_DSA_SIG_new S w in
      if \<not> sig then Ret (ENOMEM, w) else
      let (p, w) = ssl_BN_bin2bn S g_dsaP w;
          (q, w) = ssl_BN_bin2bn S g_dsaQ w;
          (g, w) = ssl_BN_bin2bn S g_dsaG w in
      if ssl_DSA_set0_pqg S p q g \<noteq> DSA_SUCCESS then Ret (EINVAL, w) else
      ubind (rd_range (if useKey then g_facsimilePublicKey else g_publicKey) 0 (length g_publicKey)) (\<lambda>key.
      let (pub_key, w) = ssl_BN_bin2bn S key w in
      if ssl_DSA_set0_key S pub_key \<noteq> DSA_SUCCESS then Ret (EINVAL, w) else
      ubind (rd_range pR 0 DSA_SIG_LENGTH) (\<lambda>rBytes.
      ubind (rd_range pS 0 DSA_SIG_LENGTH) (\<lambda>sBytes.
      let (r, w) = ssl_BN_bin2bn S rBytes w;
          (s, w) = ssl_BN_bin2bn S sBytes w in
      if ssl_DSA_SIG_set0 S r s \<noteq> DSA_SUCCESS then Ret (EINVAL, w) else
      ubind (rd_range pMsg 0 (unat msgLen)) (\<lambda>msg.
      if ssl_DSA_do_verify S (ssl_SHA1 S msg) (r, s) (p, q, g, pub_key) \<noteq> DSA_SUCCESS
      then Ret (EINVAL, w) else Ret (SUCCESS, w))))))"

lemma key_lengths: "length g_facsimilePublicKey = 128" "length g_publicKey = 128"
  by (simp_all add: g_facsimilePublicKey_def g_publicKey_def)

lemma switched_off: "ult_VerifySignature False = VerifySignature"
  by (intro ext) (simp add: ult_VerifySignature_def VerifySignature_def key_lengths split: prod.split)

text \<open>As long as the switch has not been used, or after it was switched back, the test build checks
  signatures exactly as the build that is shipped does.\<close>

theorem test_build_agrees:
  "ult_VerifySignature g_UseFacsimileKey = VerifySignature \<and>
   ult_VerifySignature (DisableFacsimileKeyUse b) = VerifySignature"
  by (simp add: g_UseFacsimileKey_def DisableFacsimileKeyUse_def switched_off)

text \<open>With the switch on, a message accepted is one that OpenSSL accepts under the facsimile key.\<close>

theorem facsimile_key_used:
  assumes "ult_VerifySignature (EnableFacsimileKeyUse b) S msg msgLen pR pS w = Ret (SUCCESS, w')"
  shows "\<exists>r s p q g y. bn_of S (take 20 pR) r \<and> bn_of S (take 20 pS) s \<and> bn_of S g_facsimilePublicKey y \<and>
    ssl_DSA_do_verify S (ssl_SHA1 S (take (unat msgLen) msg)) (r, s) (p, q, g, y) = DSA_SUCCESS"
  using assms unfolding ult_VerifySignature_def EnableFacsimileKeyUse_def Let_def
  by (auto simp: hdcp_bind key_lengths split: prod.splits if_splits) (meson bn_ofI)

theorem facsimile_key_used_witness:
  "\<exists>y. bn_of (accepting_ssl :: unit ssl_api) g_facsimilePublicKey y"
proof -
  have "ult_VerifySignature (EnableFacsimileKeyUse False) accepting_ssl [7] 1 (replicate 20 0) (replicate 20 0) () =
      Ret (SUCCESS, ())"
    by (simp add: ult_VerifySignature_def EnableFacsimileKeyUse_def idle_simps key_lengths)
  from facsimile_key_used [OF this] show ?thesis by blast
qed

end
