(* ===== verification/Stalls.thy ===== *)
theory Stalls
  imports PortThreads DaemonProperties
begin

text \<open>
  What one client can do to everybody else: the daemon transfers messages one after the other and
  waits for each transfer, as the loops of \<^verbatim>\<open>src/common/gensock.cpp\<close> do.
\<close>

section \<open>Peers that stop\<close>

text \<open>
  \<open>unread\<close>: the peer at \<open>fd\<close> does not read, so a send to it never gets through. \<open>silent\<close>: the peer has
  sent what \<open>inc\<close> says and keeps its connection, but sends nothing more. A call that waits is one that
  is tried again and again.
\<close>

definition unread :: "'w os_api \<Rightarrow> int \<Rightarrow> bool" where
  "unread os fd \<longleftrightarrow> fd \<noteq> -1 \<and> (\<forall>bs w. \<exists>e w'. os_send os fd bs w = (Inl e, w') \<and> (e = EINTR \<or> e = EAGAIN))"

definition silent :: "'w os_api \<Rightarrow> ('w \<Rightarrow> u8 list) \<Rightarrow> int \<Rightarrow> bool" where
  "silent os inc fd \<longleftrightarrow> fd \<noteq> -1 \<and> (\<forall>n w. case os_read os fd n w of
     (Inl e, w') \<Rightarrow> (e = EINTR \<or> e = EAGAIN) \<and> inc w' = inc w
   | (Inr bs, w') \<Rightarrow> bs \<noteq> [] \<and> length bs \<le> n \<and> inc w = bs @ inc w')"

lemma write_loop_unread:
  assumes "unread os fd" "rem > 0" "unat offset + nat rem \<le> length data"
  shows "write_loop os fd data rem offset w = None"
proof (rule ccontr)
  assume "write_loop os fd data rem offset w \<noteq> None"
  then obtain r where r: "write_loop os fd data rem offset w = Some r" by blast
  have "unread os fd \<longrightarrow> rem > 0 \<longrightarrow> unat offset + nat rem \<le> length data \<longrightarrow> False"
  proof (rule write_loop.raw_induct [where P = "\<lambda>os fd data rem offset w r.
      unread os fd \<longrightarrow> rem > 0 \<longrightarrow> unat offset + nat rem \<le> length data \<longrightarrow> False", OF _ r], goal_cases)
    case (1 f os fd data rem offset w r)
    show ?case
    proof (intro impI)
      assume a: "unread os fd" "rem > 0" "unat offset + nat rem \<le> length data"
      obtain bs where bs: "rd_range data (unat offset) (nat rem) = Ret bs" using a(3) by (simp add: rd_range_def)
      obtain e w' where s: "os_send os fd bs w = (Inl e, w')" "e = EINTR \<or> e = EAGAIN"
        using a(1) unfolding unread_def by blast
      with 1(2) bs a(2) have "f os fd data rem offset w' = Some r" by auto
      from 1(1) [OF this] a show False by blast
    qed
  qed
  with assms show False by blast
qed

lemma SendResponse_unread: "unread os fd \<Longrightarrow> sd_wf d \<Longrightarrow> SendResponse os d fd w = None"
  using write_loop_unread [of os fd 100 0 "encode d" w] by (simp add: SendResponse_def WriteData_def unread_def)

lemma report_loop_unread:
  "unread os fd \<Longrightarrow> sd_wf d \<Longrightarrow> fd \<in> set fds \<Longrightarrow> report_loop os d fds w \<noteq> ret r"
proof (induction fds arbitrary: w r)
  case (Cons a fds)
  show ?case
  proof (cases "a = fd")
    case True
    with SendResponse_unread [OF Cons.prems(1,2)] show ?thesis by simp
  next
    case False
    with Cons show ?thesis
      by (auto simp: obind_eq_Ret split_beta split: if_splits)
  qed
qed simp

lemma ReportStatus_unread:
  assumes "unread os fd" "\<forall>u. sd_wf (mem u)" "fd \<in> set (m_CallBackList cb)"
  shows "ReportStatus os mem cb e p w \<noteq> ret r"
proof -
  have "sd_wf (status_message (mem w) e p)" using status_message_wf assms(2) by blast
  from report_loop_unread [OF assms(1) this] assms(3) show ?thesis
    by (auto simp: ReportStatus_def acquire_callbacks_def release_callbacks_def Let_def obind_eq_Ret split: if_splits)
qed

lemma read_loop_silent:
  assumes "silent os inc fd" "int (length (inc w)) < rem" "unat offset + nat rem \<le> length data" "length data < 2 ^ 32"
  shows "read_loop os fd data rem offset w = None"
proof (rule ccontr)
  assume "read_loop os fd data rem offset w \<noteq> None"
  then obtain r where r: "read_loop os fd data rem offset w = Some r" by blast
  have "silent os inc fd \<longrightarrow> int (length (inc w)) < rem \<longrightarrow> unat offset + nat rem \<le> length data \<longrightarrow> length data < 2 ^ 32 \<longrightarrow> False"
  proof (rule read_loop.raw_induct [where P = "\<lambda>os fd data rem offset w r.
      silent os inc fd \<longrightarrow> int (length (inc w)) < rem \<longrightarrow> unat offset + nat rem \<le> length data \<longrightarrow> length data < 2 ^ 32 \<longrightarrow> False", OF _ r], goal_cases)
    case (1 f os fd data rem offset w r)
    show ?case
    proof (intro impI)
      assume a: "silent os inc fd" "int (length (inc w)) < rem" "unat offset + nat rem \<le> length data" "length data < 2 ^ 32"
      obtain q w' where q: "os_read os fd (nat rem) w = (q, w')" by fastforce
      have law: "case q of Inl e \<Rightarrow> (e = EINTR \<or> e = EAGAIN) \<and> inc w' = inc w
          | Inr bs \<Rightarrow> bs \<noteq> [] \<and> length bs \<le> nat rem \<and> inc w = bs @ inc w'"
        using a(1) q unfolding silent_def by (auto dest!: spec [of _ "nat rem"] spec [of _ w])
      show False
      proof (cases q)
        case (Inl e)
        with law 1(2) q a(2) have "f os fd data rem offset w' = Some r" "inc w' = inc w" by auto
        with 1(1) [OF this(1)] a show False by simp
      next
        case (Inr bs)
        with law have bs: "bs \<noteq> []" "length bs \<le> nat rem" "inc w = bs @ inc w'" by simp_all
        let ?data = "take (unat offset) data @ bs @ drop (unat offset + length bs) data"
        have wr: "wr_range data (unat offset) bs = Ret ?data" using bs(2) a(2,3) by (intro wr_range_in) linarith
        have go: "f os fd ?data (rem - int (length bs)) (offset + of_nat (length bs)) w' = Some r"
          using 1(2) q Inr bs(1) a(2) wr by auto
        have off: "unat (offset + of_nat (length bs)) = unat offset + length bs"
          using bs(2) a(2-4) by (simp add: unat_word_ariths unsigned_of_nat take_bit_eq_mod)
        have "int (length (inc w')) < rem - int (length bs)" using a(2) bs(3) by simp
        moreover have "unat (offset + of_nat (length bs)) + nat (rem - int (length bs)) \<le> length ?data"
          using off a(2,3) bs(2) by simp
        moreover have "length ?data < 2 ^ 32" using a(2-4) bs(2) by simp
        ultimately show ?thesis using 1(1) [OF go] a(1) by blast
      qed
    qed
  qed
  with assms show False by blast
qed

section \<open>Properties\<close>

text \<open>C19: A client that does not read its event connection stops the integrity check and the requests for a
  port: once the check has found a link lost it holds the port's mutex while it reports, so as long as
  the client does not read neither the check nor a request that wants the port gets any further,
  whatever hot plug events and the hardware do.\<close>

theorem unread_callback_blocks_port:
  assumes "(pt_step os D G wl mem)\<^sup>*\<^sup>* (M_entering rq j, C_lost j, pm, cb, w, l) s'"
    and "j < length (m_DrmObjects pm)" "m_CpTypeMutex (obj pm j)"
    and "unread os fd" "fd \<in> set (m_CallBackList cb)" "\<forall>u. sd_wf (mem u)"
  shows "\<exists>pm' w'. s' = (M_entering rq j, C_lost j, pm', cb, w', l)"
proof -
  have "\<exists>pm' w'. s' = (M_entering rq j, C_lost j, pm', cb, w', l) \<and> j < length (m_DrmObjects pm') \<and> m_CpTypeMutex (obj pm' j)"
    using assms(1)
  proof (induction rule: rtranclp_induct)
    case base
    with assms(2,3) show ?case by blast
  next
    case (step s1 s2)
    note never = ReportStatus_unread [OF assms(4,6,5)]
    from step.IH obtain pm1 w1 where s1: "s1 = (M_entering rq j, C_lost j, pm1, cb, w1, l)"
      and held: "j < length (m_DrmObjects pm1)" "m_CpTypeMutex (obj pm1 j)" by blast
    from step.hyps(2) [unfolded s1] show ?case
    proof (cases rule: pt_step.cases)
      case (plug k ob cb' w')
      have "cb' = cb" using plug(3) never
        by (auto simp: Let_def elim!: hdcp_elims split: option.splits prod.splits if_splits)
      with plug plug_record [OF plug(3)] held show ?thesis by (auto simp: obj_set)
    qed (use held never in auto)
  qed
  then show ?thesis by blast
qed

theorem unread_callback_blocks_port_witness:
  "\<exists>pm' w'. (M_entering (Disable 0 5) 0, C_lost 0, held_pm, \<lparr>m_CallBackList = [7], m_CallBackListMutex = False\<rparr>, (1 :: nat), [] :: u32 list) =
     (M_entering (Disable 0 5) 0, C_lost 0, pm', \<lparr>m_CallBackList = [7], m_CallBackListMutex = False\<rparr>, w', [])"
proof -
  let ?os = "idle_os\<lparr>os_send := (\<lambda>fd bs w. (Inl EAGAIN, w))\<rparr> :: nat os_api"
  have "(pt_step ?os idle_drm idle_gwl wl_start (\<lambda>w. example_mem))\<^sup>*\<^sup>*
      (M_entering (Disable 0 5) 0, C_lost 0, held_pm, \<lparr>m_CallBackList = [7], m_CallBackListMutex = False\<rparr>, 0, [])
      (M_entering (Disable 0 5) 0, C_lost 0, held_pm, \<lparr>m_CallBackList = [7], m_CallBackListMutex = False\<rparr>, 1, [])"
    by (rule r_into_rtranclp [where r = "pt_step _ _ _ _ _"], rule pt_step.hardware)
  moreover have "0 < length (m_DrmObjects held_pm)" "m_CpTypeMutex (obj held_pm 0)" by code_simp+
  moreover have "unread ?os 7" by (simp add: unread_def)
  ultimately show ?thesis by (rule unread_callback_blocks_port) (simp_all add: example_mem_wf)
qed

text \<open>C20: A client that sends a part of a message and then keeps quiet stops the daemon for everybody: when it
  is its turn the daemon waits for the rest, and the turn of the message loop never ends.\<close>

theorem half_message_stops_daemon:
  assumes "server_inv (m_SdkSocket d)" "m_IsMainFdListening (m_SdkSocket d)" "\<not> e_killed E w"
    and "os_poll (e_os E) (m_SessionFdArray (m_SdkSocket d)) w = (Inr (Suc k, rs), w1)" "length rs = SESSION_COUNT_MAX"
    and "POLLIN AND rs ! unat (m_FdIndex (m_SdkSocket d)) \<noteq> 0"
    and "fd = pfd_fd (m_SessionFdArray (m_SdkSocket d) ! unat (m_FdIndex (m_SdkSocket d)))" "fd \<noteq> m_Fd (m_SdkSocket d)"
    and "silent (e_os E) inc fd" "length (inc w1) < sizeof_SocketData" "sd_wf (e_mem E w)"
  shows "message_turn E d w = None"
proof -
  let ?s = "m_SdkSocket d" and ?i = "m_FdIndex (m_SdkSocket d)"
  let ?s1 = "?s\<lparr>m_SessionFdArray := set_revents rs (m_SessionFdArray ?s)\<rparr>"
  let ?req = "SocketData_new (e_mem E w)"
  have i: "unat ?i < 6" "?i < 6" "length (m_SessionFdArray ?s) = 6"
    using assms(1) by (simp_all add: server_inv_def word_less_nat_alt)
  have poll: "PollForEvent (e_os E) (e_killed E) ?s w = ret ((SUCCESS, ?s1), w1)"
    using assms(2-4) by (simp add: PollForEvent_def) (subst poll_loop.simps, simp)
  have slot: "m_SessionFdArray ?s1 ! unat ?i = (m_SessionFdArray ?s ! unat ?i)\<lparr>pfd_revents := rs ! unat ?i\<rparr>"
    using i assms(5) by (simp add: set_revents_def)
  have len: "length (encode ?req) = 100" using assms(11) SocketData_new_wf by simp
  then have "read_loop (e_os E) fd (encode ?req) 100 0 w1 = None"
    using read_loop_silent [OF assms(9), of w1 100 0 "encode ?req"] assms(10) by simp
  then have "GetRequest (e_os E) ?req fd w1 = None"
    using assms(9) len by (simp add: GetRequest_def read_message_def ReadData_def silent_def)
  then have "read_task (e_os E) ?s1 ?i ?req w1 = None" using slot assms(7) by (simp add: read_task_def)
  moreover have "?i \<noteq> (?i + 5) mod 6"
  proof
    assume "?i = (?i + 5) mod 6"
    then have "unat ?i = unat ((?i + 5) mod 6)" by simp
    also have "\<dots> = (unat ?i + 5) mod 6" using i(1) by (simp add: unat_mod unat_word_ariths)
    finally show False using i(1) by presburger
  qed
  moreover have "pfd_fd (m_SessionFdArray ?s ! unat ?i) \<noteq> -1" using assms(7,9) by (simp add: silent_def)
  ultimately have "scan (e_os E) (e_mem E) ?s1 ?i ?req w1 = None"
    using slot i(2) assms(6-8) by (subst scan.simps) (auto simp: Let_def)
  with poll show ?thesis
    by (simp add: message_turn_def) (subst GetTask.simps, simp)
qed

text \<open>Client 5 has sent 50 bytes; the world is what is left to read of them.\<close>

definition half_os :: "u8 list os_api" where
  "half_os = idle_os\<lparr>os_poll := (\<lambda>fds w. (Inr (Suc 0, map (\<lambda>p. if pfd_fd p = 5 then 1 else 0) fds), w)),
     os_read := (\<lambda>fd n w. if w = [] \<or> n = 0 then (Inl EAGAIN, w) else (Inr (take n w), drop n w))\<rparr>"

theorem half_message_stops_daemon_witness:
  "message_turn (sending_env\<lparr>e_os := half_os\<rparr>) (demo_daemon\<lparr>m_SdkSocket := busy_server\<rparr>) (replicate 50 8) = None"
proof -
  let ?E = "sending_env\<lparr>e_os := half_os\<rparr>" and ?d = "demo_daemon\<lparr>m_SdkSocket := busy_server\<rparr>"
  have "server_inv (m_SdkSocket ?d)"
    by (simp add: server_inv_def busy_server_def example_server_def empty_slot_def)
  moreover have "silent (e_os ?E) id 5" by (auto simp: silent_def half_os_def)
  ultimately show ?thesis
    by (intro half_message_stops_daemon [where fd = 5 and inc = id and rs = "[0, 1, 0, 0, 0, 0]" and k = 0 and ?w1.0 = "replicate 50 8"])
      (simp_all add: busy_server_def example_server_def half_os_def sending_env_def example_mem_wf empty_slot_def)
qed

end
