(* ===== verification/ThreadLife.thy ===== *)
theory ThreadLife
  imports PortThreads UEvent
begin

text \<open>
  How the port manager's two threads come and go: the constructor, which creates them, the barrier at
  which they wait for \<^verbatim>\<open>PortManagerInit\<close>, the loops of \<^verbatim>\<open>InitPeriodicIntegrityCheck\<close> and
  \<^verbatim>\<open>InitUEventHandler\<close>, and the destructor, which asks them to end and joins them (all of
  \<^verbatim>\<open>src/daemon/portmanager.cpp\<close>). The main thread and the two threads are relations over one shared
  configuration; a run interleaves their steps.
\<close>

section \<open>The pieces\<close>

text \<open>The constructor up to the creation of the first thread; the flag says whether it gets there.\<close>

definition PortManager_prepare ::
  "'w os_api \<Rightarrow> 'w drm_api \<Rightarrow> 'w \<Rightarrow> ((bool \<times> PortManager) \<times> 'w) outcome" where
  "PortManager_prepare os D w =
     (let (fd, w) = drmOpen D ''i915'' w;
          pm = \<lparr>pm_IsValid = False, m_DrmFd = fd, m_DrmObjects = []\<rparr> in
      if fd < 0 then Ret ((False, pm), w) else
      ubind (InitDrmObjects os D pm w) (\<lambda>((sts, pm), w).
      if sts \<noteq> SUCCESS then Ret ((False, pm), w) else
      let (r, w) = os_barrier_init os 3 w in
      Ret ((r = SUCCESS, pm), w)))"

lemma PortManager_new_pieces:
  "PortManager_new os D w =
     ubind (PortManager_prepare os D w) (\<lambda>((ok, pm), w).
     if \<not> ok then Ret ((pm, \<lparr>th_integrity = False, th_uevent = False\<rparr>), w) else
     let (r, w) = os_thread_create os ''InitPeriodicIntegrityCheck'' w in
     if r \<noteq> SUCCESS then Ret ((pm, \<lparr>th_integrity = False, th_uevent = False\<rparr>), w) else
     let (r, w) = os_thread_create os ''InitUEventHandler'' w in
     if r \<noteq> SUCCESS then Ret ((pm, \<lparr>th_integrity = True, th_uevent = False\<rparr>), w) else
     Ret ((pm\<lparr>pm_IsValid := True\<rparr>, \<lparr>th_integrity = True, th_uevent = True\<rparr>), w))"
  by (simp add: PortManager_new_def PortManager_prepare_def Let_def ubind_def
      split: prod.split outcome.split)

text \<open>One check of the integrity thread with the sleep after it, and what the event thread does with a
  message.\<close>

definition check_ports ::
  "'w os_api \<Rightarrow> 'w drm_api \<Rightarrow> ('w \<Rightarrow> SocketData) \<Rightarrow> PortManager option \<Rightarrow> CallBacks \<Rightarrow> 'w \<Rightarrow>
     ((PortManager option \<times> CallBacks) \<times> 'w) outcome option" where
  "check_ports os D mem g cb w =
     (case g of None \<Rightarrow> Some Undef | Some pm \<Rightarrow>
      obind (CheckIntegrity os D mem pm cb w) (\<lambda>((pm, cb), w). ret ((Some pm, cb), os_sleep_ms os 500 w)))"

definition handle_uevent ::
  "'w os_api \<Rightarrow> 'w drm_api \<Rightarrow> ('w \<Rightarrow> SocketData) \<Rightarrow> PortManager option \<Rightarrow> CallBacks \<Rightarrow> u8 list \<Rightarrow> 'w \<Rightarrow>
     ((PortManager option \<times> CallBacks) \<times> 'w) outcome option" where
  "handle_uevent os D mem g cb bs w =
     (if classify (split_messages (uevent_buffer bs)) = Ev_HotPlug
      then PortManagerProcessHotPlug os D mem g cb w else ret ((g, cb), w))"

lemma obind_assoc: "obind (obind m f) g = obind m (\<lambda>x. obind (f x) g)"
  by (cases m; cases "the m") auto

text \<open>One turn of a thread that nobody interrupts is the turn that \<open>UEvent\<close> defines.\<close>

lemma integrity_turn_pieces:
  "integrity_turn os D mem destroy g cb w =
     (if destroy then ret ((False, g, cb), w)
      else obind (check_ports os D mem g cb w) (\<lambda>((g, cb), w). ret ((True, g, cb), w)))"
  by (simp add: integrity_turn_def check_ports_def obind_assoc split_def split: option.split)

lemma uevent_turn_pieces:
  "uevent_turn os D mem N fd destroy g cb w =
     (case nl_recv N fd UEVENT_MSG_SIZE w of (Inl e, w) \<Rightarrow> ret ((True, g, cb), w)
      | (Inr bs, w) \<Rightarrow> if bs = [] then ret ((True, g, cb), w)
          else if destroy then ret ((False, g, cb), w)
          else obind (handle_uevent os D mem g cb bs w) (\<lambda>((g, cb), w). ret ((True, g, cb), w)))"
  by (simp add: uevent_turn_def handle_uevent_def split: prod.split sum.split)

section \<open>The configuration\<close>

text \<open>
  Where each thread is. The integrity thread: not created, at the barrier, about to look at
  \<^verbatim>\<open>isDestroyThreads\<close>, about to check, ended. The event thread: not created, at the barrier, about to
  open its socket, waiting for a message, with a message and about to look at the flag, about to handle
  the message, ended.
\<close>

datatype check_at = K_none | K_barrier | K_loop | K_check | K_done

datatype event_at = V_none | V_barrier | V_open | V_recv | V_got "u8 list" | V_handle "u8 list" | V_done

text \<open>
  The main thread: before \<^verbatim>\<open>PortManagerInit\<close>; in the constructor, about to create the first, the second
  thread; at the barrier; in the message loop; in the destructor, about to close the device, to set the
  flag, to join the integrity thread, to send the event thread so many more signals, to join it. The
  last value is what the call returns: \<open>SUCCESS\<close> for \<^verbatim>\<open>PortManagerRelease\<close>, an error for
  \<^verbatim>\<open>PortManagerInit\<close>.
\<close>

datatype main_life = L_start | L_first PortManager | L_second PortManager | L_barrier | L_running
  | L_close int | L_flag int | L_join int | L_signal nat int | L_join_event int | L_returned int

text \<open>\<open>l_open\<close>: the descriptor \<^verbatim>\<open>m_DrmFd\<close> is open; \<open>l_destroy\<close> is \<^verbatim>\<open>isDestroyThreads\<close>, \<open>l_socket\<close>
  \<^verbatim>\<open>eventSocket\<close>, \<open>l_mgr\<close> \<^verbatim>\<open>portMgr\<close>.\<close>

record 'w life =
  l_main :: main_life
  l_check :: check_at
  l_event :: event_at
  l_destroy :: bool
  l_open :: bool
  l_socket :: int
  l_mgr :: "PortManager option"
  l_cb :: CallBacks
  l_world :: 'w

definition life_start :: "CallBacks \<Rightarrow> 'w \<Rightarrow> 'w life" where
  "life_start cb w = \<lparr>l_main = L_start, l_check = K_none, l_event = V_none, l_destroy = False, l_open = False,
     l_socket = -1, l_mgr = None, l_cb = cb, l_world = w\<rparr>"

section \<open>The main thread\<close>

text \<open>\<^verbatim>\<open>PortManagerInit\<close> with the constructor.\<close>

inductive init_step :: "'w os_api \<Rightarrow> 'w drm_api \<Rightarrow> 'w life \<Rightarrow> 'w life \<Rightarrow> bool"
  for os :: "'w os_api" and D :: "'w drm_api" where
  no_memory: "l_main s = L_start \<Longrightarrow> os_new os 1 (l_world s) = (False, w) \<Longrightarrow>
    init_step os D s (s\<lparr>l_main := L_returned ENOMEM, l_world := w\<rparr>)"
| prepared: "l_main s = L_start \<Longrightarrow> os_new os 1 (l_world s) = (True, w1) \<Longrightarrow>
    PortManager_prepare os D w1 = Ret ((True, pm), w) \<Longrightarrow>
    init_step os D s (s\<lparr>l_main := L_first pm, l_open := True, l_world := w\<rparr>)"
| unprepared: "l_main s = L_start \<Longrightarrow> os_new os 1 (l_world s) = (True, w1) \<Longrightarrow>
    PortManager_prepare os D w1 = Ret ((False, pm), w) \<Longrightarrow>
    init_step os D s (s\<lparr>l_main := L_close ENODEV, l_open := \<not> m_DrmFd pm < 0, l_mgr := Some pm, l_world := w\<rparr>)"
| first_created: "l_main s = L_first pm \<Longrightarrow>
    os_thread_create os ''InitPeriodicIntegrityCheck'' (l_world s) = (SUCCESS, w) \<Longrightarrow>
    init_step os D s (s\<lparr>l_main := L_second pm, l_check := K_barrier, l_world := w\<rparr>)"
| first_fails: "l_main s = L_first pm \<Longrightarrow>
    os_thread_create os ''InitPeriodicIntegrityCheck'' (l_world s) = (r, w) \<Longrightarrow> r \<noteq> SUCCESS \<Longrightarrow>
    init_step os D s (s\<lparr>l_main := L_close ENODEV, l_mgr := Some pm, l_world := w\<rparr>)"
| second_created: "l_main s = L_second pm \<Longrightarrow>
    os_thread_create os ''InitUEventHandler'' (l_world s) = (SUCCESS, w) \<Longrightarrow>
    init_step os D s (s\<lparr>l_main := L_barrier, l_event := V_barrier, l_mgr := Some (pm\<lparr>pm_IsValid := True\<rparr>), l_world := w\<rparr>)"
| second_fails: "l_main s = L_second pm \<Longrightarrow>
    os_thread_create os ''InitUEventHandler'' (l_world s) = (r, w) \<Longrightarrow> r \<noteq> SUCCESS \<Longrightarrow>
    init_step os D s (s\<lparr>l_main := L_close ENODEV, l_mgr := Some pm, l_world := w\<rparr>)"

text \<open>The destructor of a connector destroys its two mutexes, which is undefined for one that is held.\<close>

definition DrmObject_delete :: "DrmObject \<Rightarrow> unit outcome" where
  "DrmObject_delete ob = (if m_ConnectionMutex ob \<or> m_CpTypeMutex ob then Undef else Ret ())"

primrec delete_objects :: "DrmObject list \<Rightarrow> unit outcome" where
  "delete_objects [] = Ret ()"
| "delete_objects (ob # obs) = ubind (DrmObject_delete ob) (\<lambda>_. delete_objects obs)"

lemma delete_unlocked: "\<forall>ob \<in> set obs. unlocked ob \<Longrightarrow> delete_objects obs = Ret ()"
  by (induction obs) (simp_all add: DrmObject_delete_def unlocked_def)

text \<open>\<^verbatim>\<open>PortManagerRelease\<close> with the destructor. A join goes on once the thread has ended. A signal only
  makes a \<^verbatim>\<open>recv\<close> fail, so it is no step of the event thread. Joining a thread that was not created is
  undefined, as is the destruction of a mutex that is held: there is no step then.\<close>

inductive delete_step :: "'w os_api \<Rightarrow> 'w life \<Rightarrow> 'w life \<Rightarrow> bool"
  for os :: "'w os_api" where
  close: "l_main s = L_close r \<Longrightarrow> l_mgr s = Some pm \<Longrightarrow>
    delete_step os s (s\<lparr>l_main := L_flag r, l_open := False,
      l_world := (if m_DrmFd pm < 0 then l_world s else snd (os_close os (m_DrmFd pm) (l_world s)))\<rparr>)"
| flag: "l_main s = L_flag r \<Longrightarrow> delete_step os s (s\<lparr>l_main := L_join r, l_destroy := True\<rparr>)"
| join: "l_main s = L_join r \<Longrightarrow> l_check s = K_done \<Longrightarrow> delete_step os s (s\<lparr>l_main := L_signal 3 r\<rparr>)"
| signal: "l_main s = L_signal (Suc n) r \<Longrightarrow>
    delete_step os s (s\<lparr>l_main := (if n = 0 then L_join_event r else L_signal n r),
      l_world := (if n = 0 then l_world s else os_sleep_ms os 20 (l_world s))\<rparr>)"
| join_event: "l_main s = L_join_event r \<Longrightarrow> l_event s = V_done \<Longrightarrow> l_mgr s = Some pm \<Longrightarrow>
    delete_objects (m_DrmObjects pm) = Ret () \<Longrightarrow>
    delete_step os s (s\<lparr>l_main := L_returned r, l_mgr := None, l_socket := -1,
      l_world := (if l_socket s = -1 then l_world s else snd (os_close os (l_socket s) (l_world s)))\<rparr>)"

section \<open>The two threads\<close>

inductive check_step :: "'w os_api \<Rightarrow> 'w drm_api \<Rightarrow> ('w \<Rightarrow> SocketData) \<Rightarrow> 'w life \<Rightarrow> 'w life \<Rightarrow> bool"
  for os :: "'w os_api" and D :: "'w drm_api" and mem :: "'w \<Rightarrow> SocketData" where
  destroyed: "l_check s = K_loop \<Longrightarrow> l_destroy s \<Longrightarrow> check_step os D mem s (s\<lparr>l_check := K_done\<rparr>)"
| go_on: "l_check s = K_loop \<Longrightarrow> \<not> l_destroy s \<Longrightarrow> check_step os D mem s (s\<lparr>l_check := K_check\<rparr>)"
| checked: "l_check s = K_check \<Longrightarrow> check_ports os D mem (l_mgr s) (l_cb s) (l_world s) = ret ((g, cb), w) \<Longrightarrow>
    check_step os D mem s (s\<lparr>l_check := K_loop, l_mgr := g, l_cb := cb, l_world := w\<rparr>)"

inductive event_step ::
  "'w os_api \<Rightarrow> 'w drm_api \<Rightarrow> ('w \<Rightarrow> SocketData) \<Rightarrow> 'w netlink_api \<Rightarrow> 'w life \<Rightarrow> 'w life \<Rightarrow> bool"
  for os :: "'w os_api" and D :: "'w drm_api" and mem :: "'w \<Rightarrow> SocketData" and N :: "'w netlink_api" where
  opened: "l_event s = V_open \<Longrightarrow> uevent_open N (l_world s) = ((ok, fd), w) \<Longrightarrow>
    event_step os D mem N s (s\<lparr>l_event := (if ok then V_recv else V_done), l_socket := fd, l_world := w\<rparr>)"
| failed: "l_event s = V_recv \<Longrightarrow> nl_recv N (l_socket s) UEVENT_MSG_SIZE (l_world s) = (r, w) \<Longrightarrow>
    (case r of Inl e \<Rightarrow> True | Inr bs \<Rightarrow> bs = []) \<Longrightarrow> event_step os D mem N s (s\<lparr>l_world := w\<rparr>)"
| received: "l_event s = V_recv \<Longrightarrow> nl_recv N (l_socket s) UEVENT_MSG_SIZE (l_world s) = (Inr bs, w) \<Longrightarrow>
    bs \<noteq> [] \<Longrightarrow> event_step os D mem N s (s\<lparr>l_event := V_got bs, l_world := w\<rparr>)"
| destroyed: "l_event s = V_got bs \<Longrightarrow> l_destroy s \<Longrightarrow> event_step os D mem N s (s\<lparr>l_event := V_done\<rparr>)"
| go_on: "l_event s = V_got bs \<Longrightarrow> \<not> l_destroy s \<Longrightarrow> event_step os D mem N s (s\<lparr>l_event := V_handle bs\<rparr>)"
| handled: "l_event s = V_handle bs \<Longrightarrow>
    handle_uevent os D mem (l_mgr s) (l_cb s) bs (l_world s) = ret ((g, cb), w) \<Longrightarrow>
    event_step os D mem N s (s\<lparr>l_event := V_recv, l_mgr := g, l_cb := cb, l_world := w\<rparr>)"

section \<open>All together\<close>

text \<open>The barrier opens for the three threads at once. While the message loop runs it calls the port
  manager's operations, and one day releases it; anything else may change the world at any time.\<close>

inductive life_step ::
  "'w os_api \<Rightarrow> 'w drm_api \<Rightarrow> 'w gwl_api \<Rightarrow> wl_state \<Rightarrow> ('w \<Rightarrow> SocketData) \<Rightarrow> 'w netlink_api \<Rightarrow>
     'w life \<Rightarrow> 'w life \<Rightarrow> bool"
  for os :: "'w os_api" and D :: "'w drm_api" and G :: "'w gwl_api" and wl :: wl_state
    and mem :: "'w \<Rightarrow> SocketData" and N :: "'w netlink_api" where
  init: "init_step os D s s' \<Longrightarrow> life_step os D G wl mem N s s'"
| barrier: "l_main s = L_barrier \<Longrightarrow> l_check s = K_barrier \<Longrightarrow> l_event s = V_barrier \<Longrightarrow>
    life_step os D G wl mem N s (s\<lparr>l_main := L_running, l_check := K_loop, l_event := V_open\<rparr>)"
| request: "l_main s = L_running \<Longrightarrow> l_mgr s = Some pm \<Longrightarrow> pm_admissible x \<Longrightarrow> x \<noteq> Op_HotPlug \<Longrightarrow> x \<noteq> Op_Integrity \<Longrightarrow>
    pm_exec os D G wl mem x (pm, l_cb s) (l_world s) = ret ((r, pm', cb), w) \<Longrightarrow>
    life_step os D G wl mem N s (s\<lparr>l_mgr := Some pm', l_cb := cb, l_world := w\<rparr>)"
| release: "l_main s = L_running \<Longrightarrow> life_step os D G wl mem N s (s\<lparr>l_main := L_close SUCCESS\<rparr>)"
| delete: "delete_step os s s' \<Longrightarrow> life_step os D G wl mem N s s'"
| check: "check_step os D mem s s' \<Longrightarrow> life_step os D G wl mem N s s'"
| event: "event_step os D mem N s s' \<Longrightarrow> life_step os D G wl mem N s s'"
| elsewhere: "life_step os D G wl mem N s (s\<lparr>l_world := w\<rparr>)"

lemmas thread_cases = init_step.cases delete_step.cases check_step.cases event_step.cases

section \<open>The invariant\<close>

definition valid_mgr :: "PortManager option \<Rightarrow> bool" where
  "valid_mgr g \<longleftrightarrow> (\<exists>pm. g = Some pm \<and> pm_IsValid pm \<and> pm_inv pm)"

text \<open>A thread that has passed the barrier.\<close>

definition check_started :: "check_at \<Rightarrow> bool" where
  "check_started c \<longleftrightarrow> c = K_loop \<or> c = K_check \<or> c = K_done"

definition event_started :: "event_at \<Rightarrow> bool" where
  "event_started v \<longleftrightarrow> v \<noteq> V_none \<and> v \<noteq> V_barrier"

text \<open>The threads and the manager during the destructor, which either releases a manager that ran or
  takes back one that was not started.\<close>

definition deleting :: "int \<Rightarrow> 'w life \<Rightarrow> bool" where
  "deleting r s \<longleftrightarrow>
     (r = SUCCESS \<and> check_started (l_check s) \<and> event_started (l_event s) \<and> valid_mgr (l_mgr s) \<or>
      r = ENODEV \<and> (l_check s = K_none \<or> l_check s = K_barrier) \<and> l_event s = V_none \<and> l_mgr s \<noteq> None)"

definition life_inv :: "'w life \<Rightarrow> bool" where
  "life_inv s \<longleftrightarrow> \<not> m_CallBackListMutex (l_cb s) \<and>
     (\<not> l_destroy s \<longrightarrow> l_check s \<noteq> K_done) \<and>
     (case l_main s of
        L_start \<Rightarrow> l_check s = K_none \<and> l_event s = V_none \<and> l_mgr s = None \<and> \<not> l_destroy s
      | L_first pm \<Rightarrow> l_check s = K_none \<and> l_event s = V_none \<and> l_mgr s = None \<and> pm_inv pm \<and> \<not> l_destroy s
      | L_second pm \<Rightarrow> l_check s = K_barrier \<and> l_event s = V_none \<and> l_mgr s = None \<and> pm_inv pm \<and> \<not> l_destroy s
      | L_barrier \<Rightarrow> l_check s = K_barrier \<and> l_event s = V_barrier \<and> valid_mgr (l_mgr s) \<and> \<not> l_destroy s
      | L_running \<Rightarrow> check_started (l_check s) \<and> event_started (l_event s) \<and> valid_mgr (l_mgr s) \<and> \<not> l_destroy s
      | L_close r \<Rightarrow> deleting r s \<and> \<not> l_destroy s
      | L_flag r \<Rightarrow> deleting r s \<and> \<not> l_destroy s \<and> \<not> l_open s
      | L_join r \<Rightarrow> deleting r s \<and> l_destroy s \<and> \<not> l_open s
      | L_signal n r \<Rightarrow> deleting r s \<and> l_destroy s \<and> l_check s = K_done \<and> r = SUCCESS
      | L_join_event r \<Rightarrow> deleting r s \<and> l_destroy s \<and> l_check s = K_done \<and> r = SUCCESS
      | L_returned r \<Rightarrow> l_mgr s = None \<and>
          (r = ENOMEM \<and> l_check s = K_none \<and> l_event s = V_none \<or>
           r = SUCCESS \<and> l_check s = K_done \<and> l_event s = V_done))"

lemmas life_defs = life_inv_def deleting_def check_started_def event_started_def

lemma prepare_inv:
  assumes "PortManager_prepare os D w = Ret ((ok, pm), w')"
  shows "pm_inv pm"
proof -
  have e: "pm_inv \<lparr>pm_IsValid = False, m_DrmFd = fd, m_DrmObjects = []\<rparr>" for fd
    by (simp add: pm_inv_def)
  have ic: "pm_inv pm'"
    if "init_connectors os D \<lparr>pm_IsValid = False, m_DrmFd = fd, m_DrmObjects = []\<rparr> cs 0 w = Ret (pm', w')"
    for fd cs w pm' w'
    using init_connectors_inv [OF that e] by simp
  show ?thesis
    using assms unfolding PortManager_prepare_def InitDrmObjects_def Let_def
    by (auto elim!: hdcp_elims split: prod.splits if_splits option.splits simp: e) (erule ic)+
qed

lemma init_props_IsValid:
  "init_props os D pm c ps i w = Ret ((pm', i'), w') \<Longrightarrow> pm_IsValid pm' = pm_IsValid pm"
  by (induction os D pm c ps i w rule: init_props.induct)
    (auto split: prod.splits option.splits if_splits simp: Let_def set_obj_def)

lemma prepare_invalid:
  assumes "PortManager_prepare os D w = Ret ((ok, pm), w')"
  shows "\<not> pm_IsValid pm"
proof -
  have ic: "pm_IsValid pm' = pm_IsValid pm"
    if "init_connectors os D pm cs i w = Ret (pm', w')" for pm cs i w pm' w'
    using that by (induction cs arbitrary: pm i w)
      (auto simp: Let_def elim!: hdcp_elims split: prod.splits option.splits dest: init_props_IsValid)
  show ?thesis
    using assms unfolding PortManager_prepare_def InitDrmObjects_def Let_def
    by (auto elim!: hdcp_elims split: prod.splits if_splits option.splits simp: dest!: ic)
qed

lemma exec_valid:
  assumes "pm_exec os D G wl mem x (pm, cb) w = ret ((r, pm', cb'), w')" "pm_admissible x"
    and "valid_mgr (Some pm)" "\<not> m_CallBackListMutex cb"
  shows "valid_mgr (Some pm') \<and> \<not> m_CallBackListMutex cb'"
  using pm_exec_touched [OF assms(1,2)] assms(3,4) pm_touched_inv
  by (auto simp: valid_mgr_def pm_touched_def)

lemma check_ports_valid:
  assumes "check_ports os D mem g cb w = ret ((g', cb'), w')" "valid_mgr g" "\<not> m_CallBackListMutex cb"
  shows "valid_mgr g' \<and> \<not> m_CallBackListMutex cb'"
proof -
  obtain pm pm' w1 where g: "g = Some pm" "g' = Some pm'" "CheckIntegrity os D mem pm cb w = ret ((pm', cb'), w1)"
    using assms(1,2) by (auto simp: check_ports_def valid_mgr_def elim!: hdcp_elims)
  then have "pm_exec os D undefined undefined mem Op_Integrity (pm, cb) w = ret ((SUCCESS, pm', cb'), w1)" by simp
  from exec_valid [OF this] assms(2,3) g show ?thesis by (simp add: pm_admissible_def)
qed

lemma handle_uevent_valid:
  assumes "handle_uevent os D mem g cb bs w = ret ((g', cb'), w')" "valid_mgr g" "\<not> m_CallBackListMutex cb"
  shows "valid_mgr g' \<and> \<not> m_CallBackListMutex cb'"
proof (cases "classify (split_messages (uevent_buffer bs)) = Ev_HotPlug")
  case True
  then obtain pm pm' where g: "g = Some pm" "g' = Some pm'" "ProcessHotPlug os D mem pm cb w = ret ((pm', cb'), w')"
    using assms(1,2) by (auto simp: handle_uevent_def PortManagerProcessHotPlug_def valid_mgr_def elim!: hdcp_elims)
  then have "pm_exec os D undefined undefined mem Op_HotPlug (pm, cb) w = ret ((SUCCESS, pm', cb'), w')" by simp
  from exec_valid [OF this] assms(2,3) g show ?thesis by (simp add: pm_admissible_def)
qed (use assms in \<open>auto simp: handle_uevent_def\<close>)

lemma init_step_inv: "init_step os D s s' \<Longrightarrow> life_inv s \<Longrightarrow> life_inv s'"
  by (induction rule: init_step.induct)
    (auto simp: life_defs valid_mgr_def pm_inv_def dest!: prepare_inv split: main_life.splits)

lemma delete_step_inv: "delete_step os s s' \<Longrightarrow> life_inv s \<Longrightarrow> life_inv s'"
  by (induction rule: delete_step.induct) (auto simp: life_defs split: main_life.splits if_splits)

text \<open>A step of a thread needs a thread that has passed the barrier, and it keeps the manager valid.\<close>

lemma running_valid:
  assumes "life_inv s" "l_check s = K_loop \<or> l_check s = K_check \<or> (event_started (l_event s) \<and> l_event s \<noteq> V_done)"
  shows "valid_mgr (l_mgr s)"
  using assms by (auto simp: life_defs split: main_life.splits)

lemma check_step_inv: "check_step os D mem s s' \<Longrightarrow> life_inv s \<Longrightarrow> life_inv s'"
proof (induction rule: check_step.induct)
  case (checked s g cb w)
  have "valid_mgr g \<and> \<not> m_CallBackListMutex cb"
    using check_ports_valid [OF checked(2)] running_valid [OF checked(3)] checked by (simp add: life_inv_def)
  then show ?case using checked(1,3) by (auto simp: life_defs valid_mgr_def split: main_life.splits)
qed (auto simp: life_defs split: main_life.splits)

lemma event_step_inv: "event_step os D mem N s s' \<Longrightarrow> life_inv s \<Longrightarrow> life_inv s'"
proof (induction rule: event_step.induct)
  case (handled s bs g cb w)
  have "valid_mgr g \<and> \<not> m_CallBackListMutex cb"
    using handle_uevent_valid [OF handled(2)] running_valid [OF handled(3)] handled
    by (simp add: life_inv_def event_started_def)
  then show ?case using handled(1,3) by (auto simp: life_defs valid_mgr_def split: main_life.splits)
qed (auto simp: life_defs split: main_life.splits)

lemma life_inv_world: "life_inv (s\<lparr>l_world := w\<rparr>) = life_inv s"
  by (cases "l_main s") (simp_all add: life_inv_def deleting_def)

lemma life_step_inv: "life_step os D G wl mem N s s' \<Longrightarrow> life_inv s \<Longrightarrow> life_inv s'"
proof (induction rule: life_step.induct)
  case (request s pm x r pm' cb w)
  have "valid_mgr (Some pm)" "\<not> m_CallBackListMutex (l_cb s)" using request(1,2,7) by (auto simp: life_inv_def)
  from exec_valid [OF request(6,3) this] request(1,7) show ?case by (auto simp: life_defs)
next
  case (barrier s)
  then show ?case by (auto simp: life_defs)
next
  case (release s)
  then show ?case by (auto simp: life_defs)
next
  case (elsewhere s w)
  then show ?case by (simp add: life_inv_world)
qed (fact init_step_inv delete_step_inv check_step_inv event_step_inv)+

lemma life_steps_inv: "(life_step os D G wl mem N)\<^sup>*\<^sup>* s s' \<Longrightarrow> life_inv s \<Longrightarrow> life_inv s'"
  by (induction rule: rtranclp_induct) (auto intro: life_step_inv)

lemma life_start_inv: "\<not> m_CallBackListMutex cb \<Longrightarrow> life_inv (life_start cb w)"
  by (simp add: life_start_def life_defs)

section \<open>Starting\<close>

text \<open>A successful \<^verbatim>\<open>PortManagerInit\<close> is a run of these steps up to the opened barrier.\<close>

lemma init_run:
  assumes "PortManagerInit os D None w = ret ((SUCCESS, Some pm), w')"
  shows "(life_step os D G wl mem N)\<^sup>*\<^sup>* (life_start cb w)
    ((life_start cb w)\<lparr>l_main := L_running, l_check := K_loop, l_event := V_open, l_open := True,
      l_mgr := Some pm, l_world := w'\<rparr>)"
proof -
  let ?step = "life_step os D G wl mem N" and ?s = "life_start cb w"
  obtain w1 th where n: "os_new os 1 w = (True, w1)" "PortManager_new os D w1 = Ret ((pm, th), w')" "pm_IsValid pm"
    using assms by (auto simp: PortManagerInit_def elim!: hdcp_elims split: prod.splits if_splits)
  obtain pm0 w2 w3 where p: "PortManager_prepare os D w1 = Ret ((True, pm0), w2)"
    "os_thread_create os ''InitPeriodicIntegrityCheck'' w2 = (SUCCESS, w3)"
    "os_thread_create os ''InitUEventHandler'' w3 = (SUCCESS, w')" "pm = pm0\<lparr>pm_IsValid := True\<rparr>"
  proof -
    have invalid: "\<not> pm_IsValid pm'" if "PortManager_prepare os D w1 = Ret ((ok, pm'), w2)" for ok pm' w2
      by (rule prepare_invalid [OF that])
    show ?thesis
      using n(2,3) invalid that unfolding PortManager_new_pieces Let_def
      by (auto elim!: hdcp_elims split: prod.splits if_splits)
  qed
  let ?s1 = "?s\<lparr>l_main := L_first pm0, l_open := True, l_world := w2\<rparr>"
  let ?s2 = "?s1\<lparr>l_main := L_second pm0, l_check := K_barrier, l_world := w3\<rparr>"
  let ?s3 = "?s2\<lparr>l_main := L_barrier, l_event := V_barrier, l_mgr := Some pm, l_world := w'\<rparr>"
  have "?step ?s ?s1" using init_step.prepared [of ?s os w1 D pm0 w2] n(1) p(1)
    by (intro life_step.init) (simp add: life_start_def)
  moreover have "?step ?s1 ?s2" using init_step.first_created [of ?s1 pm0 os w3 D] p(2)
    by (intro life_step.init) simp
  moreover have "?step ?s2 ?s3" using init_step.second_created [of ?s2 pm0 os w' D] p(3,4)
    by (intro life_step.init) simp
  moreover have "?step ?s3 (?s3\<lparr>l_main := L_running, l_check := K_loop, l_event := V_open\<rparr>)"
    by (rule life_step.barrier) simp_all
  ultimately have "?step\<^sup>*\<^sup>* ?s (?s3\<lparr>l_main := L_running, l_check := K_loop, l_event := V_open\<rparr>)"
    by (meson converse_rtranclp_into_rtranclp r_into_rtranclp)
  then show ?thesis by (simp add: life_start_def)
qed

section \<open>Ending\<close>

lemma integrity_loop_gives:
  assumes "finitely_stalled os stall" "sends_in_order os out" "\<forall>u. sd_wf (mem u)"
    and "\<forall>ob \<in> set obs. unlocked ob" "\<not> m_CallBackListMutex cb"
  shows "\<exists>r. integrity_loop os D mem pm obs cb w = ret r"
  using assms(4,5)
proof (induction obs arbitrary: cb w)
  case (Cons ob obs)
  let ?ob = "ob\<lparr>m_CpTypeMutex := True\<rparr>"
  have ob: "CpTypeAtomicBegin ob = ret ?ob" using Cons.prems(1) by (simp add: unlocked_def CpTypeAtomicBegin_def)
  obtain lost w1 where c: "integrity_check D pm ?ob w = (lost, w1)" by fastforce
  show ?case
  proof (cases lost)
    case True
    obtain cb' w2 where r: "ReportStatus os mem cb PORT_EVENT_LINK_LOST (m_PortId ?ob) w1 = ret (cb', w2)"
      by (rule ReportStatus_returns [OF assms(1-3) Cons.prems(2)])
    have "\<not> m_CallBackListMutex cb'" using ReportStatus_unlocks [OF r] Cons.prems(2) by simp
    with Cons.IH Cons.prems(1) obtain obs' cb2 w3 where "integrity_loop os D mem pm obs cb' w2 = ret ((obs', cb2), w3)"
      by fastforce
    with c True r show ?thesis
      unfolding integrity_loop_check ob by (simp add: CpTypeAtomicEnd_def SetCpType_def)
  next
    case False
    from Cons.IH Cons.prems obtain obs' cb2 w3 where "integrity_loop os D mem pm obs cb w1 = ret ((obs', cb2), w3)"
      by fastforce
    with c False show ?thesis unfolding integrity_loop_check ob by (simp add: CpTypeAtomicEnd_def)
  qed
qed simp

lemma check_ports_gives:
  assumes "finitely_stalled os stall" "sends_in_order os out" "\<forall>u. sd_wf (mem u)"
    and "valid_mgr g" "\<not> m_CallBackListMutex cb"
  obtains g' cb' w' where "check_ports os D mem g cb w = ret ((g', cb'), w')"
proof -
  obtain pm where pm: "g = Some pm" "pm_inv pm" using assms(4) by (auto simp: valid_mgr_def)
  then have "\<forall>ob \<in> set (m_DrmObjects pm). unlocked ob" by (simp add: pm_inv_def)
  from integrity_loop_gives [OF assms(1-3) this assms(5)] obtain obs cb' w'
    where "integrity_loop os D mem pm (m_DrmObjects pm) cb w = ret ((obs, cb'), w')" by fastforce
  with pm that show ?thesis by (simp add: check_ports_def CheckIntegrity_def)
qed

text \<open>Once it is asked to, the integrity thread ends, after at most one more check.\<close>

lemma check_thread_ends:
  assumes "finitely_stalled os stall" "sends_in_order os out" "\<forall>u. sd_wf (mem u)"
    and "life_inv s" "l_destroy s" "check_started (l_check s)"
  obtains g cb w where "(life_step os D G wl mem N)\<^sup>*\<^sup>* s (s\<lparr>l_check := K_done, l_mgr := g, l_cb := cb, l_world := w\<rparr>)"
proof -
  have loop: "life_step os D G wl mem N s' (s'\<lparr>l_check := K_done\<rparr>)" if "l_check s' = K_loop" "l_destroy s'" for s'
    by (rule life_step.check [OF check_step.destroyed [OF that]])
  consider "l_check s = K_done" | "l_check s = K_loop" | "l_check s = K_check"
    using assms(6) by (auto simp: check_started_def)
  then show ?thesis
  proof cases
    case 1
    have "s\<lparr>l_check := K_done, l_mgr := l_mgr s, l_cb := l_cb s, l_world := l_world s\<rparr> = s" using 1 by (cases s) simp
    then show ?thesis using that [where g = "l_mgr s" and cb = "l_cb s" and w = "l_world s"] by simp
  next
    case 2
    have "s\<lparr>l_check := K_done, l_mgr := l_mgr s, l_cb := l_cb s, l_world := l_world s\<rparr> = s\<lparr>l_check := K_done\<rparr>"
      by (cases s) simp
    then show ?thesis using that [where g = "l_mgr s" and cb = "l_cb s" and w = "l_world s"] r_into_rtranclp [where r = "life_step os D G wl mem N", OF loop [OF 2 assms(5)]] by simp
  next
    case 3
    obtain g cb w where c: "check_ports os D mem (l_mgr s) (l_cb s) (l_world s) = ret ((g, cb), w)"
      by (rule check_ports_gives [OF assms(1-3), of "l_mgr s" "l_cb s"])
        (use running_valid [OF assms(4)] 3 assms(4) in \<open>auto simp: life_inv_def\<close>)
    let ?s1 = "s\<lparr>l_check := K_loop, l_mgr := g, l_cb := cb, l_world := w\<rparr>"
    have "life_step os D G wl mem N s ?s1" by (rule life_step.check [OF check_step.checked [OF 3 c]])
    moreover have "life_step os D G wl mem N ?s1 (?s1\<lparr>l_check := K_done\<rparr>)" by (rule loop) (simp_all add: assms(5))
    ultimately have "(life_step os D G wl mem N)\<^sup>*\<^sup>* s (?s1\<lparr>l_check := K_done\<rparr>)"
      by (meson converse_rtranclp_into_rtranclp r_into_rtranclp)
    moreover have "?s1\<lparr>l_check := K_done\<rparr> = s\<lparr>l_check := K_done, l_mgr := g, l_cb := cb, l_world := w\<rparr>"
      by (cases s) simp
    ultimately show ?thesis using that [where g = g and cb = cb and w = w] by simp
  qed
qed

lemma three_signals:
  assumes "l_main s = L_signal 3 r"
  shows "(life_step os D G wl mem N)\<^sup>*\<^sup>* s
    (s\<lparr>l_main := L_join_event r, l_world := os_sleep_ms os 20 (os_sleep_ms os 20 (l_world s))\<rparr>)"
proof -
  let ?step = "life_step os D G wl mem N" and ?w = "os_sleep_ms os 20 (l_world s)"
  let ?s1 = "s\<lparr>l_main := L_signal 2 r, l_world := ?w\<rparr>"
  let ?s2 = "s\<lparr>l_main := L_signal 1 r, l_world := os_sleep_ms os 20 ?w\<rparr>"
  have "?step s ?s1"
    using life_step.delete [OF delete_step.signal [of s 2 r os], of D G wl mem N] assms by (simp add: numeral_3_eq_3 numeral_2_eq_2)
  moreover have "?step ?s1 ?s2"
    using life_step.delete [OF delete_step.signal [of ?s1 1 r os], of D G wl mem N] by (simp add: numeral_2_eq_2)
  moreover have "?step ?s2 (s\<lparr>l_main := L_join_event r, l_world := os_sleep_ms os 20 ?w\<rparr>)"
    using life_step.delete [OF delete_step.signal [of ?s2 0 r os], of D G wl mem N] by simp
  ultimately show ?thesis by (meson converse_rtranclp_into_rtranclp r_into_rtranclp)
qed

text \<open>What one more message of the kernel makes possible: the event thread looks at the flag.\<close>

lemma event_thread_ends:
  assumes "l_event s = V_recv" "l_destroy s" "nl_recv N (l_socket s) 1024 w = (Inr bs, w1)" "bs \<noteq> []"
  shows "(life_step os D G wl mem N)\<^sup>*\<^sup>* s (s\<lparr>l_event := V_done, l_world := w1\<rparr>)"
proof -
  let ?step = "life_step os D G wl mem N"
  let ?s1 = "s\<lparr>l_world := w\<rparr>" and ?s2 = "s\<lparr>l_event := V_got bs, l_world := w1\<rparr>"
  have "?step s ?s1" by (rule life_step.elsewhere)
  moreover have "?step ?s1 ?s2"
    using life_step.event [OF event_step.received [of ?s1 N bs w1]] assms by simp
  moreover have "?step ?s2 (?s2\<lparr>l_event := V_done\<rparr>)"
    by (rule life_step.event [OF event_step.destroyed]) (simp_all add: assms)
  ultimately have "?step\<^sup>*\<^sup>* s (?s2\<lparr>l_event := V_done\<rparr>)"
    by (meson converse_rtranclp_into_rtranclp r_into_rtranclp)
  then show ?thesis by (cases s) simp
qed

lemma last_join:
  assumes "l_main s = L_join_event r" "l_event s = V_done" "valid_mgr (l_mgr s)"
  shows "\<exists>s'. life_step os D G wl mem N s s' \<and> l_main s' = L_returned r \<and> l_mgr s' = None \<and>
    l_world s' = (if l_socket s = -1 then l_world s else snd (os_close os (l_socket s) (l_world s)))"
proof -
  obtain pm where pm: "l_mgr s = Some pm" "pm_inv pm" using assms(3) by (auto simp: valid_mgr_def)
  then have "delete_objects (m_DrmObjects pm) = Ret ()" by (intro delete_unlocked) (simp add: pm_inv_def)
  from delete_step.join_event [OF assms(1,2) pm(1) this] obtain s'
    where "delete_step os s s'" "l_main s' = L_returned r" "l_mgr s' = None"
      "l_world s' = (if l_socket s = -1 then l_world s else snd (os_close os (l_socket s) (l_world s)))"
    by fastforce
  then show ?thesis using life_step.delete by blast
qed

lemma device_closed:
  assumes "l_main s = L_close r" "l_mgr s = Some pm"
  obtains w where "life_step os D G wl mem N s (s\<lparr>l_main := L_flag r, l_open := False, l_world := w\<rparr>)"
  using life_step.delete [OF delete_step.close [OF assms]] by blast

lemma release_possible:
  assumes "finitely_stalled os stall" "sends_in_order os out" "\<forall>u. sd_wf (mem u)"
    and "life_inv s" "l_main s = L_close SUCCESS" "l_event s = V_recv"
    and "nl_recv N (l_socket s) 1024 w = (Inr bs, w1)" "bs \<noteq> []"
  shows "\<exists>s'. (life_step os D G wl mem N)\<^sup>*\<^sup>* s s' \<and> l_main s' = L_returned SUCCESS"
proof -
  let ?step = "life_step os D G wl mem N"
  obtain pm where pm: "l_mgr s = Some pm" using assms(4,5) by (auto simp: life_defs valid_mgr_def)
  obtain w2 where s1: "?step s (s\<lparr>l_main := L_flag SUCCESS, l_open := False, l_world := w2\<rparr>)"
    by (rule device_closed [OF assms(5) pm])
  let ?s1 = "s\<lparr>l_main := L_flag SUCCESS, l_open := False, l_world := w2\<rparr>"
  let ?s2 = "?s1\<lparr>l_main := L_join SUCCESS, l_destroy := True\<rparr>"
  note s1
  moreover have "?step ?s1 ?s2" by (rule life_step.delete [OF delete_step.flag]) simp
  ultimately have r2: "?step\<^sup>*\<^sup>* s ?s2" by (meson converse_rtranclp_into_rtranclp r_into_rtranclp)
  have inv2: "life_inv ?s2" using life_steps_inv [OF r2 assms(4)] .
  have c2: "check_started (l_check ?s2)" using assms(4,5) by (auto simp: life_defs)
  obtain g cb w3 where r3: "?step\<^sup>*\<^sup>* ?s2 (?s2\<lparr>l_check := K_done, l_mgr := g, l_cb := cb, l_world := w3\<rparr>)"
    by (rule check_thread_ends [OF assms(1-3) inv2 _ c2]) simp
  let ?s3 = "?s2\<lparr>l_check := K_done, l_mgr := g, l_cb := cb, l_world := w3\<rparr>"
  let ?s4 = "?s3\<lparr>l_main := L_signal 3 SUCCESS\<rparr>"
  have s4: "?step ?s3 ?s4" using life_step.delete [OF delete_step.join [of ?s3 SUCCESS os]] by simp
  let ?s5 = "?s4\<lparr>l_main := L_join_event SUCCESS, l_world := os_sleep_ms os 20 (os_sleep_ms os 20 (l_world ?s4))\<rparr>"
  have s5: "?step\<^sup>*\<^sup>* ?s4 ?s5" by (rule three_signals) simp
  let ?s6 = "?s5\<lparr>l_event := V_done, l_world := w1\<rparr>"
  have s6: "?step\<^sup>*\<^sup>* ?s5 ?s6"
    by (rule event_thread_ends [where w = w and bs = bs]) (simp_all add: assms)
  from r2 r3 have "?step\<^sup>*\<^sup>* s ?s3" by (rule rtranclp_trans)
  from rtranclp_trans [OF rtranclp.rtrancl_into_rtrancl [OF this s4] s5] have "?step\<^sup>*\<^sup>* s ?s5" .
  from rtranclp_trans [OF this s6] have r6: "?step\<^sup>*\<^sup>* s ?s6" .
  have "valid_mgr (l_mgr ?s6)" using life_steps_inv [OF r6 assms(4)] by (auto simp: life_defs)
  then obtain s' where s': "?step ?s6 s'" "l_main s' = L_returned SUCCESS"
    using last_join [of ?s6 SUCCESS os D G wl mem N] by auto
  from rtranclp.rtrancl_into_rtrancl [OF r6 s'(1)] s'(2) show ?thesis by blast
qed

text \<open>Without such a message it stays where it is, whatever the others do.\<close>

lemma event_thread_stays:
  assumes "life_step os D G wl mem N s s'" "life_inv s" "l_event s = V_recv" "l_socket s = fd"
    and "\<forall>w bs w'. nl_recv N fd 1024 w = (Inr bs, w') \<longrightarrow> bs = []"
  shows "l_event s' = V_recv \<and> l_socket s' = fd"
  using assms
  by (cases rule: life_step.cases)
    (auto elim!: thread_cases simp: life_defs)

lemma event_thread_waits:
  assumes "(life_step os D G wl mem N)\<^sup>*\<^sup>* s s'" "life_inv s" "l_event s = V_recv"
    and "\<forall>w bs w'. nl_recv N (l_socket s) 1024 w = (Inr bs, w') \<longrightarrow> bs = []"
  shows "l_event s' = V_recv \<and> l_socket s' = l_socket s"
  using assms(1)
proof (induction rule: rtranclp_induct)
  case (step s1 s2)
  from event_thread_stays [OF step(2) life_steps_inv [OF step(1) assms(2)]] step(3) assms(4) show ?case by blast
qed (use assms(3) in simp)

lemma join_waits:
  assumes "(life_step os D G wl mem N)\<^sup>*\<^sup>* s s'" "life_inv s" "l_main s = L_join ENODEV"
  shows "l_main s' = L_join ENODEV"
  using assms(1)
proof (induction rule: rtranclp_induct)
  case (step s1 s2)
  from step(2) life_steps_inv [OF step(1) assms(2)] step(3) show ?case
    by (cases rule: life_step.cases)
      (auto elim!: thread_cases simp: life_defs)
qed (use assms(3) in simp)

section \<open>A release without interleaving\<close>

text \<open>\<^verbatim>\<open>PortManagerRelease\<close> as \<open>UEvent\<close> defines it is a run of these steps, one in which no thread is in the
  middle of a turn when it begins.\<close>

lemma event_loop_run:
  assumes "uevent_loop os D mem N fd True g cb w = ret ((g', cb'), w')"
    and "l_event s = V_recv" "l_destroy s" "l_socket s = fd" "l_world s = w"
  shows "(life_step os D G wl mem N)\<^sup>*\<^sup>* s (s\<lparr>l_event := V_done, l_world := w'\<rparr>)"
proof -
  let ?P = "\<lambda>os D mem N fd destroy g cb w r. destroy \<longrightarrow> (\<forall>g' cb' w' s. r = Ret ((g', cb'), w') \<longrightarrow>
    l_event s = V_recv \<longrightarrow> l_destroy s \<longrightarrow> l_socket s = fd \<longrightarrow> l_world s = w \<longrightarrow>
    (life_step os D G wl mem N)\<^sup>*\<^sup>* s (s\<lparr>l_event := V_done, l_world := w'\<rparr>))"
  have "?P os D mem N fd True g cb w (Ret ((g', cb'), w'))"
  proof (rule uevent_loop.raw_induct [where P = ?P, OF _ assms(1)], goal_cases)
    case (1 f os D mem N fd destroy g cb w r)
    show ?case
    proof (intro impI allI)
      fix g' cb' w' and s :: "'a life"
      assume a: "destroy" "r = Ret ((g', cb'), w')" "l_event s = V_recv" "l_destroy s" "l_socket s = fd" "l_world s = w"
      obtain m w1 where m: "nl_recv N fd 1024 w = (m, w1)" by fastforce
      show "(life_step os D G wl mem N)\<^sup>*\<^sup>* s (s\<lparr>l_event := V_done, l_world := w'\<rparr>)"
      proof (cases "case m of Inl e \<Rightarrow> True | Inr bs \<Rightarrow> bs = []")
        case True
        with 1(2) m a(1) have "f os D mem N fd destroy g cb w1 = Some r"
          by (auto simp: uevent_turn_def split: sum.splits)
        from 1(1) [OF this, rule_format, where s = "s\<lparr>l_world := w1\<rparr>"] a have "(life_step os D G wl mem N)\<^sup>*\<^sup>* (s\<lparr>l_world := w1\<rparr>)
            (s\<lparr>l_world := w1, l_event := V_done, l_world := w'\<rparr>)" by simp
        moreover have "life_step os D G wl mem N s (s\<lparr>l_world := w1\<rparr>)"
          using m a True by (intro life_step.event event_step.failed) auto
        moreover have "s\<lparr>l_world := w1, l_event := V_done, l_world := w'\<rparr> = s\<lparr>l_event := V_done, l_world := w'\<rparr>"
          by (cases s) simp
        ultimately show ?thesis by (metis converse_rtranclp_into_rtranclp)
      next
        case False
        then obtain bs where bs: "m = Inr bs" "bs \<noteq> []" by (cases m) auto
        with 1(2) m a(1,2) have "w' = w1" by (simp add: uevent_turn_def)
        with event_thread_ends [OF a(3,4), of N w bs w1 os D G wl mem] m bs a show ?thesis by simp
      qed
    qed
  qed
  with assms show ?thesis by simp
qed

lemma release_run:
  assumes "PortManagerRelease os D mem N (True, fd) (Some pm) cb w = ret (g, w')" "life_inv s"
    and "l_main s = L_close SUCCESS" "l_check s = K_loop" "l_event s = V_recv" "l_socket s = fd"
    and "l_mgr s = Some pm" "l_world s = w"
  shows "\<exists>s'. (life_step os D G wl mem N)\<^sup>*\<^sup>* s s' \<and> l_main s' = L_returned SUCCESS \<and>
    l_mgr s' = g \<and> l_world s' = w'"
proof -
  let ?step = "life_step os D G wl mem N"
  let ?w1 = "if m_DrmFd pm < 0 then w else snd (os_close os (m_DrmFd pm) w)"
  let ?w2 = "os_sleep_ms os 20 (os_sleep_ms os 20 ?w1)"
  obtain g2 cb2 w3 where l: "uevent_loop os D mem N fd True (Some pm) cb ?w2 = ret ((g2, cb2), w3)"
    and r: "g = None" "w' = (if fd = -1 then w3 else snd (os_close os fd w3))"
    using assms(1) by (auto simp: PortManagerRelease_def PortManager_delete_def elim!: hdcp_elims split: if_splits)
  let ?s1 = "s\<lparr>l_main := L_flag SUCCESS, l_open := False, l_world := ?w1\<rparr>"
  let ?s2 = "?s1\<lparr>l_main := L_join SUCCESS, l_destroy := True\<rparr>"
  let ?s3 = "?s2\<lparr>l_check := K_done\<rparr>"
  let ?s4 = "?s3\<lparr>l_main := L_signal 3 SUCCESS\<rparr>"
  let ?s5 = "?s4\<lparr>l_main := L_join_event SUCCESS, l_world := ?w2\<rparr>"
  let ?s6 = "?s5\<lparr>l_event := V_done, l_world := w3\<rparr>"
  have "?step s ?s1"
    using life_step.delete [OF delete_step.close [OF assms(3,7), of os], of D G wl mem N] unfolding assms(8) .
  moreover have "?step ?s1 ?s2" by (rule life_step.delete [OF delete_step.flag]) simp
  moreover have "?step ?s2 ?s3" by (rule life_step.check [OF check_step.destroyed]) (simp_all add: assms(4))
  moreover have "?step ?s3 ?s4" by (rule life_step.delete [OF delete_step.join]) simp_all
  ultimately have "?step\<^sup>*\<^sup>* s ?s4" by (meson converse_rtranclp_into_rtranclp r_into_rtranclp)
  moreover have "?step\<^sup>*\<^sup>* ?s4 ?s5"
    using three_signals [of ?s4 SUCCESS os D G wl mem N] by simp
  moreover have "?step\<^sup>*\<^sup>* ?s5 ?s6" by (rule event_loop_run [OF l]) (simp_all add: assms)
  ultimately have s6: "?step\<^sup>*\<^sup>* s ?s6" by (meson rtranclp_trans)
  have "valid_mgr (l_mgr ?s6)" using life_steps_inv [OF s6 assms(2)] by (auto simp: life_defs)
  then obtain s' where "?step ?s6 s'" "l_main s' = L_returned SUCCESS" "l_mgr s' = None" "l_world s' = w'"
    using last_join [of ?s6 SUCCESS os D G wl mem N] r(2) assms(6) by auto
  with rtranclp.rtrancl_into_rtrancl [OF s6] r(1) show ?thesis by blast
qed

section \<open>Properties\<close>

text \<open>A kernel that has one message, which is no hot plug event, and a manager that was just started.\<close>

definition one_message :: "nat netlink_api" where
  "one_message = \<lparr>nl_socket = Pair 7, nl_setsockopt = (\<lambda>fd. Pair 0), nl_bind = (\<lambda>fd. Pair 0),
     nl_recv = (\<lambda>fd n w. (if w = 5 then Inr [1] else Inl EINTR, w))\<rparr>"

definition demo_life :: "nat life" where
  "demo_life = (life_start no_callbacks 0)\<lparr>l_main := L_running, l_check := K_loop, l_event := V_open, l_open := True,
     l_mgr := Some demo_pm\<rparr>"

lemma demo_running:
  "(life_step idle_os demo_drm idle_gwl wl_start (\<lambda>w. example_mem) one_message)\<^sup>*\<^sup>* (life_start no_callbacks 0) demo_life"
proof -
  have "PortManagerInit idle_os demo_drm None 0 = ret ((SUCCESS, Some demo_pm), 0)"
    using demo_new by (simp add: PortManagerInit_def idle_simps demo_pm_def)
  from init_run [OF this, of idle_gwl wl_start "\<lambda>w. example_mem" one_message no_callbacks]
  show ?thesis by (simp add: demo_life_def life_start_def)
qed

lemma demo_opened:
  "(life_step idle_os demo_drm idle_gwl wl_start (\<lambda>w. example_mem) one_message)\<^sup>*\<^sup>* (life_start no_callbacks 0)
     (demo_life\<lparr>l_event := V_recv, l_socket := 7, l_main := L_close SUCCESS\<rparr>)"
proof -
  let ?step = "life_step idle_os demo_drm idle_gwl wl_start (\<lambda>w. example_mem) one_message"
  let ?s = "demo_life\<lparr>l_event := V_recv, l_socket := 7\<rparr>"
  have "uevent_open one_message 0 = ((True, 7), 0)" by (simp add: uevent_open_def one_message_def)
  then have "?step demo_life ?s"
    using life_step.event [OF event_step.opened [of demo_life one_message True 7 0]]
    by (simp add: demo_life_def life_start_def)
  moreover have "?step ?s (?s\<lparr>l_main := L_close SUCCESS\<rparr>)"
    by (rule life_step.release) (simp add: demo_life_def)
  ultimately show ?thesis
    using rtranclp.rtrancl_into_rtrancl [OF rtranclp.rtrancl_into_rtrancl [OF demo_running]] by blast
qed

lemma no_callbacks_free: "\<not> m_CallBackListMutex no_callbacks"
  by (simp add: no_callbacks_def)

text \<open>C14: However the main thread and the two threads of the port manager are interleaved, from the start
  of \<^verbatim>\<open>PortManagerInit\<close> to the end of \<^verbatim>\<open>PortManagerRelease\<close>: a thread that has passed the barrier and has
  not ended finds a port manager in \<^verbatim>\<open>portMgr\<close> that is completely constructed, valid and well-formed;
  the integrity thread ends only after it was asked to; and when the release has returned, and with it
  the manager is gone, both threads have ended.\<close>

theorem threads_see_valid_manager:
  assumes "(life_step os D G wl mem N)\<^sup>*\<^sup>* (life_start cb0 w0) s" "\<not> m_CallBackListMutex cb0"
  shows "(l_check s = K_loop \<or> l_check s = K_check \<or> (event_started (l_event s) \<and> l_event s \<noteq> V_done) \<longrightarrow>
      valid_mgr (l_mgr s)) \<and>
    (l_check s = K_done \<longrightarrow> l_destroy s) \<and>
    (l_main s = L_returned SUCCESS \<longrightarrow> l_mgr s = None \<and> l_check s = K_done \<and> l_event s = V_done)"
proof -
  have inv: "life_inv s" using life_steps_inv [OF assms(1) life_start_inv [OF assms(2)]] .
  moreover have "l_main s = L_returned SUCCESS \<longrightarrow> l_mgr s = None \<and> l_check s = K_done \<and> l_event s = V_done"
    using inv by (auto simp: life_inv_def)
  ultimately show ?thesis using running_valid [OF inv] by (auto simp: life_inv_def)
qed

theorem threads_see_valid_manager_witness:
  "l_check demo_life = K_loop \<and> valid_mgr (l_mgr demo_life)"
  using threads_see_valid_manager [OF demo_running no_callbacks_free] by (simp add: demo_life_def)

text \<open>If the manager cannot be started, \<^verbatim>\<open>PortManagerInit\<close> never returns the \<open>ENODEV\<close> it means to
  return: its destructor waits for an integrity thread that was not created, or that waits at a barrier
  nobody will open, whatever happens in the meantime.\<close>

theorem failed_start_never_returns:
  assumes "(life_step os D G wl mem N)\<^sup>*\<^sup>* (life_start cb0 w0) s" "\<not> m_CallBackListMutex cb0"
  shows "l_main s \<noteq> L_returned ENODEV \<and>
    (l_main s = L_join ENODEV \<longrightarrow> (\<forall>s'. (life_step os D G wl mem N)\<^sup>*\<^sup>* s s' \<longrightarrow> l_main s' = L_join ENODEV))"
proof -
  have inv: "life_inv s" using life_steps_inv [OF assms(1) life_start_inv [OF assms(2)]] .
  then have "l_main s \<noteq> L_returned ENODEV" by (auto simp: life_inv_def)
  moreover have "l_main s' = L_join ENODEV" if "l_main s = L_join ENODEV" "(life_step os D G wl mem N)\<^sup>*\<^sup>* s s'" for s'
    using join_waits [OF that(2) inv that(1)] .
  ultimately show ?thesis by blast
qed

text \<open>Nothing takes \<^verbatim>\<open>isDestroyThreads\<close> back: a manager that is started after one was released never
  checks a port. (The daemon starts it once.)\<close>

theorem restarted_manager_never_checks:
  assumes "(life_step os D G wl mem N)\<^sup>*\<^sup>* ((life_start cb w)\<lparr>l_destroy := True\<rparr>) s"
  shows "l_check s \<noteq> K_check"
proof -
  have "l_destroy s \<and> l_check s \<noteq> K_check" using assms
  proof (induction rule: rtranclp_induct)
    case (step s1 s2)
    from step(2,3) show ?case
      by (cases rule: life_step.cases)
        (auto elim!: thread_cases)
  qed (simp add: life_start_def)
  then show ?thesis by simp
qed

text \<open>C18: The destructor closes the graphics device before it asks the integrity thread to end. So from
  every configuration in which the daemon runs, the release can get to a point where the descriptor is
  closed and the integrity thread is about to run a check on it.\<close>

theorem check_after_close:
  assumes "(life_step os D G wl mem N)\<^sup>*\<^sup>* (life_start cb0 w0) s" "\<not> m_CallBackListMutex cb0"
    and "l_main s = L_running"
  shows "\<exists>s'. (life_step os D G wl mem N)\<^sup>*\<^sup>* s s' \<and> l_main s' = L_flag SUCCESS \<and> \<not> l_open s' \<and>
    l_check s' = K_check \<and> l_mgr s' = l_mgr s"
proof -
  let ?step = "life_step os D G wl mem N"
  have inv: "life_inv s" using life_steps_inv [OF assms(1) life_start_inv [OF assms(2)]] .
  then obtain pm where pm: "l_mgr s = Some pm" using assms(3) by (auto simp: life_inv_def valid_mgr_def)
  have "?step\<^sup>*\<^sup>* s (s\<lparr>l_check := K_check\<rparr>)"
  proof (cases "l_check s = K_check")
    case False
    then have "l_check s = K_loop" "\<not> l_destroy s" using inv assms(3) by (auto simp: life_defs)
    from life_step.check [OF check_step.go_on [OF this]] show ?thesis by blast
  qed (cases s, simp)
  moreover have "?step (s\<lparr>l_check := K_check\<rparr>) (s\<lparr>l_check := K_check, l_main := L_close SUCCESS\<rparr>)"
    by (rule life_step.release) (simp add: assms(3))
  moreover obtain w where "?step (s\<lparr>l_check := K_check, l_main := L_close SUCCESS\<rparr>)
      (s\<lparr>l_check := K_check, l_main := L_flag SUCCESS, l_open := False, l_world := w\<rparr>)"
    by (rule device_closed [of "s\<lparr>l_check := K_check, l_main := L_close SUCCESS\<rparr>" SUCCESS pm]) (simp_all add: pm)
  ultimately have "?step\<^sup>*\<^sup>* s (s\<lparr>l_check := K_check, l_main := L_flag SUCCESS, l_open := False, l_world := w\<rparr>)"
    by (meson rtranclp.rtrancl_into_rtrancl)
  then show ?thesis
    by (intro exI [of _ "s\<lparr>l_check := K_check, l_main := L_flag SUCCESS, l_open := False, l_world := w\<rparr>"]) simp
qed

theorem check_after_close_witness:
  "\<exists>s'. (life_step idle_os demo_drm idle_gwl wl_start (\<lambda>w. example_mem) one_message)\<^sup>*\<^sup>* demo_life s' \<and>
     \<not> l_open s' \<and> l_check s' = K_check \<and> l_mgr s' = Some demo_pm"
  using check_after_close [OF demo_running no_callbacks_free] by (auto simp: demo_life_def)

text \<open>C17: Whether the release of a running port manager can return is up to the kernel: if the event
  thread waits for a message when it begins, the release can come to its end exactly if there may be
  another message. The signals the destructor sends only make \<^verbatim>\<open>recv\<close> fail, after which the thread waits
  again without a look at the flag; the integrity thread ends in any case, after at most one more
  check.\<close>

theorem release_needs_kernel_message:
  assumes "finitely_stalled os stall" "sends_in_order os out" "\<forall>u. sd_wf (mem u)"
    and "(life_step os D G wl mem N)\<^sup>*\<^sup>* (life_start cb0 w0) s" "\<not> m_CallBackListMutex cb0"
    and "l_main s = L_close SUCCESS" "l_event s = V_recv"
  shows "(\<exists>s'. (life_step os D G wl mem N)\<^sup>*\<^sup>* s s' \<and> l_main s' = L_returned SUCCESS) \<longleftrightarrow>
    (\<exists>w bs w'. nl_recv N (l_socket s) 1024 w = (Inr bs, w') \<and> bs \<noteq> [])"
proof
  have inv: "life_inv s" using life_steps_inv [OF assms(4) life_start_inv [OF assms(5)]] .
  assume "\<exists>s'. (life_step os D G wl mem N)\<^sup>*\<^sup>* s s' \<and> l_main s' = L_returned SUCCESS"
  then obtain s' where s': "(life_step os D G wl mem N)\<^sup>*\<^sup>* s s'" "l_main s' = L_returned SUCCESS" by blast
  have "l_event s' = V_done" using life_steps_inv [OF s'(1) inv] s'(2) by (auto simp: life_inv_def)
  with event_thread_waits [OF s'(1) inv assms(7)] show "\<exists>w bs w'. nl_recv N (l_socket s) 1024 w = (Inr bs, w') \<and> bs \<noteq> []"
    by fastforce
next
  have inv: "life_inv s" using life_steps_inv [OF assms(4) life_start_inv [OF assms(5)]] .
  assume "\<exists>w bs w'. nl_recv N (l_socket s) 1024 w = (Inr bs, w') \<and> bs \<noteq> []"
  with release_possible [OF assms(1-3) inv assms(6,7)]
  show "\<exists>s'. (life_step os D G wl mem N)\<^sup>*\<^sup>* s s' \<and> l_main s' = L_returned SUCCESS" by blast
qed

theorem release_needs_kernel_message_witness:
  "\<exists>s'. (life_step idle_os demo_drm idle_gwl wl_start (\<lambda>w. example_mem) one_message)\<^sup>*\<^sup>*
      (demo_life\<lparr>l_event := V_recv, l_socket := 7, l_main := L_close SUCCESS\<rparr>) s' \<and>
    l_main s' = L_returned SUCCESS"
proof -
  have "finitely_stalled (idle_os :: nat os_api) (\<lambda>w. 0)" "sends_in_order (idle_os :: nat os_api) (\<lambda>w fd. [])"
    "\<forall>u :: nat. sd_wf example_mem"
    using example_mem_wf by (auto simp: finitely_stalled_def sends_in_order_def idle_simps)
  note iff = release_needs_kernel_message [OF this demo_opened no_callbacks_free]
  have "nl_recv one_message 7 1024 5 = (Inr [1], 5)" by (simp add: one_message_def)
  then show ?thesis by (subst iff) (auto intro!: exI)
qed

end
