(* ===== verification/Delays.thy ===== *)
theory Delays
  imports PortManager "HOL-Library.Signed_Division"
begin

text \<open>
  The macros of \<^verbatim>\<open>src/sdk/hdcpdef.h\<close> with which the daemon sleeps. Their arguments are of type
  \<^verbatim>\<open>int\<close>, so the products of milliseconds and of microseconds are computed in 32 bits; a product that
  does not fit is undefined. The result is the \<^verbatim>\<open>timespec\<close> given to \<^verbatim>\<open>nanosleep\<close>, which takes a
  number of nanoseconds between 0 and 999999999 only.
\<close>

abbreviation (input) INTEGRITY_CHECK_DELAY_MS :: nat where "INTEGRITY_CHECK_DELAY_MS \<equiv> 500"

record timespec =
  tv_sec :: int
  tv_nsec :: int

definition int_times :: "int \<Rightarrow> int \<Rightarrow> int outcome" where
  "int_times x y = (if - (2 ^ 31) \<le> x * y \<and> x * y < 2 ^ 31 then Ret (x * y) else Undef)"

definition SLEEP_NSEC :: "int \<Rightarrow> timespec" where
  "SLEEP_NSEC x = \<lparr>tv_sec = x sdiv 1000000000, tv_nsec = x smod 1000000000\<rparr>"

definition SLEEP_USEC :: "int \<Rightarrow> timespec outcome" where
  "SLEEP_USEC x = ubind (int_times x 1000) (\<lambda>x. Ret (SLEEP_NSEC x))"

definition SLEEP_MSEC :: "int \<Rightarrow> timespec outcome" where
  "SLEEP_MSEC x = ubind (int_times x 1000) SLEEP_USEC"

text \<open>The time a \<^verbatim>\<open>timespec\<close> stands for, and whether \<^verbatim>\<open>nanosleep\<close> accepts it.\<close>

definition span_ns :: "timespec \<Rightarrow> int" where
  "span_ns t = tv_sec t * 1000000000 + tv_nsec t"

definition sleepable :: "timespec \<Rightarrow> bool" where
  "sleepable t \<longleftrightarrow> 0 \<le> tv_sec t \<and> 0 \<le> tv_nsec t \<and> tv_nsec t < 1000000000"

lemma nsec_span: "span_ns (SLEEP_NSEC x) = x"
  by (simp add: span_ns_def SLEEP_NSEC_def sdiv_mult_smod_eq)

lemma nsec_sleepable: "0 \<le> x \<Longrightarrow> sleepable (SLEEP_NSEC x)"
  by (auto simp: sleepable_def SLEEP_NSEC_def signed_divide_int_def signed_modulo_int_def
      minus_mult_div_eq_mod sgn_if)

text \<open>Up to 2147 milliseconds the macro asks for exactly the time it is given, in a form \<^verbatim>\<open>nanosleep\<close>
  accepts; for more it is undefined. The delays of the daemon are within these bounds.\<close>

theorem sleep_msec_exact:
  "(case SLEEP_MSEC (int ms) of
      Ret t \<Rightarrow> ms \<le> 2147 \<and> sleepable t \<and> span_ns t = 1000000 * int ms
    | Undef \<Rightarrow> 2147 < ms) \<and>
   (\<forall>d \<in> {20, INTEGRITY_CHECK_DELAY_MS, AUTH_CHECK_DELAY_MS}. SLEEP_MSEC (int d) \<noteq> Undef)"
proof -
  have eq: "SLEEP_MSEC (int ms) = (if ms \<le> 2147 then Ret (SLEEP_NSEC (1000000 * int ms)) else Undef)" for ms
    by (auto simp: SLEEP_MSEC_def SLEEP_USEC_def int_times_def ubind_def)
  show ?thesis by (auto simp: eq nsec_span nsec_sleepable)
qed

end
