(* ===== verification/Spec2Isabelle.thy ===== *)
theory Spec2Isabelle
  imports EndToEnd DisplayWindow PortSpec DaemonReturns PortThreads Signals HWComposer OpenSslCompat
    EndToEndKeys EndToEndSrm SrmTestKey Stalls ThreadLife Delays
begin

text \<open>
  A model of the HDCP daemon and of its client library, with their theorems.

  The program. A daemon (\<^verbatim>\<open>src/daemon\<close>) switches the content protection of display ports on and off for
  the applications that ask for it. Applications link a library (\<^verbatim>\<open>src/sdk\<close>) that talks to the daemon
  over a UNIX stream socket (\<^verbatim>\<open>src/common\<close>): every session of an application has a connection of its
  own, on which it exchanges messages of 100 bytes, and every process has one more connection on which
  the daemon reports events. In the daemon the message loop of \<^verbatim>\<open>daemon.cpp\<close> takes a request from the
  server socket, dispatches it to the port manager (\<^verbatim>\<open>portmanager.cpp\<close>, over libdrm) or to the table of
  revoked keys (\<^verbatim>\<open>srm.cpp\<close>), and answers; two threads of the port manager watch the kernel's hot plug
  messages and the integrity of the links, and report through the daemon's list of callback connections.

  Foundations. \<^verbatim>\<open>Hdcp_Prelude\<close>: machine integers as words, status values, the result type \<open>outcome\<close> of
  code that may be undefined or not return, checked buffer accesses, and the interfaces: the locales
  \<open>inv_system\<close> (operations that keep an invariant, and runs of them) and \<open>versioned_store\<close> (one that also
  has a version that does not decrease), which \<^verbatim>\<open>Srm\<close>, \<^verbatim>\<open>PortSafety\<close>, \<^verbatim>\<open>DaemonSafety\<close> and \<^verbatim>\<open>ClientSafety\<close>
  interpret on their operations. \<^verbatim>\<open>Hdcp_Platform\<close>: what is not under \<^verbatim>\<open>src\<close>, as records of functions over
  an arbitrary world: the operating system, libdrm, the IAS compositor, OpenSSL. No law about them is
  built in; a theorem names the documented facts it needs (\<open>reads_in_order\<close>, \<open>sends_in_order\<close> and
  \<open>finitely_stalled\<close> for streams, \<open>connectors\<close> and \<open>properties\<close> for libdrm, \<open>posix_storage\<close> for files,
  with the flags they are opened with and the offset of each descriptor, \<open>record_lock\<close> for locks, and so on), and its witness shows them satisfiable.

  The theories, in the order of their imports:

  \<^item> \<^verbatim>\<open>SocketData\<close> (\<^verbatim>\<open>socketdata.{h,cpp}\<close>, types of \<^verbatim>\<open>hdcpapi.h\<close>): the message as a record and its layout in
    bytes, with \<open>decode\<close> and \<open>encode\<close> inverse to each other.
  \<^item> \<^verbatim>\<open>GenSock\<close>, \<^verbatim>\<open>ClientSock\<close>, \<^verbatim>\<open>ServSock\<close> (the classes of the same names): exact transfer of bytes and
    messages through reads and sends that may be short or interrupted; the table of connections, new
    connections, the search for the next task. The table is kept like a book: what comes into it was
    accepted, and what goes out of it is the client whose task is handed out.
  \<^item> \<^verbatim>\<open>Srm\<close>, \<^verbatim>\<open>SrmStorage\<close> (\<^verbatim>\<open>srm.{h,cpp}\<close>): parsing a system renewability message, checking its signature,
    searching a key, storing the message. Genuineness, monotonicity of the version, safety of the parser,
    a round trip with a builder of messages, and what the storage file loses.
  \<^item> \<^verbatim>\<open>Port\<close>, \<^verbatim>\<open>PortManager\<close>, \<^verbatim>\<open>PortSafety\<close>, \<^verbatim>\<open>PortProperties\<close>, \<^verbatim>\<open>PortEvents\<close>, \<^verbatim>\<open>UEvent\<close> (\<^verbatim>\<open>port.{h,cpp}\<close>,
    \<^verbatim>\<open>portmanager.{h,cpp}\<close>, with \<^verbatim>\<open>DisplayWindow\<close> for \<^verbatim>\<open>display_window_util_wl.cpp\<close>): connectors with the
    applications that use them, every operation of the port manager, and its two threads. The invariant
    \<open>pm_inv\<close> and the frame \<open>touched\<close> carry the effect of enabling and disabling, of hot plug events and of
    integrity checks. \<^verbatim>\<open>PortSpec\<close> states what this means to an application: an abstract table of
    the ports and their users, of which every operation is a step. \<^verbatim>\<open>PortRequests\<close> states what the driver
    has to be told and to report for a request to succeed: \<open>granted\<close> for enabling, \<open>switched_off\<close> for
    disabling. \<^verbatim>\<open>PortThreads\<close> cuts \<^verbatim>\<open>EnablePort\<close>,
    \<^verbatim>\<open>DisablePort\<close> and \<^verbatim>\<open>CheckIntegrity\<close> at the mutex of a port's content type and interleaves the message
    loop with the integrity thread, with hot plug events and with a hardware that may do anything; the
    pieces run one after the other are shown to be the operations. \<^verbatim>\<open>ThreadLife\<close> does the same for the
    life of the port manager: the constructor, the barrier, the loops of the two threads and the
    destructor are step relations over one configuration, \<open>life_inv\<close> its invariant, and the sequential
    \<open>PortManagerInit\<close> and \<open>PortManagerRelease\<close> are runs of it. \<^verbatim>\<open>Delays\<close>: the macros with which the
    daemon sleeps, within their 32 bits. \<^verbatim>\<open>HWComposer\<close> is the Android variant.
  \<^item> \<^verbatim>\<open>OpenSslCompat\<close> (\<^verbatim>\<open>srm.cpp\<close>): the wrappers for versions of OpenSSL before 1.1. \<^verbatim>\<open>SrmTestKey\<close>: the key of
    the test build.
  \<^item> \<^verbatim>\<open>Signals\<close>: which handler is in force for the signals that end the daemon, and what it does.
  \<^item> \<^verbatim>\<open>CallBack\<close>, \<^verbatim>\<open>Daemon\<close>, \<^verbatim>\<open>DaemonSafety\<close>, \<^verbatim>\<open>DaemonMain\<close>, \<^verbatim>\<open>DaemonProperties\<close> (\<^verbatim>\<open>daemon.{h,cpp}\<close>, \<^verbatim>\<open>main.cpp\<close>):
    the callback list, the handlers, one turn of the message loop, start, stop and main. \<open>reported\<close> is the
    contract of the reports, which the hot plug events and integrity checks of \<^verbatim>\<open>PortEvents\<close> meet: a list of
    events reaches every connection that stays, in order, and one that is dropped up to the first that
    could not be sent to it. \<open>daemon_inv\<close> is
    the invariant of the whole daemon over any run of requests and events. \<^verbatim>\<open>DaemonReturns\<close>: none of its
    operations hangs.
  \<^item> \<^verbatim>\<open>Session\<close>, \<^verbatim>\<open>SessionManager\<close>, \<^verbatim>\<open>HdcpApi\<close>, \<^verbatim>\<open>ClientSafety\<close>, \<^verbatim>\<open>ClientProperties\<close>, \<^verbatim>\<open>ClientThreads\<close>
    (\<^verbatim>\<open>session\<close>, \<^verbatim>\<open>sessionmanager\<close>, \<^verbatim>\<open>hdcpapi\<close>): the sessions of a process on an explicit heap with pointer
    lists, reference counts and mutexes. \<open>sm_inv\<close> is the invariant between calls; under it every function
    has a closed form, from which the refinement of a table of sessions follows. \<open>client_step\<close> interleaves
    the critical sections of two threads.
  \<^item> \<^verbatim>\<open>EndToEnd\<close>: the client library over a system whose other end is the daemon's \<open>handle_task\<close>.
    \<^verbatim>\<open>EndToEndPorts\<close>: setting a level through the whole system, whatever the driver answers.
    \<^verbatim>\<open>Answers\<close>: the bytes with which the daemon answers each kind of request, of which the client library
    reads exactly as many (\<^verbatim>\<open>EndToEndKeys\<close> for the keys of a port). \<^verbatim>\<open>EndToEndSrm\<close>:
    uploading an SRM, where the daemon waits for the client in the middle of its handler, so that the two
    sides are put together by their streams.
  \<^item> \<^verbatim>\<open>Stalls\<close>: what a client that does not read its events, or sends half a message, does to the others.

  Loops. Structural ones are \<open>fun\<close>; searches over indices have a measure; loops that retry a system call as
  long as it is interrupted, or run until a signal, are \<open>partial_function (option)\<close>, where \<open>None\<close> is a run
  that does not return. No fuel is used. Theorems that such a loop returns assume \<open>finitely_stalled\<close>.
  A mutex is a flag: taking one that is held is \<open>None\<close>, since the model of an operation has one thread;
  giving back one that is free is \<open>Undef\<close>. Except in \<^verbatim>\<open>PortThreads\<close>, \<^verbatim>\<open>ThreadLife\<close> and \<^verbatim>\<open>ClientThreads\<close> the threads of a
  process run their turns one after the other.

  What modelling showed is listed with the theorems that show it: no key ever counts as revoked; messages
  with lists of later generations are refused; a short message is read beyond its end; port lists and
  key lists are written beyond their ends; the pid file does not keep a second daemon away; the event
  thread ends, and with it the release of the port manager, only if the kernel has another message; the
  release closes the graphics device while the integrity thread may still use it; a port manager that
  cannot be started does not return its error, and one that is started again never checks a port; destroying a session that is in use deadlocks, and twice from a callback is
  undefined; a client that lost its event connection never gets one again; disabling a port may
  report a lost link; a signal that ends the daemon may leave it waiting for a mutex forever; a failed upgrade of a level gives
  up the level in force; a request for level 2 succeeds although the driver reports type 0; the keys of
  a port reach the application in the byte order of the driver and not in the one the interface
  promises; one client that stops reading or writing in the middle stops the others.

  Not modelled: logging and the log file; the release of memory by destructors, apart from what they
  close, join and unlock; interleavings within one operation of the daemon that does not touch a content
  type (between operations \<^verbatim>\<open>ThreadLife\<close> has them), and of the members a thread reads without a mutex;
  the wait of a thread for one signal rather than another, since the handler of \<^verbatim>\<open>SIGUSR1\<close> does nothing;
  the declarations of the IAS library.
\<close>

end
